(* ===== verification/Prelude.thy ===== *)
theory Prelude
  imports Complex_Main "HOL-Library.Sublist"
begin

text \<open>
  What every component shares: the exceptions the code throws, JavaScript's view of
  optional strings (\<open>??\<close>, truthiness), strings and numbers as text, and the
  asynchronous computations the services are written in.

  An \<open>async\<close> computation reads and writes a state and either resolves or throws, as the
  body of an \<open>async\<close> method does: writes made before a throw stay. Sequencing
  (\<open>await\<close>), \<open>catch\<close> and \<open>finally\<close> follow the language. Triples over such
  computations, with one postcondition for the resolved value and one for the thrown
  exception, carry the proofs about handlers.
\<close>

section \<open>Lemma collections\<close>

named_theorems async_simps \<open>evaluation of the asynchronous combinators\<close>
named_theorems triple_intros \<open>triples of the asynchronous combinators\<close>
named_theorems js_simps \<open>JavaScript truthiness and nullish coalescing\<close>

section \<open>Exceptions\<close>

text \<open>Status codes of \<^verbatim>\<open>@grpc/grpc-js\<close> that the code names, and all the others.\<close>

datatype grpc_status =
    INVALID_ARGUMENT | DEADLINE_EXCEEDED | NOT_FOUND | ALREADY_EXISTS
  | FAILED_PRECONDITION | UNAVAILABLE | OtherStatus int

text \<open>
  Everything the code throws or rethrows. The HTTP exceptions of NestJS carry their message;
  \<open>DbError\<close> is a driver error with its SQLSTATE in \<open>code\<close>; \<open>ServiceError\<close> is
  what a failed RPC call rejects with (\<open>code\<close> and \<open>details\<close>); \<open>TimeoutError\<close>
  is what the \<open>timeout\<close> operator raises; the \<open>OrdersPayment\<close> exceptions are the
  classes of \<^verbatim>\<open>orders-payment.errors.ts\<close>; \<open>SdkError\<close> is an error of the S3 client
  (\<open>$metadata.httpStatusCode\<close>, \<open>statusCode\<close>, message).
\<close>

datatype payment_error_class =
    OrdersPaymentValidationError | OrdersPaymentNotFoundError | OrdersPaymentConflictError
  | OrdersPaymentTimeoutError | OrdersPaymentUnavailableError | OrdersPaymentIntegrationError

datatype exn =
    BadRequestException string
  | NotFoundException string
  | ConflictException string
  | ForbiddenException string
  | UnauthorizedException string
  | JsError string
  | TypeError string
  | DbError "string option" string
  | RpcException grpc_status string
  | WsException string
  | TimeoutError
  | ServiceError "grpc_status option" "string option"
  | OrdersPaymentException payment_error_class string
  | SdkError "int option" "int option" string

text \<open>\<open>error.message\<close> of a thrown value.\<close>

fun exn_message :: "exn \<Rightarrow> string" where
  "exn_message (BadRequestException m) = m"
| "exn_message (NotFoundException m) = m"
| "exn_message (ConflictException m) = m"
| "exn_message (ForbiddenException m) = m"
| "exn_message (UnauthorizedException m) = m"
| "exn_message (JsError m) = m"
| "exn_message (TypeError m) = m"
| "exn_message (DbError c m) = m"
| "exn_message (RpcException c m) = m"
| "exn_message (WsException m) = m"
| "exn_message TimeoutError = ''Timeout has occurred''"
| "exn_message (ServiceError c d) = (case d of None \<Rightarrow> [] | Some m \<Rightarrow> m)"
| "exn_message (OrdersPaymentException k m) = m"
| "exn_message (SdkError a b m) = m"

section \<open>Optional strings\<close>

text \<open>\<open>a ?? b\<close>: undefined and null are both \<open>None\<close>.\<close>

definition nullish :: "'a option \<Rightarrow> 'a option \<Rightarrow> 'a option" where
  "nullish a b = (case a of None \<Rightarrow> b | Some x \<Rightarrow> Some x)"

text \<open>A string used as a condition: present and not empty.\<close>

definition truthy :: "string option \<Rightarrow> bool" where
  "truthy s = (case s of None \<Rightarrow> False | Some t \<Rightarrow> t \<noteq> [])"

text \<open>A value with a default.\<close>

definition some_or :: "'a option \<Rightarrow> 'a \<Rightarrow> 'a" where
  "some_or v d = (case v of None \<Rightarrow> d | Some x \<Rightarrow> x)"

lemma some_or_simps [simp]: "some_or None d = d" "some_or (Some x) d = x"
  by (simp_all add: some_or_def)

lemma nullish_simps [simp, js_simps]:
  "nullish None b = b"
  "nullish (Some x) b = Some x"
  by (simp_all add: nullish_def)

lemma truthy_simps [simp, js_simps]:
  "truthy None = False"
  "truthy (Some s) = (s \<noteq> [])"
  by (simp_all add: truthy_def)

lemma truthyE:
  assumes "truthy k"
  obtains s where "k = Some s" "s \<noteq> []"
  using assms by (cases k) auto

section \<open>Text\<close>

text \<open>Decimal digits of a natural number, \<open>String(n)\<close> for a non-negative integer.\<close>

definition digit_char :: "nat \<Rightarrow> char" where
  "digit_char d = char_of (48 + d)"

fun string_of_nat :: "nat \<Rightarrow> string" where
  "string_of_nat n =
     (if n < 10 then [digit_char n]
      else string_of_nat (n div 10) @ [digit_char (n mod 10)])"

declare string_of_nat.simps [simp del]

definition string_of_int :: "int \<Rightarrow> string" where
  "string_of_int i = (if i < 0 then ''-'' @ string_of_nat (nat (- i)) else string_of_nat (nat i))"

lemma string_of_nat_nonempty: "string_of_nat n \<noteq> []"
  by (subst string_of_nat.simps) simp

text \<open>\<open>s.startsWith(p)\<close>.\<close>

definition startsWith :: "string \<Rightarrow> string \<Rightarrow> bool" where
  "startsWith s p = prefix p s"

lemma startsWith_append [simp]: "startsWith (p @ s) p"
  by (simp add: startsWith_def)

text \<open>
  Path segments: two segments without a slash, each followed by a slash, are equal as soon as
  one path is a prefix of the other.
\<close>

lemma segment_eq:
  assumes "CHR ''/'' \<notin> set a" and "CHR ''/'' \<notin> set b"
    and "a @ CHR ''/'' # xs = b @ CHR ''/'' # ys"
  shows "a = b \<and> xs = ys"
  using assms
proof (induction a arbitrary: b)
  case Nil
  then show ?case by (cases b) auto
next
  case (Cons x a)
  then show ?case by (cases b) auto
qed

section \<open>Asynchronous computations\<close>

type_synonym ('s, 'a) async = "'s \<Rightarrow> (exn + 'a) \<times> 's"

definition resolve :: "'a \<Rightarrow> ('s, 'a) async" where
  "resolve x = (\<lambda>s. (Inr x, s))"

definition throw :: "exn \<Rightarrow> ('s, 'a) async" where
  "throw e = (\<lambda>s. (Inl e, s))"

text \<open>\<open>const x = await m; k x\<close>\<close>

definition await :: "('s, 'a) async \<Rightarrow> ('a \<Rightarrow> ('s, 'b) async) \<Rightarrow> ('s, 'b) async" where
  "await m k = (\<lambda>s. case m s of (Inl e, s') \<Rightarrow> (Inl e, s') | (Inr x, s') \<Rightarrow> k x s')"

text \<open>\<open>try { m } catch (e) { h e }\<close>\<close>

definition try_catch :: "('s, 'a) async \<Rightarrow> (exn \<Rightarrow> ('s, 'a) async) \<Rightarrow> ('s, 'a) async" where
  "try_catch m h = (\<lambda>s. case m s of (Inl e, s') \<Rightarrow> h e s' | (Inr x, s') \<Rightarrow> (Inr x, s'))"

text \<open>\<open>try { m } finally { f }\<close>: an exception of \<open>f\<close> replaces the outcome of \<open>m\<close>.\<close>

definition try_finally :: "('s, 'a) async \<Rightarrow> ('s, unit) async \<Rightarrow> ('s, 'a) async" where
  "try_finally m f = (\<lambda>s. case m s of (r, s') \<Rightarrow>
     (case f s' of (Inl e, s'') \<Rightarrow> (Inl e, s'') | (Inr _, s'') \<Rightarrow> (r, s'')))"

text \<open>Reading the state, and replacing it.\<close>

definition gets :: "('s \<Rightarrow> 'a) \<Rightarrow> ('s, 'a) async" where
  "gets f = (\<lambda>s. (Inr (f s), s))"

definition modify :: "('s \<Rightarrow> 's) \<Rightarrow> ('s, unit) async" where
  "modify f = (\<lambda>s. (Inr (), f s))"

text \<open>A synchronous method that cannot throw, as a computation.\<close>

definition sync :: "('s \<Rightarrow> 'a \<times> 's) \<Rightarrow> ('s, 'a) async" where
  "sync f = (\<lambda>s. case f s of (x, s') \<Rightarrow> (Inr x, s'))"

text \<open>A computation on a part of the state, run on the whole.\<close>

definition on_part :: "('w \<Rightarrow> 's) \<Rightarrow> ('s \<Rightarrow> 'w \<Rightarrow> 'w) \<Rightarrow> ('s, 'a) async \<Rightarrow> ('w, 'a) async" where
  "on_part get put m = (\<lambda>w. case m (get w) of (r, s) \<Rightarrow> (r, put s w))"

lemma async_run [async_simps]:
  "resolve x s = (Inr x, s)"
  "throw e s = (Inl e, s)"
  "gets f s = (Inr (f s), s)"
  "modify g s = (Inr (), g s)"
  by (simp_all add: resolve_def throw_def gets_def modify_def)

lemma sync_run [async_simps]: "sync f s = (Inr (fst (f s)), snd (f s))"
  by (simp add: sync_def split_beta)

lemma await_resolve [simp]: "await (resolve x) k = k x"
  by (simp add: await_def resolve_def)

lemma await_throw [simp]: "await (throw e) k = throw e"
  by (simp add: await_def throw_def)

lemma await_run [async_simps]:
  "m s = (Inl e, s') \<Longrightarrow> await m k s = (Inl e, s')"
  "m s = (Inr x, s') \<Longrightarrow> await m k s = k x s'"
  by (simp_all add: await_def)

lemma await_Inr_iff:
  "await m k s = (Inr y, t) \<longleftrightarrow> (\<exists>x s'. m s = (Inr x, s') \<and> k x s' = (Inr y, t))"
  by (auto simp: await_def split: prod.splits sum.splits)

lemma await_Inl_iff:
  "await m k s = (Inl e, t) \<longleftrightarrow>
     m s = (Inl e, t) \<or> (\<exists>x s'. m s = (Inr x, s') \<and> k x s' = (Inl e, t))"
  by (auto simp: await_def split: prod.splits sum.splits)

lemma try_catch_run [async_simps]:
  "m s = (Inl e, s') \<Longrightarrow> try_catch m h s = h e s'"
  "m s = (Inr x, s') \<Longrightarrow> try_catch m h s = (Inr x, s')"
  by (simp_all add: try_catch_def)

lemma try_finally_run [async_simps]:
  "m s = (r, s') \<Longrightarrow> f s' = (Inr (), s'') \<Longrightarrow> try_finally m f s = (r, s'')"
  "m s = (r, s') \<Longrightarrow> f s' = (Inl e, s'') \<Longrightarrow> try_finally m f s = (Inl e, s'')"
  by (simp_all add: try_finally_def)

lemma on_part_run:
  "m (get w) = (r, s) \<Longrightarrow> on_part get put m w = (r, put s w)"
  by (simp add: on_part_def)

section \<open>Triples\<close>

text \<open>
  \<open>triple P m Q E\<close>: from a state satisfying \<open>P\<close>, \<open>m\<close> either resolves with a value
  and a state satisfying \<open>Q\<close>, or throws with an exception and a state satisfying \<open>E\<close>.
\<close>

definition triple ::
  "('s \<Rightarrow> bool) \<Rightarrow> ('s, 'a) async \<Rightarrow> ('a \<Rightarrow> 's \<Rightarrow> bool) \<Rightarrow> (exn \<Rightarrow> 's \<Rightarrow> bool) \<Rightarrow> bool" where
  "triple P m Q E \<longleftrightarrow>
     (\<forall>s. P s \<longrightarrow> (case m s of (Inl e, s') \<Rightarrow> E e s' | (Inr x, s') \<Rightarrow> Q x s'))"

lemma tripleI:
  assumes "\<And>s x t. P s \<Longrightarrow> m s = (Inr x, t) \<Longrightarrow> Q x t"
    and "\<And>s e t. P s \<Longrightarrow> m s = (Inl e, t) \<Longrightarrow> E e t"
  shows "triple P m Q E"
  using assms by (auto simp: triple_def split: prod.splits sum.splits)

lemma triple_InrD: "triple P m Q E \<Longrightarrow> P s \<Longrightarrow> m s = (Inr x, t) \<Longrightarrow> Q x t"
  unfolding triple_def by (metis (mono_tags, lifting) case_prod_conv old.sum.simps(6))

lemma triple_InlD: "triple P m Q E \<Longrightarrow> P s \<Longrightarrow> m s = (Inl e, t) \<Longrightarrow> E e t"
  unfolding triple_def by (metis (mono_tags, lifting) case_prod_conv old.sum.simps(5))

lemma triple_pre: "triple P' m Q E \<Longrightarrow> (\<And>s. P s \<Longrightarrow> P' s) \<Longrightarrow> triple P m Q E"
  by (auto simp: triple_def)

lemma triple_post:
  "triple P m Q' E' \<Longrightarrow> (\<And>x s. Q' x s \<Longrightarrow> Q x s) \<Longrightarrow> (\<And>e s. E' e s \<Longrightarrow> E e s) \<Longrightarrow> triple P m Q E"
  by (fastforce simp: triple_def split: prod.splits sum.splits)

lemma triple_resolve [triple_intros]: "triple (Q x) (resolve x) Q E"
  by (simp add: triple_def async_simps)

lemma triple_throw [triple_intros]: "triple (E e) (throw e) Q E"
  by (simp add: triple_def async_simps)

lemma triple_await [triple_intros]:
  "triple P m R E \<Longrightarrow> (\<And>x. triple (R x) (k x) Q E) \<Longrightarrow> triple P (await m k) Q E"
  by (fastforce simp: triple_def await_def split: prod.splits sum.splits)

lemma triple_try_catch:
  "triple P m Q R \<Longrightarrow> (\<And>e. triple (R e) (h e) Q E) \<Longrightarrow> triple P (try_catch m h) Q E"
  by (fastforce simp: triple_def try_catch_def split: prod.splits sum.splits)

lemma triple_if [triple_intros]:
  "(b \<Longrightarrow> triple P m Q E) \<Longrightarrow> (\<not> b \<Longrightarrow> triple P n Q E) \<Longrightarrow> triple P (if b then m else n) Q E"
  by simp

lemma triple_option [triple_intros]:
  "(v = None \<Longrightarrow> triple P m Q E) \<Longrightarrow> (\<And>x. v = Some x \<Longrightarrow> triple P (n x) Q E) \<Longrightarrow>
   triple P (case v of None \<Rightarrow> m | Some x \<Rightarrow> n x) Q E"
  by (cases v) simp_all

lemma triple_False [simp]: "triple (\<lambda>s. False) m Q E"
  by (simp add: triple_def)

end
