(* ===== verification/JsNumber.thy ===== *)
theory JsNumber
  imports Prelude
begin

text \<open>
  JavaScript numbers as the code meets them: configuration values and amounts arrive as
  strings and go through \<open>Number(...)\<close>, then through \<open>Number.isFinite\<close>,
  \<open>Number.isInteger\<close> and comparisons with 0. A finite number is an exact rational:
  rounding to 53 bits is not modelled. The conversion follows the language's grammar of
  numeric strings: surrounding white space is dropped, the empty string is 0, then an
  optional sign with a decimal literal or \<open>Infinity\<close>, or an unsigned hexadecimal, octal
  or binary literal; anything else is NaN.
\<close>

section \<open>Numbers\<close>

datatype jsnum = Fin rat | PosInf | NegInf | NaN

fun isFinite :: "jsnum \<Rightarrow> bool" where
  "isFinite (Fin q) = True"
| "isFinite _ = False"

text \<open>\<open>x > 0\<close> and \<open>x >= 0\<close>; every comparison with NaN is false.\<close>

fun js_pos :: "jsnum \<Rightarrow> bool" where
  "js_pos (Fin q) = (0 < q)"
| "js_pos PosInf = True"
| "js_pos _ = False"

fun js_nonneg :: "jsnum \<Rightarrow> bool" where
  "js_nonneg (Fin q) = (0 \<le> q)"
| "js_nonneg PosInf = True"
| "js_nonneg _ = False"

text \<open>\<open>x <= 0\<close>, which is not the negation of \<open>x > 0\<close>: both are false on NaN.\<close>

fun js_le0 :: "jsnum \<Rightarrow> bool" where
  "js_le0 (Fin q) = (q \<le> 0)"
| "js_le0 NegInf = True"
| "js_le0 _ = False"

fun isInteger :: "jsnum \<Rightarrow> bool" where
  "isInteger (Fin q) = (of_int \<lfloor>q\<rfloor> = q)"
| "isInteger _ = False"

fun js_floor :: "jsnum \<Rightarrow> int" where
  "js_floor (Fin q) = \<lfloor>q\<rfloor>"
| "js_floor _ = 0"

lemma isInteger_floor: "isInteger x \<Longrightarrow> x = Fin (of_int (js_floor x))"
  by (cases x) auto

lemma isInteger_finite: "isInteger x \<Longrightarrow> isFinite x"
  by (cases x) auto

lemma finite_pos: "isFinite x \<Longrightarrow> \<not> js_le0 x \<Longrightarrow> js_pos x"
  by (cases x) auto

section \<open>Number of a string\<close>

definition is_digit :: "char \<Rightarrow> bool" where
  "is_digit c = (48 \<le> (of_char c :: nat) \<and> (of_char c :: nat) \<le> 57)"

text \<open>The value of a character as a digit in the given base, if it is one.\<close>

definition digit_val :: "nat \<Rightarrow> char \<Rightarrow> nat option" where
  "digit_val base c =
     (let n = of_char c :: nat;
          d = (if 48 \<le> n \<and> n \<le> 57 then n - 48
               else if 97 \<le> n \<and> n \<le> 122 then n - 87
               else if 65 \<le> n \<and> n \<le> 90 then n - 55
               else base)
      in if d < base then Some d else None)"

fun digits_val :: "nat \<Rightarrow> nat \<Rightarrow> string \<Rightarrow> nat option" where
  "digits_val base acc [] = Some acc"
| "digits_val base acc (c # cs) =
     (case digit_val base c of None \<Rightarrow> None | Some d \<Rightarrow> digits_val base (base * acc + d) cs)"

definition nonempty_digits :: "nat \<Rightarrow> string \<Rightarrow> nat option" where
  "nonempty_digits base s = (if s = [] then None else digits_val base 0 s)"

definition is_space :: "char \<Rightarrow> bool" where
  "is_space c = ((of_char c :: nat) \<in> {9, 10, 11, 12, 13, 32})"

definition js_trim :: "string \<Rightarrow> string" where
  "js_trim s = rev (dropWhile is_space (rev (dropWhile is_space s)))"

text \<open>The exponent part: empty, or \<open>e\<close>, an optional sign and at least one digit.\<close>

definition exponent :: "string \<Rightarrow> int option" where
  "exponent s =
     (case s of
        [] \<Rightarrow> Some 0
      | c # r \<Rightarrow>
          if c \<noteq> CHR ''e'' \<and> c \<noteq> CHR ''E'' then None
          else (case r of
                  [] \<Rightarrow> None
                | d # r' \<Rightarrow>
                    if d = CHR ''-'' then map_option (\<lambda>n. - int n) (nonempty_digits 10 r')
                    else if d = CHR ''+'' then map_option int (nonempty_digits 10 r')
                    else map_option int (nonempty_digits 10 r)))"

text \<open>An unsigned decimal literal: digits with an optional point, then an exponent.\<close>

definition unsigned_decimal :: "string \<Rightarrow> rat option" where
  "unsigned_decimal s =
     (let ip = takeWhile is_digit s;
          r1 = dropWhile is_digit s;
          dotted = (case r1 of [] \<Rightarrow> False | c # _ \<Rightarrow> c = CHR ''.'');
          fp = (if dotted then takeWhile is_digit (tl r1) else []);
          r2 = (if dotted then dropWhile is_digit (tl r1) else r1)
      in if ip = [] \<and> fp = [] then None
         else (case (digits_val 10 0 (ip @ fp), exponent r2) of
                 (Some m, Some e) \<Rightarrow>
                   Some (of_nat m / 10 ^ length fp *
                     (if 0 \<le> e then 10 ^ nat e else 1 / 10 ^ nat (- e)))
               | _ \<Rightarrow> None))"

definition unsigned_number :: "string \<Rightarrow> jsnum" where
  "unsigned_number s =
     (if s = ''Infinity'' then PosInf
      else case unsigned_decimal s of None \<Rightarrow> NaN | Some q \<Rightarrow> Fin q)"

fun js_neg :: "jsnum \<Rightarrow> jsnum" where
  "js_neg (Fin q) = Fin (- q)"
| "js_neg PosInf = NegInf"
| "js_neg NegInf = PosInf"
| "js_neg NaN = NaN"

definition radix_number :: "nat \<Rightarrow> string \<Rightarrow> jsnum" where
  "radix_number base s =
     (case nonempty_digits base s of None \<Rightarrow> NaN | Some n \<Rightarrow> Fin (of_nat n))"

definition js_Number :: "string \<Rightarrow> jsnum" where
  "js_Number str =
     (case js_trim str of
        [] \<Rightarrow> Fin 0
      | c # r \<Rightarrow>
          if c = CHR ''-'' then js_neg (unsigned_number r)
          else if c = CHR ''+'' then unsigned_number r
          else if c = CHR ''0'' \<and> r \<noteq> [] \<and> hd r \<in> set ''xX'' then radix_number 16 (tl r)
          else if c = CHR ''0'' \<and> r \<noteq> [] \<and> hd r \<in> set ''oO'' then radix_number 8 (tl r)
          else if c = CHR ''0'' \<and> r \<noteq> [] \<and> hd r \<in> set ''bB'' then radix_number 2 (tl r)
          else unsigned_number (c # r))"

text \<open>\<open>Number(v)\<close> for a value that may be undefined.\<close>

definition js_Number_opt :: "string option \<Rightarrow> jsnum" where
  "js_Number_opt v = (case v of None \<Rightarrow> NaN | Some s \<Rightarrow> js_Number s)"

lemma js_Number_opt_simps [simp]:
  "js_Number_opt None = NaN"
  "js_Number_opt (Some s) = js_Number s"
  by (simp_all add: js_Number_opt_def)

text \<open>The definitions that evaluate \<open>Number\<close> on a literal.\<close>

lemmas js_Number_eval =
  js_Number_def js_trim_def is_space_def unsigned_number_def unsigned_decimal_def
  exponent_def is_digit_def digit_val_def radix_number_def nonempty_digits_def Let_def

lemma js_Number_empty: "js_Number [] = Fin 0"
  by (simp add: js_Number_def js_trim_def)

end
