(* ===== verification/Backoff.thy ===== *)
theory Backoff
  imports Prelude
begin

text \<open>
  Capped exponential backoff, which the payments client and the orders worker both compute:
  the contract \<open>capped_backoff\<close> and what follows from it. \<open>delay n\<close> is the delay after
  \<open>n\<close> earlier delays. The type is any ordered ring: the client computes with rationals, the
  worker with integers.
\<close>

locale capped_backoff =
  fixes base cap :: "'n::linordered_idom" and delay :: "nat \<Rightarrow> 'n"
  assumes base_pos: "0 < base" and cap_pos: "0 < cap"
    and delay_eq: "delay n = min (base * 2 ^ n) cap"
begin

lemma delay_pos: "0 < delay n"
  by (simp add: delay_eq base_pos cap_pos)

lemma delay_le_cap: "delay n \<le> cap"
  by (simp add: delay_eq)

lemma delay_first: "base \<le> cap \<Longrightarrow> delay 0 = base"
  by (simp add: delay_eq)

lemma delay_Suc: "delay (Suc n) = min (2 * delay n) cap"
proof (cases "base * 2 ^ n \<le> cap")
  case True
  then show ?thesis by (simp add: delay_eq min_def mult.left_commute)
next
  case False
  then have "cap \<le> base * 2 ^ n" by simp
  also have "\<dots> \<le> base * 2 ^ Suc n"
    using base_pos by simp
  finally have "cap \<le> base * 2 ^ Suc n" .
  moreover from False have "min (base * 2 ^ n) cap = cap" by simp
  ultimately show ?thesis
    using cap_pos by (simp add: delay_eq min_absorb2)
qed

lemma delay_step: "delay n \<le> delay (Suc n)"
  using delay_pos [of n] delay_le_cap [of n] by (simp add: delay_Suc)

lemma delay_mono: "m \<le> n \<Longrightarrow> delay m \<le> delay n"
  by (rule lift_Suc_mono_le [of delay]) (rule delay_step)

lemma delay_saturates:
  assumes "cap \<le> base * 2 ^ m" and "m \<le> n"
  shows "delay n = cap"
proof -
  from assms(1) have "delay m = cap" by (simp add: delay_eq)
  with delay_mono [OF assms(2)] delay_le_cap [of n] show ?thesis by simp
qed

end

end
