(* ===== verification/Payments.thy ===== *)
theory Payments
  imports Prelude
begin

text \<open>
  The payments service (\<^verbatim>\<open>src/payments-service/payments.service.ts\<close>): five in-memory
  collections and the operations authorize, capture, refund, getStatus and
  shouldFailTransient. A fresh identifier (\<open>randomUUID\<close>) is an argument of the operation
  that draws it. The contract of an operation with an idempotency key is the locale
  \<open>keyed_operation\<close>; all three mutating operations are interpretations of it. The
  abstract specification is a ledger from payments to statuses, which capture and refund
  refine, and the status order of the \<^verbatim>\<open>.proto\<close> enumeration, along which a payment
  only ever moves up.
\<close>

section \<open>Data\<close>

datatype payment_status =
    PAYMENT_STATUS_UNSPECIFIED
  | PAYMENT_STATUS_AUTHORIZED
  | PAYMENT_STATUS_CAPTURED
  | PAYMENT_STATUS_REFUNDED
  | PAYMENT_STATUS_FAILED

text \<open>The numbers the enumeration has in \<^verbatim>\<open>proto/payments.proto\<close>.\<close>

fun proto_number :: "payment_status \<Rightarrow> nat" where
  "proto_number PAYMENT_STATUS_UNSPECIFIED = 0"
| "proto_number PAYMENT_STATUS_AUTHORIZED = 1"
| "proto_number PAYMENT_STATUS_CAPTURED = 2"
| "proto_number PAYMENT_STATUS_REFUNDED = 3"
| "proto_number PAYMENT_STATUS_FAILED = 4"

lemma proto_number_inject [simp]: "proto_number a = proto_number b \<longleftrightarrow> a = b"
  by (cases a; cases b) simp_all

instantiation payment_status :: linorder
begin

definition less_eq_payment_status :: "payment_status \<Rightarrow> payment_status \<Rightarrow> bool" where
  "less_eq_payment_status a b = (proto_number a \<le> proto_number b)"

definition less_payment_status :: "payment_status \<Rightarrow> payment_status \<Rightarrow> bool" where
  "less_payment_status a b = (proto_number a < proto_number b)"

instance
  by standard (auto simp: less_eq_payment_status_def less_payment_status_def)

end

record payment_record =
  pr_paymentId :: string
  pr_orderId :: string
  pr_status :: payment_status
  pr_amount :: string
  pr_currency :: string

record authorize_input =
  ai_orderId :: string
  ai_amount :: string
  ai_currency :: string
  ai_idempotencyKey :: "string option"

record authorize_result =
  ar_paymentId :: string
  ar_status :: payment_status

record operation_input =
  op_paymentId :: string
  op_idempotencyKey :: "string option"

datatype operation_error_code = OpNotFound | OpFailedPrecondition

datatype operation_outcome =
    OutcomeOk bool string
  | OutcomeError operation_error_code string

record payments_state =
  paymentsById :: "string \<rightharpoonup> payment_record"
  authorizeIdempotencyResults :: "string \<rightharpoonup> authorize_result"
  captureIdempotencyResults :: "string \<rightharpoonup> operation_outcome"
  refundIdempotencyResults :: "string \<rightharpoonup> operation_outcome"
  transientFailOnceGate :: "string set"

definition payments_init :: payments_state where
  "payments_init =
     \<lparr>paymentsById = Map.empty, authorizeIdempotencyResults = Map.empty,
      captureIdempotencyResults = Map.empty, refundIdempotencyResults = Map.empty,
      transientFailOnceGate = {}\<rparr>"

section \<open>Operations\<close>

text \<open>\<open>key && results.has(key)\<close>, with the result found.\<close>

definition cached_result :: "(string \<rightharpoonup> 'r) \<Rightarrow> string option \<Rightarrow> 'r option" where
  "cached_result results key =
     (case key of None \<Rightarrow> None | Some k \<Rightarrow> if k = [] then None else results k)"

definition authorize ::
  "string \<Rightarrow> authorize_input \<Rightarrow> payments_state \<Rightarrow> authorize_result \<times> payments_state" where
  "authorize uuid inp s =
     (case cached_result (authorizeIdempotencyResults s) (ai_idempotencyKey inp) of
        Some r \<Rightarrow> (r, s)
      | None \<Rightarrow>
          (let result = \<lparr>ar_paymentId = uuid, ar_status = PAYMENT_STATUS_AUTHORIZED\<rparr>;
               s1 = s\<lparr>paymentsById := (paymentsById s)(uuid \<mapsto>
                       \<lparr>pr_paymentId = uuid, pr_orderId = ai_orderId inp,
                        pr_status = ar_status result, pr_amount = ai_amount inp,
                        pr_currency = ai_currency inp\<rparr>)\<rparr>;
               s2 = (if truthy (ai_idempotencyKey inp)
                     then s1\<lparr>authorizeIdempotencyResults :=
                               (authorizeIdempotencyResults s1)
                                 (the (ai_idempotencyKey inp) \<mapsto> result)\<rparr>
                     else s1)
           in (result, s2)))"

text \<open>\<open>persistOperationOutcome(storage, key, outcome)\<close>: the new storage.\<close>

definition persistOperationOutcome ::
  "(string \<rightharpoonup> operation_outcome) \<Rightarrow> string option \<Rightarrow> operation_outcome \<Rightarrow>
   (string \<rightharpoonup> operation_outcome)" where
  "persistOperationOutcome storage key outcome =
     (if truthy key then storage(the key \<mapsto> outcome) else storage)"

text \<open>Capture: its outcome, and the payment's new status where it changes.\<close>

definition set_status :: "string \<Rightarrow> payment_status \<Rightarrow> payments_state \<Rightarrow> payments_state" where
  "set_status pid st s =
     (case paymentsById s pid of
        None \<Rightarrow> s
      | Some p \<Rightarrow> s\<lparr>paymentsById := (paymentsById s)(pid \<mapsto> p\<lparr>pr_status := st\<rparr>)\<rparr>)"

definition persist_capture ::
  "string option \<Rightarrow> operation_outcome \<Rightarrow> payments_state \<Rightarrow> operation_outcome \<times> payments_state" where
  "persist_capture key outcome s =
     (outcome, s\<lparr>captureIdempotencyResults :=
        persistOperationOutcome (captureIdempotencyResults s) key outcome\<rparr>)"

definition persist_refund ::
  "string option \<Rightarrow> operation_outcome \<Rightarrow> payments_state \<Rightarrow> operation_outcome \<times> payments_state" where
  "persist_refund key outcome s =
     (outcome, s\<lparr>refundIdempotencyResults :=
        persistOperationOutcome (refundIdempotencyResults s) key outcome\<rparr>)"

definition capture ::
  "operation_input \<Rightarrow> payments_state \<Rightarrow> operation_outcome \<times> payments_state" where
  "capture inp s =
     (let key = op_idempotencyKey inp in
      case cached_result (captureIdempotencyResults s) key of
        Some r \<Rightarrow> (r, s)
      | None \<Rightarrow>
         (case paymentsById s (op_paymentId inp) of
            None \<Rightarrow> persist_capture key (OutcomeError OpNotFound ''payment not found'') s
          | Some payment \<Rightarrow>
              if pr_status payment = PAYMENT_STATUS_REFUNDED then
                persist_capture key
                  (OutcomeError OpFailedPrecondition ''cannot capture refunded payment'') s
              else if pr_status payment = PAYMENT_STATUS_CAPTURED then
                persist_capture key (OutcomeOk True ''payment already captured'') s
              else if pr_status payment \<noteq> PAYMENT_STATUS_AUTHORIZED then
                persist_capture key
                  (OutcomeError OpFailedPrecondition
                    ''payment must be authorized before capture'') s
              else
                persist_capture key (OutcomeOk True ''payment captured'')
                  (set_status (op_paymentId inp) PAYMENT_STATUS_CAPTURED s)))"

definition refund ::
  "operation_input \<Rightarrow> payments_state \<Rightarrow> operation_outcome \<times> payments_state" where
  "refund inp s =
     (let key = op_idempotencyKey inp in
      case cached_result (refundIdempotencyResults s) key of
        Some r \<Rightarrow> (r, s)
      | None \<Rightarrow>
         (case paymentsById s (op_paymentId inp) of
            None \<Rightarrow> persist_refund key (OutcomeError OpNotFound ''payment not found'') s
          | Some payment \<Rightarrow>
              if pr_status payment = PAYMENT_STATUS_REFUNDED then
                persist_refund key (OutcomeOk True ''payment already refunded'') s
              else if pr_status payment \<noteq> PAYMENT_STATUS_AUTHORIZED \<and>
                      pr_status payment \<noteq> PAYMENT_STATUS_CAPTURED then
                persist_refund key
                  (OutcomeError OpFailedPrecondition
                    ''payment must be authorized or captured before refund'') s
              else
                persist_refund key (OutcomeOk True ''payment refunded'')
                  (set_status (op_paymentId inp) PAYMENT_STATUS_REFUNDED s)))"

definition getStatus :: "string \<Rightarrow> payments_state \<Rightarrow> (string \<times> payment_status) option" where
  "getStatus paymentId s =
     (case paymentsById s paymentId of
        None \<Rightarrow> None
      | Some payment \<Rightarrow> Some (pr_paymentId payment, pr_status payment))"

definition shouldFailTransient ::
  "string \<Rightarrow> bool option \<Rightarrow> payments_state \<Rightarrow> bool \<times> payments_state" where
  "shouldFailTransient orderId simulate s =
     (if simulate \<noteq> Some True then (False, s)
      else if orderId \<in> transientFailOnceGate s then (False, s)
      else (True, s\<lparr>transientFailOnceGate := insert orderId (transientFailOnceGate s)\<rparr>))"

section \<open>Steps and reachable states\<close>

text \<open>
  One call of the service by anybody. \<open>randomUUID\<close> draws an identifier that no stored
  payment has.
\<close>

inductive payments_next :: "payments_state \<Rightarrow> payments_state \<Rightarrow> bool" where
  next_authorize:
    "paymentsById s uuid = None \<Longrightarrow> payments_next s (snd (authorize uuid inp s))"
| next_capture: "payments_next s (snd (capture cinp s))"
| next_refund: "payments_next s (snd (refund cinp s))"
| next_shouldFail: "payments_next s (snd (shouldFailTransient oid sim s))"

inductive payments_reachable :: "payments_state \<Rightarrow> bool" where
  reach_init: "payments_reachable payments_init"
| reach_next: "payments_reachable s \<Longrightarrow> payments_next s t \<Longrightarrow> payments_reachable t"

section \<open>Evaluation lemmas\<close>

lemma cached_result_simps [simp]:
  "cached_result m None = None"
  "cached_result m (Some []) = None"
  "k \<noteq> [] \<Longrightarrow> cached_result m (Some k) = m k"
  by (simp_all add: cached_result_def)

lemma cached_result_Some: "cached_result m key = Some r \<longleftrightarrow> (\<exists>k. key = Some k \<and> k \<noteq> [] \<and> m k = Some r)"
  by (auto simp: cached_result_def split: option.splits)

lemma cached_result_None: "cached_result m key = None \<longleftrightarrow> \<not> truthy key \<or> m (the key) = None"
  by (auto simp: cached_result_def split: option.splits)

lemma persist_simps [simp]:
  "persistOperationOutcome m (Some k) r = (if k = [] then m else m(k \<mapsto> r))"
  "persistOperationOutcome m None r = m"
  by (simp_all add: persistOperationOutcome_def)

lemma persist_capture_simps [simp]:
  "fst (persist_capture key r s) = r"
  "paymentsById (snd (persist_capture key r s)) = paymentsById s"
  "authorizeIdempotencyResults (snd (persist_capture key r s)) = authorizeIdempotencyResults s"
  "refundIdempotencyResults (snd (persist_capture key r s)) = refundIdempotencyResults s"
  "transientFailOnceGate (snd (persist_capture key r s)) = transientFailOnceGate s"
  "captureIdempotencyResults (snd (persist_capture key r s)) =
     persistOperationOutcome (captureIdempotencyResults s) key r"
  by (simp_all add: persist_capture_def)

lemma persist_refund_simps [simp]:
  "fst (persist_refund key r s) = r"
  "paymentsById (snd (persist_refund key r s)) = paymentsById s"
  "authorizeIdempotencyResults (snd (persist_refund key r s)) = authorizeIdempotencyResults s"
  "captureIdempotencyResults (snd (persist_refund key r s)) = captureIdempotencyResults s"
  "transientFailOnceGate (snd (persist_refund key r s)) = transientFailOnceGate s"
  "refundIdempotencyResults (snd (persist_refund key r s)) =
     persistOperationOutcome (refundIdempotencyResults s) key r"
  by (simp_all add: persist_refund_def)

lemma set_status_simps [simp]:
  "authorizeIdempotencyResults (set_status pid st s) = authorizeIdempotencyResults s"
  "captureIdempotencyResults (set_status pid st s) = captureIdempotencyResults s"
  "refundIdempotencyResults (set_status pid st s) = refundIdempotencyResults s"
  "transientFailOnceGate (set_status pid st s) = transientFailOnceGate s"
  "paymentsById (set_status pid st s) =
     (case paymentsById s pid of None \<Rightarrow> paymentsById s
      | Some p \<Rightarrow> (paymentsById s)(pid \<mapsto> p\<lparr>pr_status := st\<rparr>))"
  by (simp_all add: set_status_def split: option.splits)

text \<open>What each operation leaves alone.\<close>

lemma authorize_frame [simp]:
  "captureIdempotencyResults (snd (authorize u inp s)) = captureIdempotencyResults s"
  "refundIdempotencyResults (snd (authorize u inp s)) = refundIdempotencyResults s"
  "transientFailOnceGate (snd (authorize u inp s)) = transientFailOnceGate s"
  by (simp_all add: authorize_def Let_def split: option.splits)

lemma capture_frame [simp]:
  "authorizeIdempotencyResults (snd (capture inp s)) = authorizeIdempotencyResults s"
  "refundIdempotencyResults (snd (capture inp s)) = refundIdempotencyResults s"
  "transientFailOnceGate (snd (capture inp s)) = transientFailOnceGate s"
  by (simp_all add: capture_def Let_def split: option.splits)

lemma refund_frame [simp]:
  "authorizeIdempotencyResults (snd (refund inp s)) = authorizeIdempotencyResults s"
  "captureIdempotencyResults (snd (refund inp s)) = captureIdempotencyResults s"
  "transientFailOnceGate (snd (refund inp s)) = transientFailOnceGate s"
  by (simp_all add: refund_def Let_def split: option.splits)

lemma shouldFail_frame [simp]:
  "paymentsById (snd (shouldFailTransient oid sim s)) = paymentsById s"
  "authorizeIdempotencyResults (snd (shouldFailTransient oid sim s)) = authorizeIdempotencyResults s"
  "captureIdempotencyResults (snd (shouldFailTransient oid sim s)) = captureIdempotencyResults s"
  "refundIdempotencyResults (snd (shouldFailTransient oid sim s)) = refundIdempotencyResults s"
  by (simp_all add: shouldFailTransient_def)

section \<open>The contract of an operation with an idempotency key\<close>

text \<open>
  \<open>cached s k\<close> is the answer recorded under key \<open>k\<close>; \<open>run (Some k) a s\<close> performs the
  operation with key \<open>k\<close> and further inputs \<open>a\<close>; \<open>env\<close> are the steps anybody else may
  take in between. A recorded answer is replayed with no effect, an answer is recorded, and
  no step forgets one.
\<close>

locale keyed_operation =
  fixes cached :: "'s \<Rightarrow> string \<rightharpoonup> 'r"
    and run :: "string option \<Rightarrow> 'a \<Rightarrow> 's \<Rightarrow> 'r \<times> 's"
    and env :: "'s \<Rightarrow> 's \<Rightarrow> bool"
  assumes replay: "k \<noteq> [] \<Longrightarrow> cached s k = Some r \<Longrightarrow> run (Some k) a s = (r, s)"
    and records: "k \<noteq> [] \<Longrightarrow> cached (snd (run (Some k) a s)) k = Some (fst (run (Some k) a s))"
    and stable: "env s t \<Longrightarrow> cached s k = Some r \<Longrightarrow> cached t k = Some r"
begin

lemma stable_steps: "env\<^sup>*\<^sup>* s t \<Longrightarrow> cached s k = Some r \<Longrightarrow> cached t k = Some r"
  by (induction rule: rtranclp_induct) (auto dest: stable)

lemma replay_later:
  assumes "k \<noteq> []" and "run (Some k) a s = (r, s1)" and "env\<^sup>*\<^sup>* s1 s2"
  shows "run (Some k) b s2 = (r, s2)"
proof -
  from assms(1) have "cached (snd (run (Some k) a s)) k = Some (fst (run (Some k) a s))"
    by (rule records)
  with assms(2) have "cached s1 k = Some r"
    by simp
  with assms(3) have "cached s2 k = Some r"
    by (rule stable_steps)
  with assms(1) show ?thesis
    by (rule replay)
qed

lemma run_idempotent:
  assumes "k \<noteq> []"
  shows "run (Some k) b (snd (run (Some k) a s)) = run (Some k) a s"
  using replay_later [OF assms, of a s "fst (run (Some k) a s)" "snd (run (Some k) a s)"]
  by simp

end

lemma authorize_keeps:
  "authorizeIdempotencyResults s k = Some r \<Longrightarrow>
   authorizeIdempotencyResults (snd (authorize u inp s)) k = Some r"
  by (auto simp: authorize_def Let_def cached_result_None elim!: truthyE split: option.splits)

lemma capture_keeps:
  "captureIdempotencyResults s k = Some r \<Longrightarrow>
   captureIdempotencyResults (snd (capture inp s)) k = Some r"
  by (auto simp: capture_def Let_def cached_result_None persistOperationOutcome_def
      elim!: truthyE split: option.splits)

lemma refund_keeps:
  "refundIdempotencyResults s k = Some r \<Longrightarrow>
   refundIdempotencyResults (snd (refund inp s)) k = Some r"
  by (auto simp: refund_def Let_def cached_result_None persistOperationOutcome_def
      elim!: truthyE split: option.splits)

text \<open>The three operations with the key as an argument of its own.\<close>

abbreviation authorize_keyed ::
  "string option \<Rightarrow> string \<times> authorize_input \<Rightarrow> payments_state \<Rightarrow> authorize_result \<times> payments_state" where
  "authorize_keyed k a \<equiv> authorize (fst a) ((snd a)\<lparr>ai_idempotencyKey := k\<rparr>)"

abbreviation capture_keyed ::
  "string option \<Rightarrow> string \<Rightarrow> payments_state \<Rightarrow> operation_outcome \<times> payments_state" where
  "capture_keyed k pid \<equiv> capture \<lparr>op_paymentId = pid, op_idempotencyKey = k\<rparr>"

abbreviation refund_keyed ::
  "string option \<Rightarrow> string \<Rightarrow> payments_state \<Rightarrow> operation_outcome \<times> payments_state" where
  "refund_keyed k pid \<equiv> refund \<lparr>op_paymentId = pid, op_idempotencyKey = k\<rparr>"

interpretation auth_op: keyed_operation authorizeIdempotencyResults authorize_keyed payments_next
proof unfold_locales
  fix k :: string and r a and s :: payments_state
  assume "k \<noteq> []" "authorizeIdempotencyResults s k = Some r"
  then show "authorize_keyed (Some k) a s = (r, s)"
    by (simp add: authorize_def)
next
  fix k :: string and a and s :: payments_state
  assume "k \<noteq> []"
  then show "authorizeIdempotencyResults (snd (authorize_keyed (Some k) a s)) k =
      Some (fst (authorize_keyed (Some k) a s))"
    by (simp add: authorize_def Let_def split: option.splits)
next
  fix s t :: payments_state and k :: string and r
  assume "payments_next s t" "authorizeIdempotencyResults s k = Some r"
  then show "authorizeIdempotencyResults t k = Some r"
    by (cases rule: payments_next.cases) (simp_all add: authorize_keeps)
qed

interpretation capture_op: keyed_operation captureIdempotencyResults capture_keyed payments_next
proof unfold_locales
  fix k :: string and r pid and s :: payments_state
  assume "k \<noteq> []" "captureIdempotencyResults s k = Some r"
  then show "capture_keyed (Some k) pid s = (r, s)"
    by (simp add: capture_def)
next
  fix k :: string and pid and s :: payments_state
  assume "k \<noteq> []"
  then show "captureIdempotencyResults (snd (capture_keyed (Some k) pid s)) k =
      Some (fst (capture_keyed (Some k) pid s))"
    by (simp add: capture_def Let_def split: option.splits)
next
  fix s t :: payments_state and k :: string and r
  assume "payments_next s t" "captureIdempotencyResults s k = Some r"
  then show "captureIdempotencyResults t k = Some r"
    by (cases rule: payments_next.cases) (simp_all add: capture_keeps)
qed

interpretation refund_op: keyed_operation refundIdempotencyResults refund_keyed payments_next
proof unfold_locales
  fix k :: string and r pid and s :: payments_state
  assume "k \<noteq> []" "refundIdempotencyResults s k = Some r"
  then show "refund_keyed (Some k) pid s = (r, s)"
    by (simp add: refund_def)
next
  fix k :: string and pid and s :: payments_state
  assume "k \<noteq> []"
  then show "refundIdempotencyResults (snd (refund_keyed (Some k) pid s)) k =
      Some (fst (refund_keyed (Some k) pid s))"
    by (simp add: refund_def Let_def split: option.splits)
next
  fix s t :: payments_state and k :: string and r
  assume "payments_next s t" "refundIdempotencyResults s k = Some r"
  then show "refundIdempotencyResults t k = Some r"
    by (cases rule: payments_next.cases) (simp_all add: refund_keeps)
qed

section \<open>The abstract ledger\<close>

text \<open>
  What the service promises of a payment: a status, moved by capture and refund, and the
  answer each gives. The service's state is abstracted to the map from identifiers to
  statuses.
\<close>

definition ledger :: "payments_state \<Rightarrow> (string \<rightharpoonup> payment_status)" where
  "ledger s = (\<lambda>pid. map_option pr_status (paymentsById s pid))"

fun captured_status :: "payment_status \<Rightarrow> payment_status" where
  "captured_status PAYMENT_STATUS_AUTHORIZED = PAYMENT_STATUS_CAPTURED"
| "captured_status st = st"

fun refunded_status :: "payment_status \<Rightarrow> payment_status" where
  "refunded_status PAYMENT_STATUS_AUTHORIZED = PAYMENT_STATUS_REFUNDED"
| "refunded_status PAYMENT_STATUS_CAPTURED = PAYMENT_STATUS_REFUNDED"
| "refunded_status st = st"

definition ledger_move ::
  "(payment_status \<Rightarrow> payment_status) \<Rightarrow> string \<Rightarrow> (string \<rightharpoonup> payment_status) \<Rightarrow>
   (string \<rightharpoonup> payment_status)" where
  "ledger_move f pid L = L(pid := map_option f (L pid))"

fun capture_answer :: "payment_status option \<Rightarrow> operation_outcome" where
  "capture_answer None = OutcomeError OpNotFound ''payment not found''"
| "capture_answer (Some PAYMENT_STATUS_REFUNDED) =
     OutcomeError OpFailedPrecondition ''cannot capture refunded payment''"
| "capture_answer (Some PAYMENT_STATUS_CAPTURED) = OutcomeOk True ''payment already captured''"
| "capture_answer (Some PAYMENT_STATUS_AUTHORIZED) = OutcomeOk True ''payment captured''"
| "capture_answer (Some _) =
     OutcomeError OpFailedPrecondition ''payment must be authorized before capture''"

fun refund_answer :: "payment_status option \<Rightarrow> operation_outcome" where
  "refund_answer None = OutcomeError OpNotFound ''payment not found''"
| "refund_answer (Some PAYMENT_STATUS_REFUNDED) = OutcomeOk True ''payment already refunded''"
| "refund_answer (Some PAYMENT_STATUS_AUTHORIZED) = OutcomeOk True ''payment refunded''"
| "refund_answer (Some PAYMENT_STATUS_CAPTURED) = OutcomeOk True ''payment refunded''"
| "refund_answer (Some _) =
     OutcomeError OpFailedPrecondition ''payment must be authorized or captured before refund''"

lemma ledger_move_id: "L pid = None \<or> (\<exists>st. L pid = Some st \<and> f st = st) \<Longrightarrow> ledger_move f pid L = L"
  by (auto simp: ledger_move_def)

lemma ledger_frame: "paymentsById t = paymentsById s \<Longrightarrow> ledger t = ledger s"
  by (simp add: ledger_def)

lemma ledger_set_status:
  assumes "paymentsById s pid = Some p"
  shows "ledger (set_status pid st s) = (ledger s)(pid \<mapsto> st)"
  using assms by (auto simp: ledger_def)

lemma ledger_persist [simp]:
  "ledger (snd (persist_capture key r s)) = ledger s"
  "ledger (snd (persist_refund key r s)) = ledger s"
  by (simp_all add: ledger_def)

lemma ledger_at: "paymentsById s pid = v \<Longrightarrow> ledger s pid = map_option pr_status v"
  by (simp add: ledger_def)

lemma capture_ledger:
  assumes "cached_result (captureIdempotencyResults s) (op_idempotencyKey inp) = None"
  shows "fst (capture inp s) = capture_answer (ledger s (op_paymentId inp))"
    and "ledger (snd (capture inp s)) = ledger_move captured_status (op_paymentId inp) (ledger s)"
proof -
  let ?pid = "op_paymentId inp"
  have "fst (capture inp s) = capture_answer (ledger s ?pid) \<and>
    ledger (snd (capture inp s)) = ledger_move captured_status ?pid (ledger s)"
  proof (cases "paymentsById s ?pid")
    case None
    then show ?thesis
      using assms by (simp add: capture_def ledger_at ledger_move_id)
  next
    case (Some p)
    then show ?thesis
      using assms
      by (cases "pr_status p")
        (simp_all add: capture_def ledger_at ledger_move_id ledger_set_status,
         simp add: ledger_move_def ledger_at)
  qed
  then show "fst (capture inp s) = capture_answer (ledger s ?pid)"
    and "ledger (snd (capture inp s)) = ledger_move captured_status ?pid (ledger s)"
    by simp_all
qed

lemma refund_ledger:
  assumes "cached_result (refundIdempotencyResults s) (op_idempotencyKey inp) = None"
  shows "fst (refund inp s) = refund_answer (ledger s (op_paymentId inp))"
    and "ledger (snd (refund inp s)) = ledger_move refunded_status (op_paymentId inp) (ledger s)"
proof -
  let ?pid = "op_paymentId inp"
  have "fst (refund inp s) = refund_answer (ledger s ?pid) \<and>
    ledger (snd (refund inp s)) = ledger_move refunded_status ?pid (ledger s)"
  proof (cases "paymentsById s ?pid")
    case None
    then show ?thesis
      using assms by (simp add: refund_def ledger_at ledger_move_id)
  next
    case (Some p)
    then show ?thesis
      using assms
      by (cases "pr_status p")
        (simp_all add: refund_def ledger_at ledger_move_id ledger_set_status,
         simp_all add: ledger_move_def ledger_at)
  qed
  then show "fst (refund inp s) = refund_answer (ledger s ?pid)"
    and "ledger (snd (refund inp s)) = ledger_move refunded_status ?pid (ledger s)"
    by simp_all
qed

section \<open>Invariant and progress\<close>

text \<open>
  Every stored payment is filed under its own identifier with one of the three statuses the
  service assigns; every recorded authorization points to a stored payment; no answer is
  recorded under the empty key.
\<close>

definition live_status :: "payment_status \<Rightarrow> bool" where
  "live_status st \<longleftrightarrow>
     st \<in> {PAYMENT_STATUS_AUTHORIZED, PAYMENT_STATUS_CAPTURED, PAYMENT_STATUS_REFUNDED}"

definition payments_inv :: "payments_state \<Rightarrow> bool" where
  "payments_inv s \<longleftrightarrow>
     (\<forall>pid p. paymentsById s pid = Some p \<longrightarrow> pr_paymentId p = pid \<and> live_status (pr_status p)) \<and>
     (\<forall>k r. authorizeIdempotencyResults s k = Some r \<longrightarrow>
        k \<noteq> [] \<and> ar_status r = PAYMENT_STATUS_AUTHORIZED \<and>
        paymentsById s (ar_paymentId r) \<noteq> None)"

lemma payments_inv_init: "payments_inv payments_init"
  by (simp add: payments_inv_def payments_init_def)

lemma authorize_inv:
  assumes "payments_inv s"
  shows "payments_inv (snd (authorize uuid inp s))"
  using assms
  by (auto simp: payments_inv_def authorize_def Let_def live_status_def elim!: truthyE
      split: option.splits)

lemma capture_payments:
  "paymentsById (snd (capture inp s)) = paymentsById s \<or>
   (\<exists>p. paymentsById s (op_paymentId inp) = Some p \<and> pr_status p = PAYMENT_STATUS_AUTHORIZED \<and>
     paymentsById (snd (capture inp s)) =
       (paymentsById s)(op_paymentId inp \<mapsto> p\<lparr>pr_status := PAYMENT_STATUS_CAPTURED\<rparr>))"
  by (simp add: capture_def Let_def split: option.splits)

lemma refund_payments:
  "paymentsById (snd (refund inp s)) = paymentsById s \<or>
   (\<exists>p. paymentsById s (op_paymentId inp) = Some p \<and>
     pr_status p \<in> {PAYMENT_STATUS_AUTHORIZED, PAYMENT_STATUS_CAPTURED} \<and>
     paymentsById (snd (refund inp s)) =
       (paymentsById s)(op_paymentId inp \<mapsto> p\<lparr>pr_status := PAYMENT_STATUS_REFUNDED\<rparr>))"
  by (auto simp: refund_def Let_def split: option.splits)

lemma update_inv:
  assumes "payments_inv s" and "paymentsById s pid = Some p" and "live_status st"
    and "paymentsById t = (paymentsById s)(pid \<mapsto> p\<lparr>pr_status := st\<rparr>)"
    and "authorizeIdempotencyResults t = authorizeIdempotencyResults s"
  shows "payments_inv t"
  using assms by (auto simp: payments_inv_def)

lemma capture_inv:
  assumes "payments_inv s"
  shows "payments_inv (snd (capture inp s))"
  using capture_payments [of inp s]
proof (elim disjE exE conjE)
  assume "paymentsById (snd (capture inp s)) = paymentsById s"
  with assms show ?thesis by (simp add: payments_inv_def)
next
  fix p
  assume "paymentsById s (op_paymentId inp) = Some p"
    "paymentsById (snd (capture inp s)) =
       (paymentsById s)(op_paymentId inp \<mapsto> p\<lparr>pr_status := PAYMENT_STATUS_CAPTURED\<rparr>)"
  from update_inv [OF assms this(1) _ this(2)] show ?thesis
    by (simp add: live_status_def)
qed

lemma refund_inv:
  assumes "payments_inv s"
  shows "payments_inv (snd (refund inp s))"
  using refund_payments [of inp s]
proof (elim disjE exE conjE)
  assume "paymentsById (snd (refund inp s)) = paymentsById s"
  with assms show ?thesis by (simp add: payments_inv_def)
next
  fix p
  assume "paymentsById s (op_paymentId inp) = Some p"
    "paymentsById (snd (refund inp s)) =
       (paymentsById s)(op_paymentId inp \<mapsto> p\<lparr>pr_status := PAYMENT_STATUS_REFUNDED\<rparr>)"
  from update_inv [OF assms this(1) _ this(2)] show ?thesis
    by (simp add: live_status_def)
qed

lemma payments_next_inv: "payments_next s t \<Longrightarrow> payments_inv s \<Longrightarrow> payments_inv t"
  by (induction rule: payments_next.induct)
    (auto simp: authorize_inv capture_inv refund_inv, auto simp: payments_inv_def)

lemma payments_reachable_inv: "payments_reachable s \<Longrightarrow> payments_inv s"
  by (induction rule: payments_reachable.induct) (auto simp: payments_inv_init payments_next_inv)

lemma ledger_live: "payments_inv s \<Longrightarrow> ledger s pid = Some st \<Longrightarrow> live_status st"
  by (auto simp: payments_inv_def ledger_def)

text \<open>
  A payment is never lost: its order, amount and currency stay, and its status moves up the
  enumeration or stays.
\<close>

definition payment_le :: "payment_record \<Rightarrow> payment_record \<Rightarrow> bool" where
  "payment_le p q \<longleftrightarrow>
     pr_paymentId q = pr_paymentId p \<and> pr_orderId q = pr_orderId p \<and>
     pr_amount q = pr_amount p \<and> pr_currency q = pr_currency p \<and> pr_status p \<le> pr_status q"

lemma payment_le_refl [simp]: "payment_le p p"
  by (simp add: payment_le_def)

lemma payment_le_trans: "payment_le p q \<Longrightarrow> payment_le q r \<Longrightarrow> payment_le p r"
  by (auto simp: payment_le_def intro: order_trans)

lemma payments_next_le:
  assumes "payments_next s t" and "paymentsById s pid = Some p"
  shows "\<exists>q. paymentsById t pid = Some q \<and> payment_le p q"
  using assms
proof (cases rule: payments_next.cases)
  case (next_authorize uuid inp)
  with assms(2) show ?thesis
    by (auto simp: authorize_def Let_def split: option.splits)
next
  case (next_capture cinp)
  with assms(2) capture_payments [of cinp s] show ?thesis
    by (auto simp: payment_le_def less_eq_payment_status_def)
next
  case (next_refund cinp)
  with assms(2) refund_payments [of cinp s] show ?thesis
    by (auto simp: payment_le_def less_eq_payment_status_def)
next
  case (next_shouldFail oid sim)
  with assms(2) show ?thesis by simp
qed

lemma payments_steps_le:
  assumes "payments_next\<^sup>*\<^sup>* s t" and "paymentsById s pid = Some p"
  shows "\<exists>q. paymentsById t pid = Some q \<and> payment_le p q"
  using assms
  by (induction rule: rtranclp_induct) (auto dest: payments_next_le intro: payment_le_trans)

lemma gate_next: "payments_next s t \<Longrightarrow> oid \<in> transientFailOnceGate s \<Longrightarrow> oid \<in> transientFailOnceGate t"
  by (cases rule: payments_next.cases) (auto simp: shouldFailTransient_def)

lemma gate_steps:
  "payments_next\<^sup>*\<^sup>* s t \<Longrightarrow> oid \<in> transientFailOnceGate s \<Longrightarrow> oid \<in> transientFailOnceGate t"
  by (induction rule: rtranclp_induct) (auto dest: gate_next)

section \<open>Properties\<close>

text \<open>The inputs the witnesses run on.\<close>

definition demo_authorize :: "string option \<Rightarrow> authorize_input" where
  "demo_authorize key =
     \<lparr>ai_orderId = ''order-1'', ai_amount = ''120.00'', ai_currency = ''USD'',
      ai_idempotencyKey = key\<rparr>"

definition demo_captured :: payments_state where
  "demo_captured =
     snd (capture \<lparr>op_paymentId = ''p1'', op_idempotencyKey = Some ''c1''\<rparr>
       (snd (authorize ''p1'' (demo_authorize (Some ''a1'')) payments_init)))"

text \<open>
  Authorize is idempotent by key: after an authorization with a non-empty key, and
  whatever calls the service then serves, a second authorization with this key gives the
  first one's answer, whatever else it asks for, and changes nothing.
\<close>

theorem authorize_replays:
  assumes "ai_idempotencyKey inp = Some k" and "k \<noteq> []"
    and "authorize uuid inp s = (r, s1)"
    and "payments_next\<^sup>*\<^sup>* s1 s2"
    and "ai_idempotencyKey inp' = Some k"
  shows "authorize uuid' inp' s2 = (r, s2)"
proof -
  have "authorize_keyed (Some k) (uuid, inp) s = (r, s1)"
    using assms(1,3) by (cases inp) simp
  from auth_op.replay_later [OF assms(2) this assms(4), of "(uuid', inp')"] assms(5)
  show ?thesis by (cases inp') simp
qed

theorem authorize_replays_witness:
  "authorize ''p9'' (demo_authorize (Some ''a1'')) demo_captured =
     (\<lparr>ar_paymentId = ''p1'', ar_status = PAYMENT_STATUS_AUTHORIZED\<rparr>, demo_captured)"
proof (rule authorize_replays [of "demo_authorize (Some ''a1'')" "''a1''" "''p1''" payments_init])
  show "authorize ''p1'' (demo_authorize (Some ''a1'')) payments_init =
    (\<lparr>ar_paymentId = ''p1'', ar_status = PAYMENT_STATUS_AUTHORIZED\<rparr>,
     snd (authorize ''p1'' (demo_authorize (Some ''a1'')) payments_init))"
    by (simp add: authorize_def payments_init_def demo_authorize_def Let_def)
  show "payments_next\<^sup>*\<^sup>* (snd (authorize ''p1'' (demo_authorize (Some ''a1'')) payments_init))
    demo_captured"
    unfolding demo_captured_def by (rule r_into_rtranclp) (rule next_capture)
qed (simp_all add: demo_authorize_def)

text \<open>
  Capture is idempotent by key: once an outcome, an error included, has been given for a
  non-empty key, every later capture with this key gives that outcome again and changes
  nothing.
\<close>

theorem capture_replays:
  assumes "k \<noteq> []"
    and "capture \<lparr>op_paymentId = pid, op_idempotencyKey = Some k\<rparr> s = (r, s1)"
    and "payments_next\<^sup>*\<^sup>* s1 s2"
  shows "capture \<lparr>op_paymentId = pid', op_idempotencyKey = Some k\<rparr> s2 = (r, s2)"
  using assms by (rule capture_op.replay_later)

theorem capture_replays_witness:
  "capture \<lparr>op_paymentId = ''p1'', op_idempotencyKey = Some ''c1''\<rparr> demo_captured =
     (OutcomeOk True ''payment captured'', demo_captured)"
proof (rule capture_replays)
  let ?s = "snd (authorize ''p1'' (demo_authorize (Some ''a1'')) payments_init)"
  show "capture \<lparr>op_paymentId = ''p1'', op_idempotencyKey = Some ''c1''\<rparr> ?s =
      (OutcomeOk True ''payment captured'', demo_captured)"
    by (simp add: demo_captured_def authorize_def payments_init_def demo_authorize_def Let_def
        capture_def persist_capture_def)
qed simp_all

text \<open>
  Refund is idempotent by key, in the same sense.
\<close>

theorem refund_replays:
  assumes "k \<noteq> []"
    and "refund \<lparr>op_paymentId = pid, op_idempotencyKey = Some k\<rparr> s = (r, s1)"
    and "payments_next\<^sup>*\<^sup>* s1 s2"
  shows "refund \<lparr>op_paymentId = pid', op_idempotencyKey = Some k\<rparr> s2 = (r, s2)"
  using assms by (rule refund_op.replay_later)

theorem refund_replays_witness:
  "refund \<lparr>op_paymentId = ''p2'', op_idempotencyKey = Some ''r1''\<rparr>
     (snd (refund \<lparr>op_paymentId = ''p1'', op_idempotencyKey = Some ''r1''\<rparr> demo_captured)) =
   (OutcomeOk True ''payment refunded'',
    snd (refund \<lparr>op_paymentId = ''p1'', op_idempotencyKey = Some ''r1''\<rparr> demo_captured))"
proof (rule refund_replays)
  show "refund \<lparr>op_paymentId = ''p1'', op_idempotencyKey = Some ''r1''\<rparr> demo_captured =
      (OutcomeOk True ''payment refunded'',
       snd (refund \<lparr>op_paymentId = ''p1'', op_idempotencyKey = Some ''r1''\<rparr> demo_captured))"
    by (simp add: demo_captured_def authorize_def payments_init_def demo_authorize_def Let_def
        capture_def persist_capture_def refund_def persist_refund_def)
qed simp_all

text \<open>
  C28. Capture refines the abstract ledger: a call whose key has no recorded outcome answers
  what the ledger's status of the payment determines and moves the ledger as the
  specification does (authorized to captured, anything else unchanged); other payments keep
  their status.
\<close>

theorem capture_refines:
  assumes "cached_result (captureIdempotencyResults s) (op_idempotencyKey inp) = None"
  shows "fst (capture inp s) = capture_answer (ledger s (op_paymentId inp)) \<and>
    ledger (snd (capture inp s)) = ledger_move captured_status (op_paymentId inp) (ledger s)"
  using capture_ledger [OF assms] by simp

theorem capture_refines_witness:
  "fst (capture \<lparr>op_paymentId = ''p1'', op_idempotencyKey = Some ''c2''\<rparr> demo_captured) =
     OutcomeOk True ''payment already captured''"
proof -
  have "cached_result (captureIdempotencyResults demo_captured) (Some ''c2'') = None"
    and "ledger demo_captured ''p1'' = Some PAYMENT_STATUS_CAPTURED"
    by (simp_all add: demo_captured_def authorize_def payments_init_def demo_authorize_def
        Let_def capture_def persist_capture_def ledger_def)
  with capture_refines [of demo_captured "\<lparr>op_paymentId = ''p1'', op_idempotencyKey = Some ''c2''\<rparr>"]
  show ?thesis by simp
qed

text \<open>
  Refund refines the abstract ledger in the same way: authorized and captured payments
  become refunded, every other payment keeps its status.
\<close>

theorem refund_refines:
  assumes "cached_result (refundIdempotencyResults s) (op_idempotencyKey inp) = None"
  shows "fst (refund inp s) = refund_answer (ledger s (op_paymentId inp)) \<and>
    ledger (snd (refund inp s)) = ledger_move refunded_status (op_paymentId inp) (ledger s)"
  using refund_ledger [OF assms] by simp

theorem refund_refines_witness:
  "ledger (snd (refund \<lparr>op_paymentId = ''p1'', op_idempotencyKey = None\<rparr> demo_captured)) ''p1'' =
     Some PAYMENT_STATUS_REFUNDED"
proof -
  have "ledger demo_captured ''p1'' = Some PAYMENT_STATUS_CAPTURED"
    by (simp add: demo_captured_def authorize_def payments_init_def demo_authorize_def
        Let_def capture_def persist_capture_def ledger_def)
  with refund_refines [of demo_captured "\<lparr>op_paymentId = ''p1'', op_idempotencyKey = None\<rparr>"]
  show ?thesis by (simp add: ledger_move_def)
qed

text \<open>
  C29. Over any sequence of calls a payment is never lost, its identifier, order, amount and
  currency never change, and its status never moves down the numbering of the
  \<^verbatim>\<open>.proto\<close> enumeration; so a refunded payment is never again captured.
\<close>

theorem payment_progress:
  assumes "payments_next\<^sup>*\<^sup>* s t" and "paymentsById s pid = Some p"
  shows "\<exists>q. paymentsById t pid = Some q \<and> payment_le p q"
  using assms by (rule payments_steps_le)

theorem payment_progress_witness:
  "\<exists>q. paymentsById demo_captured ''p1'' = Some q \<and>
     payment_le \<lparr>pr_paymentId = ''p1'', pr_orderId = ''order-1'',
       pr_status = PAYMENT_STATUS_AUTHORIZED, pr_amount = ''120.00'', pr_currency = ''USD''\<rparr> q"
proof (rule payment_progress)
  let ?s = "snd (authorize ''p1'' (demo_authorize (Some ''a1'')) payments_init)"
  show "payments_next\<^sup>*\<^sup>* ?s demo_captured"
    unfolding demo_captured_def by (rule r_into_rtranclp) (rule next_capture)
  show "paymentsById ?s ''p1'' =
      Some \<lparr>pr_paymentId = ''p1'', pr_orderId = ''order-1'',
        pr_status = PAYMENT_STATUS_AUTHORIZED, pr_amount = ''120.00'', pr_currency = ''USD''\<rparr>"
    by (simp add: authorize_def payments_init_def demo_authorize_def Let_def)
qed

text \<open>
  In every reachable state each payment is filed under its own identifier and is
  authorized, captured or refunded, and each recorded authorization answer names a stored
  payment; so the branches that reject a payment which is neither are never taken.
\<close>

theorem payments_wellformed:
  assumes "payments_reachable s"
  shows "payments_inv s \<and>
    (\<forall>pid. ledger s pid \<noteq> Some PAYMENT_STATUS_UNSPECIFIED \<and>
       ledger s pid \<noteq> Some PAYMENT_STATUS_FAILED)"
proof -
  from assms have inv: "payments_inv s"
    by (rule payments_reachable_inv)
  show ?thesis
    using inv ledger_live [OF inv] by (auto simp: live_status_def)
qed

theorem payments_wellformed_witness:
  "payments_inv demo_captured"
proof -
  have "payments_reachable demo_captured"
    unfolding demo_captured_def
    by (rule reach_next [OF reach_next [OF reach_init next_authorize] next_capture])
      (simp add: payments_init_def)
  from payments_wellformed [OF this] show ?thesis by simp
qed

text \<open>
  The simulated outage hits an order at most once: after it has failed for an order, no
  later attempt for this order fails, whatever happens in between.
\<close>

theorem transient_failure_once:
  assumes "shouldFailTransient oid sim s = (True, s1)" and "payments_next\<^sup>*\<^sup>* s1 s2"
  shows "fst (shouldFailTransient oid sim' s2) = False"
proof -
  from assms(1) have "oid \<in> transientFailOnceGate s1"
    by (auto simp: shouldFailTransient_def split: if_splits)
  with assms(2) have "oid \<in> transientFailOnceGate s2"
    by (rule gate_steps)
  then show ?thesis by (simp add: shouldFailTransient_def)
qed

theorem transient_failure_once_witness:
  "fst (shouldFailTransient ''o1'' (Some True)
     (snd (shouldFailTransient ''o1'' (Some True) payments_init))) = False"
proof (rule transient_failure_once)
  show "shouldFailTransient ''o1'' (Some True) payments_init =
      (True, snd (shouldFailTransient ''o1'' (Some True) payments_init))"
    by (simp add: shouldFailTransient_def payments_init_def)
qed simp

text \<open>
  The keys are not scoped to a payment: capturing a second payment under a key that was
  used for a first one reports that the payment was captured while the second one stays
  authorized.
\<close>

theorem capture_key_not_scoped:
  assumes "u1 \<noteq> u2" and "k \<noteq> []"
  shows "\<exists>s t. payments_reachable s \<and> ledger s u2 = Some PAYMENT_STATUS_AUTHORIZED \<and>
    capture \<lparr>op_paymentId = u2, op_idempotencyKey = Some k\<rparr> s =
      (OutcomeOk True ''payment captured'', t) \<and>
    ledger t u2 = Some PAYMENT_STATUS_AUTHORIZED"
proof -
  define s1 where "s1 = snd (authorize u1 (demo_authorize None) payments_init)"
  define s2 where "s2 = snd (authorize u2 (demo_authorize None) s1)"
  define s3 where "s3 = snd (capture \<lparr>op_paymentId = u1, op_idempotencyKey = Some k\<rparr> s2)"
  note defs = s1_def s2_def s3_def authorize_def demo_authorize_def Let_def payments_init_def
  have "payments_reachable s3"
    unfolding s3_def
    by (rule reach_next [OF _ next_capture], unfold s2_def, rule reach_next [OF _ next_authorize],
        unfold s1_def, rule reach_next [OF reach_init next_authorize])
      (use assms in \<open>simp_all add: defs\<close>)
  moreover have "ledger s3 u2 = Some PAYMENT_STATUS_AUTHORIZED"
    and "capture \<lparr>op_paymentId = u2, op_idempotencyKey = Some k\<rparr> s3 =
      (OutcomeOk True ''payment captured'', s3)"
    using assms by (simp_all add: defs capture_def persist_capture_def ledger_def)
  ultimately show ?thesis by blast
qed

theorem capture_key_not_scoped_witness:
  "\<exists>s t. payments_reachable s \<and> ledger s ''p2'' = Some PAYMENT_STATUS_AUTHORIZED \<and>
    capture \<lparr>op_paymentId = ''p2'', op_idempotencyKey = Some ''k''\<rparr> s =
      (OutcomeOk True ''payment captured'', t) \<and>
    ledger t ''p2'' = Some PAYMENT_STATUS_AUTHORIZED"
  by (rule capture_key_not_scoped [of "''p1''"]) simp_all

end
