(* ===== verification/PaymentsGrpc.thy ===== *)
theory PaymentsGrpc
  imports JsNumber Payments
begin

text \<open>
  The gRPC endpoint of the payments service
  (\<^verbatim>\<open>src/payments-service/payments.grpc.controller.ts\<close>): request validation, the simulated
  outage, and the translation of outcomes to status codes. Handlers are computations on the
  service's state that throw \<open>RpcException\<close>.
\<close>

section \<open>Handlers\<close>

record authorize_request =
  rq_orderId :: "string option"
  rq_amount :: "string option"
  rq_currency :: "string option"
  rq_idempotencyKey :: "string option"
  rq_simulateUnavailableOnce :: "bool option"

record operation_request =
  or_paymentId :: "string option"
  or_idempotencyKey :: "string option"

definition is_upper_letter :: "char \<Rightarrow> bool" where
  "is_upper_letter c = (65 \<le> (of_char c :: nat) \<and> (of_char c :: nat) \<le> 90)"

text \<open>The pattern \<^verbatim>\<open>/^[A-Z]{3}$/\<close>.\<close>

definition currency_pattern :: "string \<Rightarrow> bool" where
  "currency_pattern s = (length s = 3 \<and> list_all is_upper_letter s)"

definition or_empty :: "string option \<Rightarrow> string" where
  "or_empty v = (case v of None \<Rightarrow> [] | Some s \<Rightarrow> s)"

definition grpc_authorize ::
  "string \<Rightarrow> authorize_request \<Rightarrow> (payments_state, authorize_result) async" where
  "grpc_authorize uuid payload =
     (if \<not> truthy (rq_orderId payload) then
        throw (RpcException INVALID_ARGUMENT ''order_id is required'')
      else
        (let amountValue = js_Number (or_empty (rq_amount payload)) in
         if \<not> isFinite amountValue \<or> js_le0 amountValue then
           throw (RpcException INVALID_ARGUMENT ''amount must be > 0'')
         else if \<not> currency_pattern (or_empty (rq_currency payload)) then
           throw (RpcException INVALID_ARGUMENT ''currency must be 3 uppercase letters'')
         else
           await (sync (shouldFailTransient (or_empty (rq_orderId payload))
                          (rq_simulateUnavailableOnce payload)))
             (\<lambda>fails.
                if fails then throw (RpcException UNAVAILABLE ''transient provider outage'')
                else sync (authorize uuid
                       \<lparr>ai_orderId = or_empty (rq_orderId payload),
                        ai_amount = or_empty (rq_amount payload),
                        ai_currency = or_empty (rq_currency payload),
                        ai_idempotencyKey = rq_idempotencyKey payload\<rparr>))))"

definition grpc_getPaymentStatus ::
  "string \<Rightarrow> (payments_state, string \<times> payment_status) async" where
  "grpc_getPaymentStatus paymentId =
     await (gets (getStatus paymentId))
       (\<lambda>payment. case payment of
          None \<Rightarrow> throw (RpcException NOT_FOUND ''payment not found'')
        | Some p \<Rightarrow> resolve p)"

fun grpc_code :: "operation_error_code \<Rightarrow> grpc_status" where
  "grpc_code OpNotFound = NOT_FOUND"
| "grpc_code OpFailedPrecondition = FAILED_PRECONDITION"

fun reply_of_outcome :: "operation_outcome \<Rightarrow> ('s, bool \<times> string) async" where
  "reply_of_outcome (OutcomeError code message) = throw (RpcException (grpc_code code) message)"
| "reply_of_outcome (OutcomeOk ok message) = resolve (ok, message)"

definition grpc_capture :: "operation_request \<Rightarrow> (payments_state, bool \<times> string) async" where
  "grpc_capture payload =
     (if \<not> truthy (or_paymentId payload) then
        throw (RpcException INVALID_ARGUMENT ''payment_id is required'')
      else
        await (sync (capture \<lparr>op_paymentId = or_empty (or_paymentId payload),
                              op_idempotencyKey = or_idempotencyKey payload\<rparr>))
          reply_of_outcome)"

definition grpc_refund :: "operation_request \<Rightarrow> (payments_state, bool \<times> string) async" where
  "grpc_refund payload =
     (if \<not> truthy (or_paymentId payload) then
        throw (RpcException INVALID_ARGUMENT ''payment_id is required'')
      else
        await (sync (refund \<lparr>op_paymentId = or_empty (or_paymentId payload),
                             op_idempotencyKey = or_idempotencyKey payload\<rparr>))
          reply_of_outcome)"

section \<open>Lemmas\<close>

lemma or_empty_simps [simp]: "or_empty None = []" "or_empty (Some s) = s"
  by (simp_all add: or_empty_def)

text \<open>What the endpoint accepts.\<close>

definition valid_authorize :: "authorize_request \<Rightarrow> bool" where
  "valid_authorize payload \<longleftrightarrow>
     truthy (rq_orderId payload) \<and>
     isFinite (js_Number (or_empty (rq_amount payload))) \<and>
     js_pos (js_Number (or_empty (rq_amount payload))) \<and>
     currency_pattern (or_empty (rq_currency payload))"

lemma finite_le0_pos: "isFinite x \<Longrightarrow> js_le0 x \<longleftrightarrow> \<not> js_pos x"
  by (cases x) auto

lemma grpc_authorize_invalid:
  assumes "\<not> valid_authorize payload"
  shows "\<exists>m. grpc_authorize uuid payload s = (Inl (RpcException INVALID_ARGUMENT m), s)"
  using assms
  by (auto simp: grpc_authorize_def valid_authorize_def Let_def finite_le0_pos async_simps)

lemma grpc_authorize_valid:
  assumes "valid_authorize payload"
  shows "grpc_authorize uuid payload s =
     (if fst (shouldFailTransient (or_empty (rq_orderId payload)) (rq_simulateUnavailableOnce payload) s)
      then (Inl (RpcException UNAVAILABLE ''transient provider outage''),
            snd (shouldFailTransient (or_empty (rq_orderId payload))
              (rq_simulateUnavailableOnce payload) s))
      else sync (authorize uuid
             \<lparr>ai_orderId = or_empty (rq_orderId payload), ai_amount = or_empty (rq_amount payload),
              ai_currency = or_empty (rq_currency payload),
              ai_idempotencyKey = rq_idempotencyKey payload\<rparr>) s)"
proof -
  have keep: "fst (shouldFailTransient oid sim s) = False \<Longrightarrow> snd (shouldFailTransient oid sim s) = s"
    for oid sim by (simp add: shouldFailTransient_def split: if_splits)
  from assms show ?thesis
    by (simp add: grpc_authorize_def valid_authorize_def Let_def finite_le0_pos await_def
        async_simps keep)
qed

lemma authorize_stores:
  assumes "payments_inv s" and "authorize uuid inp s = (r, t)"
  shows "ar_status r = PAYMENT_STATUS_AUTHORIZED \<and> paymentsById t (ar_paymentId r) \<noteq> None"
  using assms
  by (auto simp: authorize_def Let_def payments_inv_def cached_result_Some split: option.splits)

section \<open>Properties\<close>


definition demo_request :: "bool option \<Rightarrow> authorize_request" where
  "demo_request sim =
     \<lparr>rq_orderId = Some ''order-1'', rq_amount = Some ''120.50'', rq_currency = Some ''USD'',
      rq_idempotencyKey = None, rq_simulateUnavailableOnce = sim\<rparr>"

lemma demo_request_valid: "valid_authorize (demo_request sim)"
  by (simp add: valid_authorize_def demo_request_def js_Number_eval currency_pattern_def
      is_upper_letter_def)


text \<open>
  Capture over gRPC with a key that has no recorded outcome: the reply is determined by
  the ledger. An unknown payment is \<open>NOT_FOUND\<close>, a refunded one \<open>FAILED_PRECONDITION\<close>,
  and an authorized or captured one answers ok and is captured afterwards.
\<close>

theorem grpc_capture_reply:
  assumes "payments_reachable s"
    and "truthy (or_paymentId payload)"
    and "cached_result (captureIdempotencyResults s) (or_idempotencyKey payload) = None"
  shows "case ledger s (or_empty (or_paymentId payload)) of
      None \<Rightarrow> fst (grpc_capture payload s) = Inl (RpcException NOT_FOUND ''payment not found'')
    | Some st \<Rightarrow>
        (if st = PAYMENT_STATUS_REFUNDED
         then fst (grpc_capture payload s) =
           Inl (RpcException FAILED_PRECONDITION ''cannot capture refunded payment'')
         else (\<exists>m. fst (grpc_capture payload s) = Inr (True, m)) \<and>
           ledger (snd (grpc_capture payload s)) (or_empty (or_paymentId payload)) =
             Some PAYMENT_STATUS_CAPTURED)"
proof -
  let ?pid = "or_empty (or_paymentId payload)"
  let ?inp = "\<lparr>op_paymentId = ?pid, op_idempotencyKey = or_idempotencyKey payload\<rparr>"
  have refines: "fst (capture ?inp s) = capture_answer (ledger s ?pid)"
    "ledger (snd (capture ?inp s)) = ledger_move captured_status ?pid (ledger s)"
    using capture_ledger [of s ?inp] assms(3) by simp_all
  have run: "grpc_capture payload s = reply_of_outcome (fst (capture ?inp s)) (snd (capture ?inp s))"
    using assms(2) by (simp add: grpc_capture_def await_def async_simps)
  show ?thesis
  proof (cases "ledger s ?pid")
    case None
    then show ?thesis by (simp add: run refines async_simps)
  next
    case (Some st)
    with payments_reachable_inv [OF assms(1)] have "live_status st"
      by (rule ledger_live)
    with Some show ?thesis
      by (auto simp: run refines async_simps live_status_def ledger_move_def)
  qed
qed

theorem grpc_capture_reply_witness:
  "fst (grpc_capture \<lparr>or_paymentId = Some ''p1'', or_idempotencyKey = None\<rparr> payments_init) =
     Inl (RpcException NOT_FOUND ''payment not found'')"
proof -
  have "ledger payments_init ''p1'' = None"
    by (simp add: ledger_def payments_init_def)
  with grpc_capture_reply [OF reach_init, of "\<lparr>or_paymentId = Some ''p1'', or_idempotencyKey = None\<rparr>"]
  show ?thesis by simp
qed

end
