(* ===== verification/PaymentsClient.thy ===== *)
theory PaymentsClient
  imports JsNumber Backoff PaymentsGrpc
begin

text \<open>
  The orders side of the payments RPC
  (\<^verbatim>\<open>src/orders/payments-grpc.client.ts\<close>, \<^verbatim>\<open>src/orders/errors/orders-payment.errors.ts\<close>):
  configuration with defaults, retries with backoff of transient failures, and the
  translation of RPC errors to the exceptions the HTTP layer answers with. The RPC itself
  and the \<open>retry\<close> operator of rxjs are arguments; what the operator does is the locale
  \<open>retry_operator\<close>.
\<close>

section \<open>Configuration\<close>

type_synonym config = "string \<Rightarrow> string option"

definition positive_or :: "rat \<Rightarrow> jsnum \<Rightarrow> rat" where
  "positive_or fallback v =
     (if \<not> isFinite v \<or> js_le0 v then fallback else (case v of Fin q \<Rightarrow> q | _ \<Rightarrow> fallback))"

definition getTimeoutMs :: "config \<Rightarrow> rat" where
  "getTimeoutMs config =
     positive_or 1000 (js_Number_opt
       (nullish (config ''PAYMENTS_GRPC_TIMEOUT_MS'')
         (nullish (config ''PAYMENTS_RPC_TIMEOUT_MS'') (Some ''1000''))))"

definition getAuthorizeMaxRetries :: "config \<Rightarrow> nat" where
  "getAuthorizeMaxRetries config =
     (let v = js_Number_opt
        (nullish (config ''PAYMENTS_GRPC_AUTHORIZE_MAX_RETRIES'') (Some ''2''))
      in if \<not> isInteger v \<or> \<not> js_nonneg v then 2 else nat (js_floor v))"

definition getRetryBackoffMs :: "config \<Rightarrow> rat" where
  "getRetryBackoffMs config =
     positive_or 150 (js_Number_opt
       (nullish (config ''PAYMENTS_GRPC_RETRY_BACKOFF_MS'') (Some ''150'')))"

definition getRetryMaxBackoffMs :: "config \<Rightarrow> rat" where
  "getRetryMaxBackoffMs config =
     positive_or 2000 (js_Number_opt
       (nullish (config ''PAYMENTS_GRPC_RETRY_MAX_BACKOFF_MS'') (Some ''2000'')))"

section \<open>Errors\<close>

text \<open>The exception classes: HTTP status, domain code and the retryable flag.\<close>

fun error_http_status :: "payment_error_class \<Rightarrow> nat" where
  "error_http_status OrdersPaymentValidationError = 400"
| "error_http_status OrdersPaymentNotFoundError = 404"
| "error_http_status OrdersPaymentConflictError = 409"
| "error_http_status OrdersPaymentTimeoutError = 504"
| "error_http_status OrdersPaymentUnavailableError = 503"
| "error_http_status OrdersPaymentIntegrationError = 502"

fun error_domain_code :: "payment_error_class \<Rightarrow> string" where
  "error_domain_code OrdersPaymentValidationError = ''ORDERS_PAYMENT_VALIDATION_FAILED''"
| "error_domain_code OrdersPaymentNotFoundError = ''ORDERS_PAYMENT_NOT_FOUND''"
| "error_domain_code OrdersPaymentConflictError = ''ORDERS_PAYMENT_CONFLICT''"
| "error_domain_code OrdersPaymentTimeoutError = ''ORDERS_PAYMENT_TIMEOUT''"
| "error_domain_code OrdersPaymentUnavailableError = ''ORDERS_PAYMENT_UNAVAILABLE''"
| "error_domain_code OrdersPaymentIntegrationError = ''ORDERS_PAYMENT_INTEGRATION_ERROR''"

fun error_retryable :: "payment_error_class \<Rightarrow> bool" where
  "error_retryable OrdersPaymentTimeoutError = True"
| "error_retryable OrdersPaymentUnavailableError = True"
| "error_retryable _ = False"

text \<open>The \<open>code\<close> and \<open>details\<close> an error value has, where they are a status and a text.\<close>

fun rpc_code :: "exn \<Rightarrow> grpc_status option" where
  "rpc_code (ServiceError c d) = c"
| "rpc_code _ = None"

fun rpc_details :: "exn \<Rightarrow> string option" where
  "rpc_details (ServiceError c d) = d"
| "rpc_details _ = None"

definition isTransientGrpcError :: "exn \<Rightarrow> bool" where
  "isTransientGrpcError e = (rpc_code e = Some UNAVAILABLE)"

definition mapRpcError :: "exn \<Rightarrow> exn" where
  "mapRpcError error =
     (if error = TimeoutError then
        OrdersPaymentException OrdersPaymentTimeoutError ''Payments RPC timeout exceeded''
      else
        (let code = rpc_code error;
             message = (case rpc_details error of None \<Rightarrow> ''unknown grpc error'' | Some d \<Rightarrow> d)
         in if code = Some INVALID_ARGUMENT then
              OrdersPaymentException OrdersPaymentValidationError
                (''Payments validation failed: '' @ message)
            else if code = Some NOT_FOUND then
              OrdersPaymentException OrdersPaymentNotFoundError (''Payment not found: '' @ message)
            else if code = Some FAILED_PRECONDITION then
              OrdersPaymentException OrdersPaymentConflictError
                (''Payment state conflict: '' @ message)
            else if code = Some ALREADY_EXISTS then
              OrdersPaymentException OrdersPaymentConflictError
                (''Payment duplicate request conflict: '' @ message)
            else if code = Some DEADLINE_EXCEEDED then
              OrdersPaymentException OrdersPaymentTimeoutError
                (''Payments deadline exceeded: '' @ message)
            else if code = Some UNAVAILABLE then
              OrdersPaymentException OrdersPaymentUnavailableError
                (''Payments temporarily unavailable: '' @ message)
            else
              OrdersPaymentException OrdersPaymentIntegrationError
                (''Payments RPC failed: '' @ message)))"

section \<open>Calls\<close>

text \<open>
  The callback given to \<open>retry\<close> for the error and the index (from 1) of the retry: rethrow,
  or wait that many milliseconds.
\<close>

definition retry_delay :: "config \<Rightarrow> nat \<Rightarrow> rat" where
  "retry_delay config retryIndex =
     min (getRetryBackoffMs config * 2 ^ (retryIndex - 1)) (getRetryMaxBackoffMs config)"

definition retry_decision :: "config \<Rightarrow> exn \<Rightarrow> nat \<Rightarrow> exn + rat" where
  "retry_decision config error retryIndex =
     (if \<not> isTransientGrpcError error then Inl error
      else Inr (retry_delay config retryIndex))"

text \<open>
  \<open>rpc timeoutMs payload\<close> is one subscription to the call, with its deadline and the
  \<open>timeout\<close> operator; \<open>rx count delay source\<close> is the \<open>retry\<close> operator.
\<close>

type_synonym ('s, 'a) retry_op =
  "nat \<Rightarrow> (exn \<Rightarrow> nat \<Rightarrow> exn + rat) \<Rightarrow> ('s, 'a) async \<Rightarrow> ('s, 'a) async"

definition client_authorize ::
  "('s, 'r) retry_op \<Rightarrow> (rat \<Rightarrow> 'p \<Rightarrow> ('s, 'r) async) \<Rightarrow> config \<Rightarrow> 'p \<Rightarrow> ('s, 'r) async" where
  "client_authorize rx rpc config payload =
     try_catch
       (rx (getAuthorizeMaxRetries config) (retry_decision config)
         (rpc (getTimeoutMs config) payload))
       (\<lambda>error. throw (mapRpcError error))"

definition client_getPaymentStatus ::
  "(rat \<Rightarrow> string \<Rightarrow> ('s, 'r) async) \<Rightarrow> config \<Rightarrow> string \<Rightarrow> ('s, 'r) async" where
  "client_getPaymentStatus rpc config paymentId =
     try_catch (rpc (getTimeoutMs config) paymentId) (\<lambda>error. throw (mapRpcError error))"

section \<open>The retry operator\<close>

text \<open>
  What the client relies on of rxjs: \<open>retry({count, delay})\<close> passes a value on; on an error
  with no retry left it passes the error on; otherwise it asks the callback, which either
  fails the whole with an error of its own or gives a delay, after which the source is
  subscribed again with one retry less. \<open>wait ms\<close> is the state after a timer of \<open>ms\<close>.
\<close>

locale retry_operator =
  fixes rx :: "('s, 'r) retry_op" and wait :: "rat \<Rightarrow> 's \<Rightarrow> 's"
  assumes rx_value: "m s = (Inr x, t) \<Longrightarrow> rx n d m s = (Inr x, t)"
    and rx_exhausted: "m s = (Inl e, t) \<Longrightarrow> rx 0 d m s = (Inl e, t)"
    and rx_stop: "m s = (Inl e, t) \<Longrightarrow> d e 1 = Inl e' \<Longrightarrow> rx (Suc n) d m s = (Inl e', t)"
    and rx_again: "m s = (Inl e, t) \<Longrightarrow> d e 1 = Inr ms \<Longrightarrow>
      rx (Suc n) d m s = rx n (\<lambda>e i. d e (Suc i)) m (wait ms t)"
begin

text \<open>One unfolding of the operator.\<close>

lemma rx_zero: "rx 0 d m s = m s"
proof (cases "m s")
  case (Pair r t)
  then show ?thesis by (cases r) (simp_all add: rx_value rx_exhausted)
qed

lemma rx_Suc:
  "rx (Suc n) d m s =
     (case m s of
        (Inr x, t) \<Rightarrow> (Inr x, t)
      | (Inl e, t) \<Rightarrow>
          (case d e 1 of
             Inl e' \<Rightarrow> (Inl e', t)
           | Inr ms \<Rightarrow> rx n (\<lambda>e i. d e (Suc i)) m (wait ms t)))"
proof (cases "m s")
  case (Pair r t)
  show ?thesis
  proof (cases r)
    case (Inl e)
    with Pair show ?thesis by (cases "d e 1") (simp_all add: rx_stop rx_again)
  next
    case (Inr x)
    with Pair show ?thesis by (simp add: rx_value)
  qed
qed

text \<open>The number of subscriptions, for a source that counts them.\<close>

lemma subscriptions:
  assumes "\<And>s. calls (snd (m s)) = Suc (calls s)" and "\<And>ms s. calls (wait ms s) = calls s"
  shows "calls s < calls (snd (rx n d m s)) \<and> calls (snd (rx n d m s)) \<le> calls s + n + 1"
proof (induction n arbitrary: d s)
  case 0
  show ?case using assms(1) [of s] by (simp add: rx_zero)
next
  case (Suc n)
  show ?case
  proof (cases "m s")
    case (Pair r t)
    with assms(1) [of s] have t: "calls t = Suc (calls s)" by simp
    show ?thesis
    proof (cases r)
      case (Inl e)
      show ?thesis
      proof (cases "d e 1")
        case stop: (Inl e')
        with Pair Inl t show ?thesis by (simp add: rx_Suc)
      next
        case again: (Inr ms)
        with Suc.IH [of "wait ms t" "\<lambda>e i. d e (Suc i)"] Pair Inl t assms(2) show ?thesis
          by (simp add: rx_Suc)
      qed
    qed (use Pair t in \<open>simp add: rx_Suc\<close>)
  qed
qed

text \<open>
  The delays waited, for a state that records them: the i-th is the callback's answer for
  index i and some error, and there are at most as many as retries.
\<close>

lemma delays:
  assumes "\<And>s. waits (snd (m s)) = waits s" and "\<And>ms s. waits (wait ms s) = waits s @ [ms]"
  shows "\<exists>ws. waits (snd (rx n d m s)) = waits s @ ws \<and> length ws \<le> n \<and>
    (\<forall>i < length ws. \<exists>e. d e (Suc i) = Inr (ws ! i))"
proof (induction n arbitrary: d s)
  case 0
  show ?case using assms(1) [of s] by (simp add: rx_zero)
next
  case (Suc n)
  show ?case
  proof (cases "m s")
    case (Pair r t)
    with assms(1) [of s] have t: "waits t = waits s" by simp
    show ?thesis
    proof (cases r)
      case (Inl e)
      show ?thesis
      proof (cases "d e 1")
        case stop: (Inl e')
        with Pair Inl t show ?thesis by (simp add: rx_Suc)
      next
        case again: (Inr ms)
        from Suc.IH [of "\<lambda>e i. d e (Suc i)" "wait ms t"] obtain ws where ws:
          "waits (snd (rx n (\<lambda>e i. d e (Suc i)) m (wait ms t))) = waits (wait ms t) @ ws"
          "length ws \<le> n" "\<forall>i < length ws. \<exists>e. d e (Suc (Suc i)) = Inr (ws ! i)"
          by auto
        have "\<forall>i < length (ms # ws). \<exists>e. d e (Suc i) = Inr ((ms # ws) ! i)"
          using ws(3) again by (auto simp: nth_Cons split: nat.split)
        with Pair Inl again t ws(1,2) assms(2) show ?thesis
          by (intro exI [of _ "ms # ws"]) (simp add: rx_Suc)
      qed
    qed (use Pair t in \<open>simp add: rx_Suc\<close>)
  qed
qed

end

text \<open>A reference implementation, with the state after a timer as its parameter.\<close>

primrec retry_ref :: "(rat \<Rightarrow> 's \<Rightarrow> 's) \<Rightarrow> ('s, 'r) retry_op" where
  "retry_ref wait 0 d m = m"
| "retry_ref wait (Suc n) d m = (\<lambda>s. case m s of
      (Inr x, t) \<Rightarrow> (Inr x, t)
    | (Inl e, t) \<Rightarrow> (case d e 1 of
          Inl e' \<Rightarrow> (Inl e', t)
        | Inr ms \<Rightarrow> retry_ref wait n (\<lambda>e i. d e (Suc i)) m (wait ms t)))"

lemma retry_ref_value: "m s = (Inr x, t) \<Longrightarrow> retry_ref wait n d m s = (Inr x, t)"
  by (cases n) simp_all

interpretation reference_retry: retry_operator "retry_ref wait" wait for wait
  by unfold_locales (simp_all add: retry_ref_value)

section \<open>Configured values\<close>

lemma positive_or_pos: "0 < fallback \<Longrightarrow> 0 < positive_or fallback v"
  by (cases v) (auto simp: positive_or_def)

interpretation client_backoff: capped_backoff
  "getRetryBackoffMs config" "getRetryMaxBackoffMs config" "\<lambda>n. retry_delay config (Suc n)"
  for config
  by unfold_locales
    (simp_all add: getRetryBackoffMs_def getRetryMaxBackoffMs_def positive_or_pos retry_delay_def)

section \<open>Error translation\<close>

definition error_class :: "exn \<Rightarrow> payment_error_class option" where
  "error_class e = (case e of OrdersPaymentException c m \<Rightarrow> Some c | _ \<Rightarrow> None)"

lemma mapRpcError_class:
  "\<exists>c m. mapRpcError e = OrdersPaymentException c m"
  by (simp add: mapRpcError_def Let_def)

lemma client_authorize_Inl:
  "client_authorize rx rpc config payload s = (Inl e, t) \<longleftrightarrow>
     (\<exists>e0. rx (getAuthorizeMaxRetries config) (retry_decision config)
             (rpc (getTimeoutMs config) payload) s = (Inl e0, t) \<and> e = mapRpcError e0)"
  by (auto simp: client_authorize_def try_catch_def throw_def split: prod.splits sum.splits)

lemma client_authorize_state:
  "snd (client_authorize rx rpc config payload s) =
     snd (rx (getAuthorizeMaxRetries config) (retry_decision config)
       (rpc (getTimeoutMs config) payload) s)"
  by (simp add: client_authorize_def try_catch_def throw_def split: prod.splits sum.splits)

section \<open>Over the payments endpoint\<close>

text \<open>
  The endpoint as the client sees it: what an \<open>RpcException\<close> of the server becomes on the
  client, an error with the status as \<open>code\<close> and the message as \<open>details\<close>.
\<close>

definition over_wire :: "('s, 'r) async \<Rightarrow> ('s, 'r) async" where
  "over_wire m =
     try_catch m (\<lambda>e. throw (case e of RpcException c msg \<Rightarrow> ServiceError (Some c) (Some msg) | _ \<Rightarrow> e))"

lemma over_wire_value: "m s = (Inr x, t) \<Longrightarrow> over_wire m s = (Inr x, t)"
  by (simp add: over_wire_def async_simps)

lemma over_wire_rpc:
  "m s = (Inl (RpcException c msg), t) \<Longrightarrow>
   over_wire m s = (Inl (ServiceError (Some c) (Some msg)), t)"
  by (simp add: over_wire_def async_simps)

lemma grpc_authorize_outage:
  assumes "valid_authorize payload" and "rq_simulateUnavailableOnce payload = Some True"
    and "or_empty (rq_orderId payload) \<notin> transientFailOnceGate s"
  shows "grpc_authorize uuid payload s =
     (Inl (RpcException UNAVAILABLE ''transient provider outage''),
      s\<lparr>transientFailOnceGate :=
          insert (or_empty (rq_orderId payload)) (transientFailOnceGate s)\<rparr>)"
  using assms by (simp add: grpc_authorize_valid shouldFailTransient_def)

lemma grpc_authorize_after_outage:
  assumes "valid_authorize payload" and "payments_inv s"
    and "or_empty (rq_orderId payload) \<in> transientFailOnceGate s"
  obtains r t where "grpc_authorize uuid payload s = (Inr r, t)"
    "ar_status r = PAYMENT_STATUS_AUTHORIZED" "ledger t (ar_paymentId r) \<noteq> None"
proof -
  let ?inp = "\<lparr>ai_orderId = or_empty (rq_orderId payload), ai_amount = or_empty (rq_amount payload),
    ai_currency = or_empty (rq_currency payload), ai_idempotencyKey = rq_idempotencyKey payload\<rparr>"
  obtain r t where a: "authorize uuid ?inp s = (r, t)"
    by (cases "authorize uuid ?inp s")
  from assms(1,3) a have "grpc_authorize uuid payload s = (Inr r, t)"
    by (simp add: grpc_authorize_valid shouldFailTransient_def async_simps)
  moreover from authorize_stores [OF assms(2) a]
  have "ar_status r = PAYMENT_STATUS_AUTHORIZED" "ledger t (ar_paymentId r) \<noteq> None"
    by (auto simp: ledger_def)
  ultimately show ?thesis by (rule that)
qed

section \<open>Properties\<close>

text \<open>The calls and the delays of a demonstration run whose every call finds no server.\<close>

definition demo_wait :: "rat \<Rightarrow> nat \<times> rat list \<Rightarrow> nat \<times> rat list" where
  "demo_wait ms s = (fst s, snd s @ [ms])"

definition demo_rpc :: "rat \<Rightarrow> unit \<Rightarrow> (nat \<times> rat list, unit) async" where
  "demo_rpc T u = (\<lambda>s. (Inl (ServiceError (Some UNAVAILABLE) None), (Suc (fst s), snd s)))"

definition no_config :: config where
  "no_config = (\<lambda>_. None)"

lemma no_config_values:
  "getAuthorizeMaxRetries no_config = 2"
  "getRetryBackoffMs no_config = 150"
  "getRetryMaxBackoffMs no_config = 2000"
  by (simp_all add: no_config_def getAuthorizeMaxRetries_def getRetryBackoffMs_def
      getRetryMaxBackoffMs_def positive_or_def js_Number_eval)

text \<open>
  One authorize makes at least one RPC call and at most \<open>maxRetries + 1\<close>, whatever the
  calls answer and whatever the configuration holds.
\<close>

theorem client_attempts_bounded:
  assumes "retry_operator rx wait"
    and "\<And>T p s. calls (snd (rpc T p s)) = Suc (calls s)"
    and "\<And>ms s. calls (wait ms s) = calls s"
  shows "calls s < calls (snd (client_authorize rx rpc config payload s)) \<and>
    calls (snd (client_authorize rx rpc config payload s)) \<le>
      calls s + getAuthorizeMaxRetries config + 1"
  using retry_operator.subscriptions [OF assms(1), of calls, OF assms(2,3)]
  by (simp add: client_authorize_state)

theorem client_attempts_bounded_witness:
  "fst (snd (client_authorize (retry_ref demo_wait) demo_rpc no_config () (0, []))) \<le> 3"
proof -
  have "fst (0 :: nat, [] :: rat list) <
      fst (snd (client_authorize (retry_ref demo_wait) demo_rpc no_config () (0, []))) \<and>
    fst (snd (client_authorize (retry_ref demo_wait) demo_rpc no_config () (0, []))) \<le>
      fst (0 :: nat, [] :: rat list) + getAuthorizeMaxRetries no_config + 1"
    by (rule client_attempts_bounded [OF reference_retry.retry_operator_axioms])
      (simp_all add: demo_rpc_def demo_wait_def)
  then show ?thesis by (simp add: no_config_values)
qed

text \<open>
  The delays between the calls of one authorize follow the configured backoff: at most
  \<open>maxRetries\<close> of them, the i-th (from 0) is the base times two to the i, capped, and each is
  positive and at most the cap.
\<close>

theorem client_delays_backoff:
  assumes "retry_operator rx wait"
    and "\<And>T p s. waits (snd (rpc T p s)) = waits s"
    and "\<And>ms s. waits (wait ms s) = waits s @ [ms]"
  shows "\<exists>ws. waits (snd (client_authorize rx rpc config payload s)) = waits s @ ws \<and>
    length ws \<le> getAuthorizeMaxRetries config \<and>
    (\<forall>i < length ws.
       ws ! i = min (getRetryBackoffMs config * 2 ^ i) (getRetryMaxBackoffMs config) \<and>
       0 < ws ! i \<and> ws ! i \<le> getRetryMaxBackoffMs config)"
proof -
  let ?rpc = "rpc (getTimeoutMs config) payload"
  obtain ws where ws:
    "waits (snd (rx (getAuthorizeMaxRetries config) (retry_decision config) ?rpc s)) = waits s @ ws"
    "length ws \<le> getAuthorizeMaxRetries config"
    "\<forall>i < length ws. \<exists>e. retry_decision config e (Suc i) = Inr (ws ! i)"
    using retry_operator.delays [OF assms(1), of waits ?rpc, OF assms(2,3)] by blast
  have "ws ! i = min (getRetryBackoffMs config * 2 ^ i) (getRetryMaxBackoffMs config) \<and>
      0 < ws ! i \<and> ws ! i \<le> getRetryMaxBackoffMs config" if "i < length ws" for i
  proof -
    from ws(3) that have "ws ! i = retry_delay config (Suc i)"
      by (auto simp: retry_decision_def split: if_splits)
    then show ?thesis
      using client_backoff.delay_pos [of config i] client_backoff.delay_le_cap [of config i]
      by (simp add: client_backoff.delay_eq)
  qed
  with ws(1,2) show ?thesis unfolding client_authorize_state by blast
qed

theorem client_delays_backoff_witness:
  "\<exists>ws. snd (snd (client_authorize (retry_ref demo_wait) demo_rpc no_config () (0, []))) = [] @ ws \<and>
     length ws \<le> 2 \<and>
     (\<forall>i < length ws. ws ! i = min (150 * 2 ^ i) 2000 \<and> 0 < ws ! i \<and> ws ! i \<le> 2000)"
  using client_delays_backoff [OF reference_retry.retry_operator_axioms [of demo_wait],
      where waits = snd and rpc = demo_rpc and config = no_config and payload = "()" and s = "(0, [])"]
  by (simp add: demo_rpc_def demo_wait_def no_config_values)

text \<open>
  An error that is not \<open>UNAVAILABLE\<close> is not retried: the first call's error is translated
  and thrown, in the state right after that call.
\<close>

theorem client_no_retry_unless_unavailable:
  assumes "retry_operator rx wait"
    and "rpc (getTimeoutMs config) payload s = (Inl e, t)"
    and "\<not> isTransientGrpcError e"
  shows "client_authorize rx rpc config payload s = (Inl (mapRpcError e), t)"
proof -
  let ?m = "rpc (getTimeoutMs config) payload"
  have "rx n (retry_decision config) ?m s = (Inl e, t)" for n
    using retry_operator.rx_exhausted [where m = ?m, OF assms(1,2)]
      retry_operator.rx_stop [where m = ?m, OF assms(1,2)] assms(3)
    by (cases n) (simp_all add: retry_decision_def)
  then show ?thesis by (auto simp: client_authorize_Inl)
qed

theorem client_no_retry_unless_unavailable_witness:
  "client_authorize (retry_ref demo_wait)
     (\<lambda>T p s. (Inl (ServiceError (Some INVALID_ARGUMENT) (Some ''bad'')), (Suc (fst s), snd s)))
     no_config () (0, []) =
   (Inl (OrdersPaymentException OrdersPaymentValidationError ''Payments validation failed: bad''),
    (1, []))"
  using client_no_retry_unless_unavailable [OF reference_retry.retry_operator_axioms [of demo_wait],
    of "\<lambda>T p s. (Inl (ServiceError (Some INVALID_ARGUMENT) (Some ''bad'')), (Suc (fst s), snd s))"
      no_config "()" "(0, [])"]
  by (simp add: isTransientGrpcError_def mapRpcError_def)

text \<open>The documented table: gRPC status to HTTP status and domain code.\<close>

fun documented_error :: "exn \<Rightarrow> nat \<times> string" where
  "documented_error TimeoutError = (504, ''ORDERS_PAYMENT_TIMEOUT'')"
| "documented_error (ServiceError (Some INVALID_ARGUMENT) d) =
     (400, ''ORDERS_PAYMENT_VALIDATION_FAILED'')"
| "documented_error (ServiceError (Some NOT_FOUND) d) = (404, ''ORDERS_PAYMENT_NOT_FOUND'')"
| "documented_error (ServiceError (Some FAILED_PRECONDITION) d) = (409, ''ORDERS_PAYMENT_CONFLICT'')"
| "documented_error (ServiceError (Some ALREADY_EXISTS) d) = (409, ''ORDERS_PAYMENT_CONFLICT'')"
| "documented_error (ServiceError (Some DEADLINE_EXCEEDED) d) = (504, ''ORDERS_PAYMENT_TIMEOUT'')"
| "documented_error (ServiceError (Some UNAVAILABLE) d) = (503, ''ORDERS_PAYMENT_UNAVAILABLE'')"
| "documented_error _ = (502, ''ORDERS_PAYMENT_INTEGRATION_ERROR'')"

text \<open>
  Every failure of a call reaches the HTTP layer as one of the payment exceptions, with
  the HTTP status and domain code the README's table lists for it, and it is marked
  retryable exactly when it is a timeout, a passed deadline or an unavailable service.
\<close>

theorem rpc_errors_as_documented:
  "\<exists>c m. mapRpcError e = OrdersPaymentException c m \<and>
     (error_http_status c, error_domain_code c) = documented_error e \<and>
     error_retryable c =
       (e = TimeoutError \<or> rpc_code e = Some DEADLINE_EXCEEDED \<or> rpc_code e = Some UNAVAILABLE)"
proof (cases e)
  case (ServiceError c d)
  then show ?thesis
  proof (cases c)
    case (Some st)
    with ServiceError show ?thesis by (cases st) (simp_all add: mapRpcError_def)
  qed (simp add: mapRpcError_def)
qed (simp_all add: mapRpcError_def)



end
