(* ===== verification/Json.thy ===== *)
theory Json
  imports JsNumber
begin

text \<open>
  JSON values and message bodies, as the code builds and reads them: property access and
  object spread on a parsed value of any type, \<open>JSON.stringify\<close> and \<open>JSON.parse\<close>, base64 and
  the ISO text of a date. A message body is kept as what \<open>JSON.parse\<close> makes of it: the value,
  or the bytes where they are no JSON text.
\<close>

section \<open>Values\<close>

datatype json =
    JNull
  | JBool bool
  | JNum jsnum
  | JStr string
  | JArr "json list"
  | JObj "(string \<times> json) list"

text \<open>
  Writing a property of an object, and a list of them in turn, as an object literal with
  spreads does: a property that is there keeps its place.
\<close>

fun obj_set :: "(string \<times> json) list \<Rightarrow> string \<Rightarrow> json \<Rightarrow> (string \<times> json) list" where
  "obj_set [] k v = [(k, v)]"
| "obj_set ((k', v') # xs) k v = (if k' = k then (k, v) # xs else (k', v') # obj_set xs k v)"

definition obj_assign ::
  "(string \<times> json) list \<Rightarrow> (string \<times> json) list \<Rightarrow> (string \<times> json) list" where
  "obj_assign xs ys = foldl (\<lambda>acc (k, v). obj_set acc k v) xs ys"

text \<open>
  \<open>{...v}\<close>: the own properties of an object, the indices of an array or a string, nothing
  for a number or a boolean.
\<close>

definition spread :: "json \<Rightarrow> (string \<times> json) list" where
  "spread v =
     (case v of
        JObj ps \<Rightarrow> ps
      | JArr vs \<Rightarrow> zip (map string_of_nat [0..<length vs]) vs
      | JStr s \<Rightarrow> zip (map string_of_nat [0..<length s]) (map (\<lambda>c. JStr [c]) s)
      | _ \<Rightarrow> [])"

text \<open>
  \<open>v.name\<close> for the property names the code reads, none of which a number, boolean, string or
  array has; reading a property of \<open>null\<close> throws.
\<close>

definition get_property :: "json \<Rightarrow> string \<Rightarrow> exn + json option" where
  "get_property v name =
     (case v of
        JNull \<Rightarrow> Inl (TypeError (''Cannot read properties of null (reading '' @ [CHR 0x27] @ name @ [CHR 0x27] @ '')''))
      | JObj ps \<Rightarrow> Inr (map_of ps name)
      | _ \<Rightarrow> Inr None)"

text \<open>The same for a value that is not \<open>null\<close>.\<close>

definition property :: "json \<Rightarrow> string \<Rightarrow> json option" where
  "property v name = (case v of JObj ps \<Rightarrow> map_of ps name | _ \<Rightarrow> None)"

lemma get_property_simps [simp]:
  "v \<noteq> JNull \<Longrightarrow> get_property v name = Inr (property v name)"
  by (cases v) (simp_all add: get_property_def property_def)

lemma obj_set_lookup [simp]: "map_of (obj_set ps k v) = (map_of ps)(k \<mapsto> v)"
  by (induction ps k v rule: obj_set.induct) (auto simp: fun_eq_iff)

lemma obj_assign_simps [simp]:
  "obj_assign ps [] = ps"
  "obj_assign ps ((k, v) # qs) = obj_assign (obj_set ps k v) qs"
  by (simp_all add: obj_assign_def)

lemma property_obj [simp]: "property (JObj ps) name = map_of ps name"
  by (simp add: property_def)

lemma map_of_spread_obj: "v \<noteq> JNull \<Longrightarrow> property v name = Some x \<Longrightarrow> map_of (spread v) name = Some x"
  by (cases v) (simp_all add: property_def spread_def)

section \<open>Texts\<close>

text \<open>What a text written by \<open>JSON.stringify\<close> parses to: numbers that are not finite become null.\<close>

fun json_written :: "json \<Rightarrow> json" where
  "json_written (JNum x) = (if isFinite x then JNum x else JNull)"
| "json_written (JArr vs) = JArr (map json_written vs)"
| "json_written (JObj ps) = JObj (map (\<lambda>(k, v). (k, json_written v)) ps)"
| "json_written v = v"

datatype content = JsonText json | OtherBytes string

definition stringify :: "json \<Rightarrow> content" where
  "stringify v = JsonText (json_written v)"

text \<open>\<open>JSON.parse(content.toString('utf-8'))\<close>, which throws a \<open>SyntaxError\<close> (\<open>None\<close>).\<close>

definition parse :: "content \<Rightarrow> json option" where
  "parse c = (case c of JsonText v \<Rightarrow> Some v | OtherBytes bs \<Rightarrow> None)"

lemma json_written_twice [simp]: "json_written (json_written v) = json_written v"
  by (induction v rule: json_written.induct) (auto simp: comp_def)

lemma parse_stringify [simp]: "parse (stringify v) = Some (json_written v)"
  by (simp add: parse_def stringify_def)

lemma property_written:
  "property (json_written v) name = map_option json_written (property v name)"
proof (cases v)
  case (JObj ps)
  have "map_of (map (\<lambda>(k, v). (k, json_written v)) ps) name = map_option json_written (map_of ps name)"
    by (induction ps) auto
  with JObj show ?thesis by simp
qed (simp_all add: property_def)

lemma json_written_null [simp]: "json_written (JObj ps) \<noteq> JNull"
  by simp

section \<open>Base64\<close>

definition base64_digit :: "nat \<Rightarrow> char" where
  "base64_digit n =
     (if n < 26 then char_of (65 + n)
      else if n < 52 then char_of (97 + (n - 26))
      else if n < 62 then char_of (48 + (n - 52))
      else if n = 62 then CHR ''+'' else CHR ''/'')"

fun base64 :: "string \<Rightarrow> string" where
  "base64 (a # b # c # xs) =
     (let n = of_char a * 65536 + of_char b * 256 + of_char c :: nat
      in [base64_digit (n div 262144), base64_digit (n div 4096 mod 64),
          base64_digit (n div 64 mod 64), base64_digit (n mod 64)] @ base64 xs)"
| "base64 [a, b] =
     (let n = of_char a * 65536 + of_char b * 256 :: nat
      in [base64_digit (n div 262144), base64_digit (n div 4096 mod 64),
          base64_digit (n div 64 mod 64), CHR ''=''])"
| "base64 [a] =
     (let n = of_char a * 65536 :: nat
      in [base64_digit (n div 262144), base64_digit (n div 4096 mod 64), CHR ''='', CHR ''=''])"
| "base64 [] = []"

section \<open>Dates\<close>

text \<open>
  A date is its time value in milliseconds. \<open>toISOString\<close> throws for a time value outside the
  range of dates; the civil date of a day number counts eras of 400 years from 1 March.
\<close>

definition pad :: "nat \<Rightarrow> nat \<Rightarrow> string" where
  "pad w n = (let s = string_of_nat n in replicate (w - length s) (CHR ''0'') @ s)"

definition civil_date :: "int \<Rightarrow> int \<times> nat \<times> nat" where
  "civil_date days =
     (let z = days + 719468;
          era = z div 146097;
          doe = z mod 146097;
          yoe = (doe - doe div 1460 + doe div 36524 - doe div 146096) div 365;
          doy = doe - (365 * yoe + yoe div 4 - yoe div 100);
          mp = (5 * doy + 2) div 153;
          d = doy - (153 * mp + 2) div 5 + 1;
          m = (if mp < 10 then mp + 3 else mp - 9);
          y = yoe + era * 400 + (if m \<le> 2 then 1 else 0)
      in (y, nat m, nat d))"

definition iso_year :: "int \<Rightarrow> string" where
  "iso_year y =
     (if 0 \<le> y \<and> y \<le> 9999 then pad 4 (nat y)
      else if y < 0 then ''-'' @ pad 6 (nat (- y)) else ''+'' @ pad 6 (nat y))"

definition toISOString :: "int \<Rightarrow> exn + string" where
  "toISOString t =
     (if \<bar>t\<bar> > 8640000000000000 then Inl (JsError ''Invalid time value'')
      else
        (let days = t div 86400000; ms = t mod 86400000; (y, m, d) = civil_date days in
         Inr (iso_year y @ ''-'' @ pad 2 m @ ''-'' @ pad 2 d @ ''T'' @
              pad 2 (nat (ms div 3600000)) @ '':'' @ pad 2 (nat (ms div 60000 mod 60)) @ '':'' @
              pad 2 (nat (ms div 1000 mod 60)) @ ''.'' @ pad 3 (nat (ms mod 1000)) @ ''Z'')))"

lemma toISOString_ok: "\<bar>t\<bar> \<le> 8640000000000000 \<Longrightarrow> \<exists>s. toISOString t = Inr s"
  by (simp add: toISOString_def Let_def split: prod.splits)

end
