(* ===== verification/Schema.thy ===== *)
theory Schema
  imports Json
begin

text \<open>
  The rows of the database, one record per entity, and the tables. A column that may be null
  is an option, a timestamp its time in milliseconds, an identifier its text; a numeric column
  is the number its text stands for. A row loaded with the relation \<open>items\<close> is the record
  extension \<open>order\<close>. \<open>schema_ok\<close> are the constraints the migrations declare that the
  components rely on.
\<close>

section \<open>Rows\<close>

datatype order_status = CREATED | PENDING | PROCESSED | PAID | CANCELLED

record user_row =
  u_id :: string
  u_email :: string
  u_passwordHash :: "string option"
  u_roles :: "string list"
  u_scopes :: "string list"
  u_avatarFileId :: "string option"
  u_createdAt :: int
  u_updatedAt :: int

record product_row =
  p_id :: string
  p_name :: string
  p_sku :: string
  p_description :: "string option"
  p_price :: jsnum
  p_stock :: int
  p_isActive :: bool
  p_imageFileId :: "string option"
  p_createdAt :: int
  p_updatedAt :: int

record order_item =
  oi_id :: string
  oi_orderId :: string
  oi_productId :: string
  oi_quantity :: int
  oi_priceSnapshot :: jsnum
  oi_createdAt :: int
  oi_updatedAt :: int

record order_row =
  o_id :: string
  o_userId :: string
  o_status :: order_status
  o_idempotencyKey :: "string option"
  o_createdAt :: int
  o_updatedAt :: "int option"
  o_processedAt :: "int option"

record order = order_row +
  o_items :: "order_item list"

record processed_message =
  pm_messageId :: string
  pm_orderId :: string
  pm_handler :: "string option"
  pm_processedAt :: int

datatype file_status = FileStatus_PENDING | FileStatus_READY

datatype file_visibility = FileVisibility_PRIVATE | FileVisibility_PUBLIC

record file_record =
  f_id :: string
  f_ownerId :: string
  f_entityId :: "string option"
  f_key :: string
  f_contentType :: string
  f_size :: int
  f_status :: file_status
  f_visibility :: file_visibility
  f_createdAt :: int
  f_updatedAt :: int

text \<open>The user a verified token stands for (\<^verbatim>\<open>src/auth/types.ts\<close>).\<close>

record auth_user =
  au_sub :: string
  au_email :: string
  au_roles :: "string list"
  au_scopes :: "string list"

section \<open>Tables\<close>

record tables =
  t_users :: "string \<rightharpoonup> user_row"
  t_products :: "string \<rightharpoonup> product_row"
  t_orders :: "string \<rightharpoonup> order_row"
  t_items :: "string \<rightharpoonup> order_item"
  t_processed :: "string \<rightharpoonup> processed_message"
  t_files :: "string \<rightharpoonup> file_record"

definition empty_tables :: tables where
  "empty_tables =
     \<lparr>t_users = Map.empty, t_products = Map.empty, t_orders = Map.empty, t_items = Map.empty,
      t_processed = Map.empty, t_files = Map.empty\<rparr>"

text \<open>The items of an order, and a row loaded with them.\<close>

definition items_of :: "tables \<Rightarrow> string \<Rightarrow> order_item set" where
  "items_of T oid = {it \<in> ran (t_items T). oi_orderId it = oid}"

definition loaded :: "tables \<Rightarrow> order \<Rightarrow> bool" where
  "loaded T o' \<longleftrightarrow>
     t_orders T (o_id o') = Some (order_row.truncate o') \<and>
     set (o_items o') = items_of T (o_id o') \<and> distinct (o_items o')"

text \<open>
  Keys are the rows' own identifiers, idempotency keys are unique, and foreign keys hold:
  orders to users, items and processed messages to orders.
\<close>

definition unique_keys :: "tables \<Rightarrow> bool" where
  "unique_keys T \<longleftrightarrow>
     (\<forall>i j r q k. t_orders T i = Some r \<longrightarrow> t_orders T j = Some q \<longrightarrow>
        o_idempotencyKey r = Some k \<longrightarrow> o_idempotencyKey q = Some k \<longrightarrow> i = j)"

definition own_ids :: "tables \<Rightarrow> bool" where
  "own_ids T \<longleftrightarrow>
     (\<forall>i r. t_orders T i = Some r \<longrightarrow> o_id r = i) \<and>
     (\<forall>i r. t_products T i = Some r \<longrightarrow> p_id r = i) \<and>
     (\<forall>i r. t_items T i = Some r \<longrightarrow> oi_id r = i)"

definition foreign_keys :: "tables \<Rightarrow> bool" where
  "foreign_keys T \<longleftrightarrow>
     (\<forall>i r. t_orders T i = Some r \<longrightarrow> t_users T (o_userId r) \<noteq> None) \<and>
     (\<forall>i r. t_items T i = Some r \<longrightarrow> t_orders T (oi_orderId r) \<noteq> None) \<and>
     (\<forall>i r. t_processed T i = Some r \<longrightarrow> t_orders T (pm_orderId r) \<noteq> None)"

definition schema_ok :: "tables \<Rightarrow> bool" where
  "schema_ok T \<longleftrightarrow> own_ids T \<and> unique_keys T \<and> foreign_keys T"

text \<open>No product has a negative stock; the schema does not say so, the code keeps it.\<close>

definition stock_ok :: "tables \<Rightarrow> bool" where
  "stock_ok T \<longleftrightarrow> (\<forall>i r. t_products T i = Some r \<longrightarrow> 0 \<le> p_stock r)"

definition stock :: "tables \<Rightarrow> string \<Rightarrow> int" where
  "stock T pid = (case t_products T pid of None \<Rightarrow> 0 | Some p \<Rightarrow> p_stock p)"

lemma schema_ok_empty: "schema_ok empty_tables"
  by (simp add: schema_ok_def own_ids_def unique_keys_def foreign_keys_def empty_tables_def)

lemma own_ids_order: "schema_ok T \<Longrightarrow> t_orders T i = Some r \<Longrightarrow> o_id r = i"
  by (simp add: schema_ok_def own_ids_def)

lemma own_ids_product: "schema_ok T \<Longrightarrow> t_products T i = Some r \<Longrightarrow> p_id r = i"
  by (simp add: schema_ok_def own_ids_def)

lemma truncate_simps [simp]:
  "o_id (order_row.truncate r) = o_id r"
  "o_userId (order_row.truncate r) = o_userId r"
  "o_status (order_row.truncate r) = o_status r"
  "o_idempotencyKey (order_row.truncate r) = o_idempotencyKey r"
  "o_createdAt (order_row.truncate r) = o_createdAt r"
  "o_processedAt (order_row.truncate r) = o_processedAt r"
  by (simp_all add: order_row.truncate_def)

end
