(* ===== verification/Store.thy ===== *)
theory Store
  imports Schema
begin

text \<open>
  The database as the orders service calls it: TypeORM repositories and a query runner over
  PostgreSQL, neither of which is part of the repository. The operations are the fields of a
  record over an opaque state, and what the service relies on is the locale
  \<open>relational_store\<close>: an operation that fails leaves the tables alone, one that resolves has
  the effect documented for it, a rollback restores what the transaction started from.
  \<open>reliable_store\<close> adds that operations fail only where a constraint refuses the row.
  A reference store over association lists is an interpretation of both.
\<close>

section \<open>Operations\<close>

text \<open>
  A connection is idle, in a transaction, or in a transaction in which a statement failed;
  the last two carry what the tables were when the transaction started.
\<close>

datatype 'a txn = Idle | Active 'a | Aborted 'a

record new_order =
  no_userId :: string
  no_status :: order_status
  no_idempotencyKey :: "string option"

record new_item =
  ni_orderId :: string
  ni_productId :: string
  ni_quantity :: int
  ni_priceSnapshot :: jsnum

text \<open>An optional input that tells an absent value from an explicit null.\<close>

datatype 'a js_input = Undefined | Null | Value 'a

text \<open>A column that may be null, and a property given for it.\<close>

definition given :: "'a js_input \<Rightarrow> 'a option \<Rightarrow> 'a option" where
  "given v d = (case v of Undefined \<Rightarrow> d | Null \<Rightarrow> None | Value x \<Rightarrow> Some x)"

record order_query =
  q_status :: "order_status option"
  q_dateFrom :: "int option"
  q_dateTo :: "int option"
  q_take :: "int js_input"
  q_skip :: "int js_input"

datatype process_outcome = Processed | AlreadyProcessed | Deduplicated

record process_tx_result =
  ptr_deduplicated :: bool
  ptr_order :: "order_row option"
  ptr_statusChanged :: bool

record 'd store =
  repo_findOrderByKey :: "string \<Rightarrow> ('d, order option) async"
  repo_findUser :: "string \<Rightarrow> ('d, user_row option) async"
  repo_findOrder :: "string \<Rightarrow> ('d, order option) async"
  repo_findOrderRow :: "string \<Rightarrow> ('d, order_row option) async"
  repo_findOrders :: "('d, order list) async"
  repo_saveOrder :: "order_row \<Rightarrow> ('d, order_row) async"
  repo_deleteOrder :: "string \<Rightarrow> ('d, nat option) async"
  repo_getCount :: "order_query \<Rightarrow> ('d, nat) async"
  repo_getMany :: "order_query \<Rightarrow> ('d, order list) async"
  qr_connect :: "('d, unit) async"
  qr_startTransaction :: "('d, unit) async"
  qr_commitTransaction :: "('d, unit) async"
  qr_rollbackTransaction :: "('d, unit) async"
  qr_release :: "('d, unit) async"
  qr_insertOrder :: "new_order \<Rightarrow> ('d, order_row) async"
  qr_findProduct :: "string \<Rightarrow> ('d, product_row option) async"
  qr_saveProduct :: "product_row \<Rightarrow> ('d, product_row) async"
  qr_insertItem :: "new_item \<Rightarrow> ('d, order_item) async"
  qr_findOrder :: "string \<Rightarrow> ('d, order option) async"
  ds_transaction :: "('d, process_tx_result) async \<Rightarrow> ('d, process_tx_result) async"
  tx_insertProcessed :: "json option \<Rightarrow> json option \<Rightarrow> string \<Rightarrow> ('d, unit) async"
  tx_findOrder :: "json option \<Rightarrow> ('d, order_row option) async"
  tx_saveOrder :: "order_row \<Rightarrow> ('d, order_row) async"

text \<open>SQLSTATE \<open>23505\<close>, a unique violation (\<open>isUniqueViolation\<close> of the orders service).\<close>

fun isUniqueViolation :: "exn \<Rightarrow> bool" where
  "isUniqueViolation (DbError c m) = (c = Some ''23505'')"
| "isUniqueViolation _ = False"

section \<open>Effects\<close>

text \<open>One relation per operation: the tables before, the value it resolves to, the tables after.\<close>

definition reads :: "(tables \<Rightarrow> 'a \<Rightarrow> bool) \<Rightarrow> tables \<Rightarrow> 'a \<Rightarrow> tables \<Rightarrow> bool" where
  "reads P T x T' \<longleftrightarrow> T' = T \<and> P T x"

definition key_free :: "tables \<Rightarrow> string option \<Rightarrow> string \<Rightarrow> bool" where
  "key_free T key oid \<longleftrightarrow>
     (\<forall>k i r. key = Some k \<longrightarrow> t_orders T i = Some r \<longrightarrow> i \<noteq> oid \<longrightarrow> o_idempotencyKey r \<noteq> Some k)"

definition by_key :: "string \<Rightarrow> tables \<Rightarrow> order option \<Rightarrow> bool" where
  "by_key k T v \<longleftrightarrow>
     (case v of
        None \<Rightarrow> \<forall>i r. t_orders T i = Some r \<longrightarrow> o_idempotencyKey r \<noteq> Some k
      | Some x \<Rightarrow> loaded T x \<and> o_idempotencyKey x = Some k)"

definition by_id :: "string \<Rightarrow> tables \<Rightarrow> order option \<Rightarrow> bool" where
  "by_id oid T v \<longleftrightarrow>
     (case v of
        None \<Rightarrow> t_orders T oid = None
      | Some x \<Rightarrow> loaded T x \<and> o_id x = oid)"

definition orders_added :: "new_order \<Rightarrow> tables \<Rightarrow> order_row \<Rightarrow> tables \<Rightarrow> bool" where
  "orders_added n T r T' \<longleftrightarrow>
     t_orders T (o_id r) = None \<and> o_userId r = no_userId n \<and> o_status r = no_status n \<and>
     o_idempotencyKey r = no_idempotencyKey n \<and> o_processedAt r = None \<and>
     key_free T (no_idempotencyKey n) (o_id r) \<and> t_users T (no_userId n) \<noteq> None \<and>
     T' = T\<lparr>t_orders := (t_orders T)(o_id r \<mapsto> r)\<rparr>"

definition product_saved :: "product_row \<Rightarrow> tables \<Rightarrow> product_row \<Rightarrow> tables \<Rightarrow> bool" where
  "product_saved p T p' T' \<longleftrightarrow>
     (\<exists>u. p' = p\<lparr>p_updatedAt := u\<rparr>) \<and>
     T' = T\<lparr>t_products := (t_products T)(p_id p \<mapsto> p')\<rparr>"

text \<open>The stored price is what the column's precision makes of it.\<close>

definition item_added :: "new_item \<Rightarrow> tables \<Rightarrow> order_item \<Rightarrow> tables \<Rightarrow> bool" where
  "item_added n T it T' \<longleftrightarrow>
     t_items T (oi_id it) = None \<and> oi_orderId it = ni_orderId n \<and>
     oi_productId it = ni_productId n \<and> oi_quantity it = ni_quantity n \<and>
     t_orders T (ni_orderId n) \<noteq> None \<and>
     (\<exists>q. T' = T\<lparr>t_items := (t_items T)(oi_id it \<mapsto> it\<lparr>oi_priceSnapshot := q\<rparr>)\<rparr>)"

definition order_saved :: "order_row \<Rightarrow> tables \<Rightarrow> order_row \<Rightarrow> tables \<Rightarrow> bool" where
  "order_saved r T r' T' \<longleftrightarrow>
     (t_orders T (o_id r) \<noteq> None \<longrightarrow>
        (\<exists>u. r' = r\<lparr>o_updatedAt := u\<rparr>) \<and> key_free T (o_idempotencyKey r) (o_id r) \<and>
        T' = T\<lparr>t_orders := (t_orders T)(o_id r \<mapsto> r')\<rparr>)"

text \<open>Deleting an order deletes its items and processed messages with it.\<close>

definition without_order :: "string \<Rightarrow> tables \<Rightarrow> tables" where
  "without_order oid T =
     T\<lparr>t_orders := (t_orders T)(oid := None),
       t_items := (\<lambda>i. case t_items T i of None \<Rightarrow> None
                    | Some it \<Rightarrow> if oi_orderId it = oid then None else Some it),
       t_processed := (\<lambda>i. case t_processed T i of None \<Rightarrow> None
                    | Some pm \<Rightarrow> if pm_orderId pm = oid then None else Some pm)\<rparr>"

definition order_deleted :: "string \<Rightarrow> tables \<Rightarrow> nat option \<Rightarrow> tables \<Rightarrow> bool" where
  "order_deleted oid T n T' \<longleftrightarrow>
     (if t_orders T oid = None then n = Some 0 \<and> T' = T
      else n = Some 1 \<and> T' = without_order oid T)"

definition processed_added ::
  "json option \<Rightarrow> json option \<Rightarrow> string \<Rightarrow> tables \<Rightarrow> unit \<Rightarrow> tables \<Rightarrow> bool" where
  "processed_added mid oid h T u T' \<longleftrightarrow>
     (\<exists>m i ts. mid = Some (JStr m) \<and> oid = Some (JStr i) \<and>
        t_processed T m = None \<and> t_orders T i \<noteq> None \<and>
        T' = T\<lparr>t_processed := (t_processed T)(m \<mapsto>
          \<lparr>pm_messageId = m, pm_orderId = i, pm_handler = Some h, pm_processedAt = ts\<rparr>)\<rparr>)"

text \<open>The orders a query is about, and the page of them it returns.\<close>

definition query_matches :: "order_query \<Rightarrow> order_row \<Rightarrow> bool" where
  "query_matches q r \<longleftrightarrow>
     (\<forall>st. q_status q = Some st \<longrightarrow> o_status r = st) \<and>
     (\<forall>d. q_dateFrom q = Some d \<longrightarrow> d \<le> o_createdAt r) \<and>
     (\<forall>d. q_dateTo q = Some d \<longrightarrow> o_createdAt r \<le> d)"

definition matching :: "order_query \<Rightarrow> tables \<Rightarrow> order_row set" where
  "matching q T = {r \<in> ran (t_orders T). query_matches q r}"

definition input_or :: "'a js_input \<Rightarrow> 'a \<Rightarrow> 'a" where
  "input_or v d = (case v of Value x \<Rightarrow> x | _ \<Rightarrow> d)"

definition page_of :: "order_query \<Rightarrow> 'a list \<Rightarrow> 'a list" where
  "page_of q xs =
     (case q_take q of Value n \<Rightarrow> take (nat n) | _ \<Rightarrow> id) (drop (nat (input_or (q_skip q) 0)) xs)"

definition order_page :: "order_query \<Rightarrow> tables \<Rightarrow> order list \<Rightarrow> bool" where
  "order_page q T nodes \<longleftrightarrow>
     (\<exists>xs. nodes = page_of q xs \<and> distinct (map o_id xs) \<and> (\<forall>x \<in> set xs. loaded T x) \<and>
        order_row.truncate ` set xs = matching q T \<and>
        sorted_wrt (\<lambda>x y. o_createdAt y \<le> o_createdAt x) xs)"

section \<open>The contract\<close>

definition lost :: "'a txn \<Rightarrow> 'a txn \<Rightarrow> bool" where
  "lost a b \<longleftrightarrow> b = a \<or> (\<exists>S. a = Active S \<and> b = Aborted S)"

definition op_spec ::
  "('d \<Rightarrow> tables) \<Rightarrow> ('d \<Rightarrow> tables txn) \<Rightarrow> (tables txn \<Rightarrow> bool) \<Rightarrow> ('d, 'a) async \<Rightarrow>
   (tables \<Rightarrow> 'a \<Rightarrow> tables \<Rightarrow> bool) \<Rightarrow> bool" where
  "op_spec tabs tx ok m R \<longleftrightarrow>
     (\<forall>s. ok (tx s) \<longrightarrow>
        (case m s of
           (Inr x, t) \<Rightarrow> R (tabs s) x (tabs t) \<and> tx t = tx s
         | (Inl e, t) \<Rightarrow> tabs t = tabs s \<and> lost (tx s) (tx t)))"

definition is_active :: "'a txn \<Rightarrow> bool" where
  "is_active v = (case v of Active S \<Rightarrow> True | _ \<Rightarrow> False)"

definition committed :: "('d \<Rightarrow> tables) \<Rightarrow> ('d \<Rightarrow> tables txn) \<Rightarrow> 'd \<Rightarrow> tables" where
  "committed tabs tx s = (case tx s of Aborted S \<Rightarrow> S | _ \<Rightarrow> tabs s)"

text \<open>Opening a transaction: what the first statement of it sees.\<close>

definition opened :: "('d \<Rightarrow> tables) \<Rightarrow> ('d \<Rightarrow> tables txn) \<Rightarrow> 'd \<Rightarrow> 'd \<Rightarrow> bool" where
  "opened tabs tx s s1 \<longleftrightarrow> tabs s1 = tabs s \<and> tx s1 = Active (tabs s)"

locale relational_store =
  fixes db :: "'d store" and tabs :: "'d \<Rightarrow> tables" and tx :: "'d \<Rightarrow> tables txn"
  assumes findOrderByKey: "op_spec tabs tx ((=) Idle) (repo_findOrderByKey db k) (reads (by_key k))"
    and findUser: "op_spec tabs tx ((=) Idle) (repo_findUser db uid)
      (reads (\<lambda>T v. v = t_users T uid))"
    and findOrder: "op_spec tabs tx ((=) Idle) (repo_findOrder db oid) (reads (by_id oid))"
    and findOrderRow: "op_spec tabs tx ((=) Idle) (repo_findOrderRow db oid)
      (reads (\<lambda>T v. v = t_orders T oid))"
    and findOrders: "op_spec tabs tx ((=) Idle) (repo_findOrders db)
      (reads (\<lambda>T v. \<forall>x \<in> set v. loaded T x))"
    and saveOrder: "op_spec tabs tx ((=) Idle) (repo_saveOrder db r) (order_saved r)"
    and deleteOrder: "op_spec tabs tx ((=) Idle) (repo_deleteOrder db oid) (order_deleted oid)"
    and getCount: "op_spec tabs tx ((=) Idle) (repo_getCount db q)
      (reads (\<lambda>T n. n = card (matching q T)))"
    and getMany: "op_spec tabs tx ((=) Idle) (repo_getMany db q) (reads (order_page q))"
    and connect: "op_spec tabs tx ((=) Idle) (qr_connect db) (reads (\<lambda>T u. True))"
    and startTransaction: "tx s = Idle \<Longrightarrow>
      (case qr_startTransaction db s of
         (Inr u, t) \<Rightarrow> opened tabs tx s t
       | (Inl e, t) \<Rightarrow> tabs t = tabs s \<and> tx t = Idle)"
    and commitTransaction: "tx s = Active S \<Longrightarrow>
      (case qr_commitTransaction db s of
         (Inr u, t) \<Rightarrow> tabs t = tabs s \<and> tx t = Idle
       | (Inl e, t) \<Rightarrow> tabs t = tabs s \<and> lost (tx s) (tx t))"
    and rollbackTransaction: "lost (Active S) (tx s) \<Longrightarrow>
      tabs (snd (qr_rollbackTransaction db s)) = S \<and> tx (snd (qr_rollbackTransaction db s)) = Idle"
    and release: "op_spec tabs tx ((=) Idle) (qr_release db) (reads (\<lambda>T u. True))"
    and release_resolves: "tx s = Idle \<Longrightarrow> fst (qr_release db s) = Inr ()"
    and insertOrder: "op_spec tabs tx is_active (qr_insertOrder db n) (orders_added n)"
    and findProduct: "op_spec tabs tx is_active (qr_findProduct db pid)
      (reads (\<lambda>T v. v = t_products T pid))"
    and saveProduct: "op_spec tabs tx is_active (qr_saveProduct db p) (product_saved p)"
    and insertItem: "op_spec tabs tx is_active (qr_insertItem db ni) (item_added ni)"
    and tx_reloadOrder: "op_spec tabs tx is_active (qr_findOrder db oid) (reads (by_id oid))"
    and transaction: "tx s = Idle \<Longrightarrow>
      (case ds_transaction db m s of
         (Inr x, t) \<Rightarrow> \<exists>s1 s2. opened tabs tx s s1 \<and> m s1 = (Inr x, s2) \<and>
           tabs t = committed tabs tx s2 \<and> tx t = Idle
       | (Inl e, t) \<Rightarrow> tabs t = tabs s \<and> tx t = Idle)"
    and insertProcessed: "op_spec tabs tx is_active (tx_insertProcessed db mid roid h)
      (processed_added mid roid h)"
    and insertProcessed_unique: "is_active (tx s) \<Longrightarrow>
      tx_insertProcessed db mid roid h s = (Inl e, t) \<Longrightarrow> isUniqueViolation e \<Longrightarrow>
      \<exists>m'. mid = Some (JStr m') \<and> t_processed (tabs s) m' \<noteq> None"
    and tx_findOrder: "op_spec tabs tx is_active (tx_findOrder db (Some (JStr oid)))
      (reads (\<lambda>T v. v = t_orders T oid))"
    and tx_saveOrder: "op_spec tabs tx is_active (tx_saveOrder db r) (order_saved r)"

section \<open>A store that fails only on constraints\<close>

definition works :: "('d, 'a) async \<Rightarrow> 'd \<Rightarrow> bool" where
  "works m s \<longleftrightarrow> (\<exists>x t. m s = (Inr x, t))"

definition refused :: "string \<Rightarrow> ('d, 'a) async \<Rightarrow> 'd \<Rightarrow> bool" where
  "refused code m s \<longleftrightarrow> (\<exists>msg t. m s = (Inl (DbError (Some code) msg), t))"

definition key_unused :: "tables \<Rightarrow> string option \<Rightarrow> bool" where
  "key_unused T key \<longleftrightarrow>
     (\<forall>k i r. key = Some k \<longrightarrow> t_orders T i = Some r \<longrightarrow> o_idempotencyKey r \<noteq> Some k)"

text \<open>
  SQLSTATE \<open>23505\<close> is a unique violation, \<open>23503\<close> a foreign key violation. \<open>fits q\<close>: the
  price column takes the number \<open>q\<close>.
\<close>

locale reliable_store = relational_store db tabs tx
  for db :: "'d store" and tabs :: "'d \<Rightarrow> tables" and tx :: "'d \<Rightarrow> tables txn" +
  fixes fits :: "jsnum \<Rightarrow> bool"
  assumes works_findOrderByKey: "tx s = Idle \<Longrightarrow> works (repo_findOrderByKey db k) s"
    and works_findUser: "tx s = Idle \<Longrightarrow> works (repo_findUser db uid) s"
    and works_findOrderRow: "tx s = Idle \<Longrightarrow> works (repo_findOrderRow db oid) s"
    and works_saveOrder: "tx s = Idle \<Longrightarrow> t_orders (tabs s) (o_id r) \<noteq> None \<Longrightarrow>
      key_free (tabs s) (o_idempotencyKey r) (o_id r) \<Longrightarrow> works (repo_saveOrder db r) s"
    and works_getCount: "tx s = Idle \<Longrightarrow> works (repo_getCount db q) s"
    and works_getMany: "tx s = Idle \<Longrightarrow> works (repo_getMany db q) s"
    and works_connect: "tx s = Idle \<Longrightarrow> works (qr_connect db) s"
    and works_start: "tx s = Idle \<Longrightarrow> works (qr_startTransaction db) s"
    and works_commit: "tx s = Active S \<Longrightarrow> works (qr_commitTransaction db) s"
    and works_rollback: "lost (Active S) (tx s) \<Longrightarrow> works (qr_rollbackTransaction db) s"
    and works_insertOrder: "tx s = Active S \<Longrightarrow> t_users (tabs s) (no_userId n) \<noteq> None \<Longrightarrow>
      key_unused (tabs s) (no_idempotencyKey n) \<Longrightarrow> works (qr_insertOrder db n) s"
    and insertOrder_duplicate: "tx s = Active S \<Longrightarrow> t_users (tabs s) (no_userId n) \<noteq> None \<Longrightarrow>
      \<not> key_unused (tabs s) (no_idempotencyKey n) \<Longrightarrow> refused ''23505'' (qr_insertOrder db n) s"
    and works_findProduct: "tx s = Active S \<Longrightarrow> works (qr_findProduct db pid) s"
    and works_saveProduct: "tx s = Active S \<Longrightarrow> t_products (tabs s) (p_id p) \<noteq> None \<Longrightarrow>
      works (qr_saveProduct db p) s"
    and works_insertItem: "tx s = Active S \<Longrightarrow> t_orders (tabs s) (ni_orderId ni) \<noteq> None \<Longrightarrow>
      t_products (tabs s) (ni_productId ni) \<noteq> None \<Longrightarrow> fits (ni_priceSnapshot ni) \<Longrightarrow>
      works (qr_insertItem db ni) s"
    and works_reloadOrder: "tx s = Active S \<Longrightarrow> works (qr_findOrder db oid) s"
    and transaction_runs: "tx s = Idle \<Longrightarrow>
      \<exists>s1. opened tabs tx s s1 \<and> fst (ds_transaction db m s) = fst (m s1)"
    and works_insertProcessed: "tx s = Active S \<Longrightarrow> t_processed (tabs s) m' = None \<Longrightarrow>
      t_orders (tabs s) oid \<noteq> None \<Longrightarrow>
      works (tx_insertProcessed db (Some (JStr m')) (Some (JStr oid)) h) s"
    and insertProcessed_duplicate: "tx s = Active S \<Longrightarrow> t_processed (tabs s) m' \<noteq> None \<Longrightarrow>
      refused ''23505'' (tx_insertProcessed db (Some (JStr m')) (Some (JStr oid)) h) s"
    and insertProcessed_orphan: "tx s = Active S \<Longrightarrow> t_processed (tabs s) m' = None \<Longrightarrow>
      t_orders (tabs s) oid = None \<Longrightarrow>
      refused ''23503'' (tx_insertProcessed db (Some (JStr m')) (Some (JStr oid)) h) s"
    and works_tx_findOrder: "tx s = Active S \<Longrightarrow> works (tx_findOrder db (Some (JStr oid))) s"
    and works_tx_saveOrder: "tx s = Active S \<Longrightarrow> t_orders (tabs s) (o_id r) \<noteq> None \<Longrightarrow>
      key_free (tabs s) (o_idempotencyKey r) (o_id r) \<Longrightarrow> works (tx_saveOrder db r) s"

section \<open>Using the contract\<close>

lemma op_spec_Inr:
  "op_spec tabs tx ok m R \<Longrightarrow> ok (tx s) \<Longrightarrow> m s = (Inr x, t) \<Longrightarrow> R (tabs s) x (tabs t) \<and> tx t = tx s"
  by (auto simp: op_spec_def dest!: spec [of _ s])

lemma op_spec_Inl:
  "op_spec tabs tx ok m R \<Longrightarrow> ok (tx s) \<Longrightarrow> m s = (Inl e, t) \<Longrightarrow> tabs t = tabs s \<and> lost (tx s) (tx t)"
  by (auto simp: op_spec_def dest!: spec [of _ s])

lemma lost_refl [simp]: "lost a a"
  by (simp add: lost_def)

lemma lost_Idle [simp]: "lost Idle v \<longleftrightarrow> v = Idle"
  by (auto simp: lost_def)

lemma lost_Active: "lost (Active S) v \<longleftrightarrow> v = Active S \<or> v = Aborted S"
  by (auto simp: lost_def)

lemma lost_trans: "lost a b \<Longrightarrow> lost b c \<Longrightarrow> lost a c"
  by (auto simp: lost_def)

lemma is_active_simps [simp]:
  "is_active (Active S)" "\<not> is_active Idle" "\<not> is_active (Aborted S)"
  by (simp_all add: is_active_def)

lemma reads_iff [simp]: "reads P T x T' \<longleftrightarrow> T' = T \<and> P T x"
  by (simp add: reads_def)

text \<open>The same as triples, for a fixed transaction and fixed tables.\<close>

lemma op_spec_triple:
  assumes "op_spec tabs tx ok m R" and "ok v"
  shows "triple (\<lambda>s. tx s = v \<and> P (tabs s)) m
    (\<lambda>x s. tx s = v \<and> (\<exists>T. P T \<and> R T x (tabs s))) (\<lambda>e s. P (tabs s) \<and> lost v (tx s))"
  using op_spec_Inr [OF assms(1)] op_spec_Inl [OF assms(1)] assms(2)
  by (intro tripleI) (metis, metis)

lemma op_spec_reads_triple:
  assumes "op_spec tabs tx ok m (reads R)" and "ok v"
  shows "triple (\<lambda>s. tx s = v \<and> P (tabs s)) m
    (\<lambda>x s. tx s = v \<and> P (tabs s) \<and> R (tabs s) x) (\<lambda>e s. P (tabs s) \<and> lost v (tx s))"
  by (rule triple_post [OF op_spec_triple [OF assms]]) auto

end
