(* ===== verification/OrderEvents.thy ===== *)
theory OrderEvents
  imports Schema
begin

text \<open>
  The order status events (\<^verbatim>\<open>src/orders/orders-events.service.ts\<close>). \<open>publishStatusChanged\<close> pushes
  an event into a subject; the pipeline behind it groups by order, drops an event whose
  version equals the previous one's, throttles each order's events and counts. The operators
  \<open>distinctUntilChanged\<close> and \<open>throttleTime\<close> of rxjs are arguments: step functions over states
  of their own, with the locale \<open>stream_operators\<close> for what they do. The pipeline has one
  subscriber, the gateway, and its events are kept in order in \<open>ev_out\<close>. \<open>ev_in\<close> lists the
  events pushed while it was subscribed, for the statements.
\<close>

section \<open>State\<close>

record status_event =
  se_orderId :: string
  se_status :: order_status
  se_version :: int
  se_ts :: int

record metrics =
  mt_received :: nat
  mt_dedupDropped :: nat
  mt_emitted :: nat

text \<open>
  \<open>distinctUntilChanged(same)\<close>: whether the event passes; \<open>throttleTime(300, {leading,
  trailing})\<close>: what it lets through at once for an event, and when its timer fires.
\<close>

record ('ds, 'th) rx =
  rx_distinct_init :: 'ds
  rx_distinct :: "(status_event \<Rightarrow> status_event \<Rightarrow> bool) \<Rightarrow> status_event \<Rightarrow> 'ds \<Rightarrow> bool \<times> 'ds"
  rx_throttle_init :: 'th
  rx_throttle :: "nat \<Rightarrow> bool \<Rightarrow> bool \<Rightarrow> status_event \<Rightarrow> 'th \<Rightarrow> status_event list \<times> 'th"
  rx_throttle_timer :: "nat \<Rightarrow> bool \<Rightarrow> bool \<Rightarrow> 'th \<Rightarrow> status_event list \<times> 'th"

record ('ds, 'th) group =
  g_lastVersion :: "int option"
  g_distinct :: 'ds
  g_throttle :: 'th

record ('ds, 'th) events_state =
  ev_metrics :: metrics
  ev_completed :: bool
  ev_subscribed :: bool
  ev_groups :: "string \<rightharpoonup> ('ds, 'th) group"
  ev_out :: "status_event list"
  ev_in :: "status_event list"

definition events_init :: "('ds, 'th) events_state" where
  "events_init =
     \<lparr>ev_metrics = \<lparr>mt_received = 0, mt_dedupDropped = 0, mt_emitted = 0\<rparr>, ev_completed = False,
      ev_subscribed = False, ev_groups = Map.empty, ev_out = [], ev_in = []\<rparr>"

section \<open>Operations\<close>

definition same_version :: "status_event \<Rightarrow> status_event \<Rightarrow> bool" where
  "same_version left right = (se_version left = se_version right)"

definition new_group :: "('ds, 'th) rx \<Rightarrow> ('ds, 'th) group" where
  "new_group rx = \<lparr>g_lastVersion = None, g_distinct = rx_distinct_init rx, g_throttle = rx_throttle_init rx\<rparr>"

definition group_of :: "('ds, 'th) rx \<Rightarrow> string \<Rightarrow> ('ds, 'th) events_state \<Rightarrow> ('ds, 'th) group" where
  "group_of rx oid s = (case ev_groups s oid of None \<Rightarrow> new_group rx | Some g \<Rightarrow> g)"

text \<open>The second \<open>tap\<close> and the merged output.\<close>

definition emit :: "status_event list \<Rightarrow> ('ds, 'th) events_state \<Rightarrow> ('ds, 'th) events_state" where
  "emit es s =
     s\<lparr>ev_metrics := (ev_metrics s)\<lparr>mt_emitted := mt_emitted (ev_metrics s) + length es\<rparr>,
       ev_out := ev_out s @ es\<rparr>"

text \<open>One event through its group: the first \<open>tap\<close>, then the operators.\<close>

definition pipeline ::
  "('ds, 'th) rx \<Rightarrow> status_event \<Rightarrow> ('ds, 'th) events_state \<Rightarrow> ('ds, 'th) events_state" where
  "pipeline rx event s =
     (let oid = se_orderId event;
          g = group_of rx oid s;
          m = ev_metrics s;
          m' = (if g_lastVersion g = Some (se_version event)
                then m\<lparr>mt_dedupDropped := mt_dedupDropped m + 1\<rparr> else m);
          (passes, ds) = rx_distinct rx same_version event (g_distinct g);
          (es, th) = (if passes then rx_throttle rx 300 True True event (g_throttle g)
                      else ([], g_throttle g));
          g' = \<lparr>g_lastVersion = Some (se_version event), g_distinct = ds, g_throttle = th\<rparr>
      in emit es (s\<lparr>ev_metrics := m', ev_groups := (ev_groups s)(oid \<mapsto> g'),
                    ev_in := ev_in s @ [event]\<rparr>))"

definition publishStatusChanged ::
  "('ds, 'th) rx \<Rightarrow> status_event \<Rightarrow> ('ds, 'th) events_state \<Rightarrow> ('ds, 'th) events_state" where
  "publishStatusChanged rx event s =
     (let m = ev_metrics s;
          s1 = s\<lparr>ev_metrics := m\<lparr>mt_received := mt_received m + 1\<rparr>\<rparr>
      in if ev_completed s1 \<or> \<not> ev_subscribed s1 then s1 else pipeline rx event s1)"

text \<open>The throttle timer of one order fires.\<close>

definition throttle_timer ::
  "('ds, 'th) rx \<Rightarrow> string \<Rightarrow> ('ds, 'th) events_state \<Rightarrow> ('ds, 'th) events_state" where
  "throttle_timer rx oid s =
     (case ev_groups s oid of
        None \<Rightarrow> s
      | Some g \<Rightarrow>
          (let (es, th) = rx_throttle_timer rx 300 True True (g_throttle g)
           in emit es (s\<lparr>ev_groups := (ev_groups s)(oid \<mapsto> g\<lparr>g_throttle := th\<rparr>)\<rparr>)))"

definition subscribe :: "('ds, 'th) events_state \<Rightarrow> ('ds, 'th) events_state" where
  "subscribe s = s\<lparr>ev_subscribed := True\<rparr>"

definition events_onModuleDestroy :: "('ds, 'th) events_state \<Rightarrow> ('ds, 'th) events_state" where
  "events_onModuleDestroy s = s\<lparr>ev_completed := True\<rparr>"

inductive events_next :: "('ds, 'th) rx \<Rightarrow> ('ds, 'th) events_state \<Rightarrow> ('ds, 'th) events_state \<Rightarrow> bool"
  for rx :: "('ds, 'th) rx" where
  next_publish: "events_next rx s (publishStatusChanged rx event s)"
| next_timer: "events_next rx s (throttle_timer rx oid s)"
| next_subscribe: "events_next rx s (subscribe s)"
| next_destroy: "events_next rx s (events_onModuleDestroy s)"

inductive events_reachable :: "('ds, 'th) rx \<Rightarrow> ('ds, 'th) events_state \<Rightarrow> bool"
  for rx :: "('ds, 'th) rx" where
  reach_init: "events_reachable rx events_init"
| reach_next: "events_reachable rx s \<Longrightarrow> events_next rx s t \<Longrightarrow> events_reachable rx t"

section \<open>The operators\<close>

text \<open>
  \<open>distinctUntilChanged\<close> lets the first event pass and then each one the comparison tells from
  the last that passed; \<open>throttleTime\<close> never invents, repeats or reorders: what it lets through
  and what it still holds is a subsequence of what it held and got.
\<close>

locale stream_operators =
  fixes rx :: "('ds, 'th) rx" and last_passed :: "'ds \<Rightarrow> status_event option"
    and held :: "'th \<Rightarrow> status_event list"
  assumes distinct_init: "last_passed (rx_distinct_init rx) = None"
    and distinct_passes: "fst (rx_distinct rx same e ds) =
      (case last_passed ds of None \<Rightarrow> True | Some p \<Rightarrow> \<not> same p e)"
    and distinct_last: "last_passed (snd (rx_distinct rx same e ds)) =
      (if fst (rx_distinct rx same e ds) then Some e else last_passed ds)"
    and throttle_init: "held (rx_throttle_init rx) = []"
    and throttle_next: "rx_throttle rx d leading trailing e th = (es, th') \<Longrightarrow>
      subseq (es @ held th') (held th @ [e])"
    and throttle_fires: "rx_throttle_timer rx d leading trailing th = (es, th') \<Longrightarrow>
      subseq (es @ held th') (held th)"

text \<open>
  The abstract pipeline: the events of one order with repeated versions dropped, and how many
  the subject dropped in all.
\<close>

definition of_order :: "string \<Rightarrow> status_event list \<Rightarrow> status_event list" where
  "of_order oid es = filter (\<lambda>e. se_orderId e = oid) es"

definition last_version :: "string \<Rightarrow> status_event list \<Rightarrow> int option" where
  "last_version oid es =
     (if of_order oid es = [] then None else Some (se_version (last (of_order oid es))))"

definition repeated :: "status_event list \<Rightarrow> status_event \<Rightarrow> bool" where
  "repeated es e \<longleftrightarrow> last_version (se_orderId e) es = Some (se_version e)"

text \<open>The events kept and the number dropped, the earliest event first.\<close>

definition dedup_step :: "status_event list \<times> status_event list \<times> nat \<Rightarrow> status_event \<Rightarrow>
    status_event list \<times> status_event list \<times> nat" where
  "dedup_step acc e = (case acc of (seen, kept, n) \<Rightarrow>
     if repeated seen e then (seen @ [e], kept, Suc n) else (seen @ [e], kept @ [e], n))"

definition kept_events :: "status_event list \<Rightarrow> status_event list" where
  "kept_events es = fst (snd (foldl dedup_step ([], [], 0) es))"

definition dropped_events :: "status_event list \<Rightarrow> nat" where
  "dropped_events es = snd (snd (foldl dedup_step ([], [], 0) es))"

lemma dedup_seen: "fst (foldl dedup_step acc es) = fst acc @ es"
  by (induction es arbitrary: acc) (auto simp: dedup_step_def split: prod.splits)

lemma kept_snoc:
  "kept_events (es @ [e]) = (if repeated es e then kept_events es else kept_events es @ [e])"
  "dropped_events (es @ [e]) = (if repeated es e then Suc (dropped_events es) else dropped_events es)"
  using dedup_seen [of "([], [], 0)" es]
  by (simp_all add: kept_events_def dropped_events_def dedup_step_def split_beta)

lemma kept_empty [simp]: "kept_events [] = []" "dropped_events [] = 0"
  by (simp_all add: kept_events_def dropped_events_def)

lemma last_version_snoc:
  "last_version oid (es @ [e]) = (if se_orderId e = oid then Some (se_version e) else last_version oid es)"
  by (auto simp: last_version_def of_order_def split: if_splits)

lemma last_version_empty [simp]: "last_version oid [] = None"
  by (simp add: last_version_def of_order_def)

lemma kept_and_dropped: "length (kept_events es) + dropped_events es = length es"
  by (induction es rule: rev_induct) (auto simp: kept_snoc)

lemma of_order_append [simp]: "of_order oid (xs @ ys) = of_order oid xs @ of_order oid ys"
  by (simp add: of_order_def)

lemma of_order_empty [simp]: "of_order oid [] = []"
  by (simp add: of_order_def)

section \<open>The invariant\<close>

definition group_ok ::
  "('ds \<Rightarrow> status_event option) \<Rightarrow> ('th \<Rightarrow> status_event list) \<Rightarrow> string \<Rightarrow> status_event list \<Rightarrow>
   status_event list \<Rightarrow> ('ds, 'th) group \<Rightarrow> bool" where
  "group_ok last_passed held oid ins outs g \<longleftrightarrow>
     g_lastVersion g = last_version oid ins \<and>
     map_option se_version (last_passed (g_distinct g)) = last_version oid ins \<and>
     subseq (of_order oid outs @ held (g_throttle g)) (of_order oid (kept_events ins))"

definition events_inv ::
  "('ds, 'th) rx \<Rightarrow> ('ds \<Rightarrow> status_event option) \<Rightarrow> ('th \<Rightarrow> status_event list) \<Rightarrow>
   ('ds, 'th) events_state \<Rightarrow> bool" where
  "events_inv rx last_passed held s \<longleftrightarrow>
     (\<forall>oid. group_ok last_passed held oid (ev_in s) (ev_out s) (group_of rx oid s)) \<and>
     mt_dedupDropped (ev_metrics s) = dropped_events (ev_in s) \<and>
     mt_emitted (ev_metrics s) = length (ev_out s) \<and>
     length (ev_in s) \<le> mt_received (ev_metrics s)"

lemma group_ok_other:
  assumes "se_orderId e \<noteq> oid" and "\<forall>x \<in> set es. se_orderId x \<noteq> oid"
  shows "group_ok lp held oid (ins @ [e]) (outs @ es) g \<longleftrightarrow> group_ok lp held oid ins outs g"
proof -
  have "of_order oid es = []" using assms(2) by (simp add: of_order_def)
  moreover have "of_order oid (kept_events (ins @ [e])) = of_order oid (kept_events ins)"
    using assms(1) by (simp add: kept_snoc of_order_def)
  ultimately show ?thesis using assms(1) by (simp add: group_ok_def last_version_snoc)
qed

lemma group_ok_outs:
  assumes "\<forall>x \<in> set es. se_orderId x \<noteq> oid"
  shows "group_ok lp held oid ins (outs @ es) g \<longleftrightarrow> group_ok lp held oid ins outs g"
proof -
  have "of_order oid es = []" using assms by (simp add: of_order_def)
  then show ?thesis by (simp add: group_ok_def)
qed

lemma held_of_order:
  assumes "group_ok lp held oid ins outs g" and "x \<in> set (held (g_throttle g))"
  shows "se_orderId x = oid"
proof -
  have "set (held (g_throttle g)) \<subseteq> set (of_order oid (kept_events ins))"
    using assms(1) by (auto simp: group_ok_def dest: list_emb_set)
  with assms(2) show ?thesis by (auto simp: of_order_def)
qed

lemma subseq_prefix: "subseq xs (xs @ ys)"
proof -
  have "subseq (xs @ []) (xs @ ys)"
    by (rule list_emb_append_mono [OF subseq_order.order_refl]) simp
  then show ?thesis by simp
qed

lemma subseq_set: "subseq xs ys \<Longrightarrow> set xs \<subseteq> set ys"
  by (auto dest: list_emb_set)

lemma of_order_all: "\<forall>x \<in> set es. se_orderId x = oid \<Longrightarrow> of_order oid es = es"
  by (simp add: of_order_def)

lemma emit_simps [simp]:
  "ev_groups (emit es s) = ev_groups s" "ev_in (emit es s) = ev_in s"
  "ev_out (emit es s) = ev_out s @ es"
  "ev_completed (emit es s) = ev_completed s" "ev_subscribed (emit es s) = ev_subscribed s"
  "mt_received (ev_metrics (emit es s)) = mt_received (ev_metrics s)"
  "mt_dedupDropped (ev_metrics (emit es s)) = mt_dedupDropped (ev_metrics s)"
  "mt_emitted (ev_metrics (emit es s)) = mt_emitted (ev_metrics s) + length es"
  by (simp_all add: emit_def)

context stream_operators
begin

lemma inv_init: "events_inv rx last_passed held events_init"
  by (simp add: events_inv_def group_ok_def events_init_def group_of_def new_group_def
      distinct_init throttle_init)

text \<open>What one event does to the group of its order.\<close>

lemma group_event:
  assumes ok: "group_ok last_passed held (se_orderId e) ins outs g"
    and d: "rx_distinct rx same_version e (g_distinct g) = (passes, ds)"
    and th: "(if passes then rx_throttle rx 300 True True e (g_throttle g)
      else ([], g_throttle g)) = (es, th)"
  shows "passes = (\<not> repeated ins e)" and "\<forall>x \<in> set es. se_orderId x = se_orderId e"
    and "group_ok last_passed held (se_orderId e) (ins @ [e]) (outs @ es)
      \<lparr>g_lastVersion = Some (se_version e), g_distinct = ds, g_throttle = th\<rparr>"
proof -
  let ?oid = "se_orderId e"
  have version: "map_option se_version (last_passed (g_distinct g)) = last_version ?oid ins"
    and sub: "subseq (of_order ?oid outs @ held (g_throttle g)) (of_order ?oid (kept_events ins))"
    using ok by (simp_all add: group_ok_def)
  show passes: "passes = (\<not> repeated ins e)"
    using distinct_passes [of same_version e "g_distinct g"] d version
    by (auto simp: repeated_def same_version_def split: option.splits)
  have moved: "subseq (es @ held th) (held (g_throttle g) @ (if passes then [e] else []))"
    using th throttle_next by (auto split: if_splits)
  show all: "\<forall>x \<in> set es. se_orderId x = ?oid"
    using subseq_set [OF moved] held_of_order [OF ok] by (auto split: if_splits)
  have "last_passed ds = (if passes then Some e else last_passed (g_distinct g))"
    using distinct_last [of same_version e "g_distinct g"] d by simp
  then have "map_option se_version (last_passed ds) = Some (se_version e)"
    using version passes by (auto simp: repeated_def)
  moreover have "subseq (of_order ?oid (outs @ es) @ held th)
      (of_order ?oid (kept_events (ins @ [e])))"
  proof -
    have "of_order ?oid (kept_events (ins @ [e])) =
        of_order ?oid (kept_events ins) @ (if passes then [e] else [])"
      using passes by (simp add: kept_snoc of_order_def)
    moreover have "subseq ((of_order ?oid outs @ held (g_throttle g)) @ (if passes then [e] else []))
        (of_order ?oid (kept_events ins) @ (if passes then [e] else []))"
      using sub by (rule list_emb_append_mono) simp
    moreover have "subseq (of_order ?oid outs @ (es @ held th))
        (of_order ?oid outs @ (held (g_throttle g) @ (if passes then [e] else [])))"
      by (rule list_emb_append_mono [OF subseq_order.order_refl moved])
    ultimately show ?thesis
      using of_order_all [OF all] by (simp del: subseq_append')
  qed
  ultimately show "group_ok last_passed held ?oid (ins @ [e]) (outs @ es)
      \<lparr>g_lastVersion = Some (se_version e), g_distinct = ds, g_throttle = th\<rparr>"
    by (simp add: group_ok_def last_version_snoc)
qed

lemma inv_pipeline:
  assumes inv: "events_inv rx last_passed held s"
    and room: "length (ev_in s) < mt_received (ev_metrics s)"
  shows "events_inv rx last_passed held (pipeline rx e s)"
proof -
  let ?g = "group_of rx (se_orderId e) s"
  obtain passes ds where d: "rx_distinct rx same_version e (g_distinct ?g) = (passes, ds)"
    by fastforce
  obtain es th where th: "(if passes then rx_throttle rx 300 True True e (g_throttle ?g)
      else ([], g_throttle ?g)) = (es, th)" by fastforce
  have ok: "group_ok last_passed held oid (ev_in s) (ev_out s) (group_of rx oid s)" for oid
    using inv by (simp add: events_inv_def)
  note event = group_event [OF ok [of "se_orderId e"] d th]
  let ?t = "pipeline rx e s"
  have run: "?t = emit es (s\<lparr>
      ev_metrics := (if g_lastVersion ?g = Some (se_version e)
        then (ev_metrics s)\<lparr>mt_dedupDropped := mt_dedupDropped (ev_metrics s) + 1\<rparr> else ev_metrics s),
      ev_groups := (ev_groups s)(se_orderId e \<mapsto>
        \<lparr>g_lastVersion = Some (se_version e), g_distinct = ds, g_throttle = th\<rparr>),
      ev_in := ev_in s @ [e]\<rparr>)"
    unfolding pipeline_def Let_def by (simp only: d th prod.case)
  have t: "ev_in ?t = ev_in s @ [e]" "ev_out ?t = ev_out s @ es"
    "mt_emitted (ev_metrics ?t) = mt_emitted (ev_metrics s) + length es"
    "mt_received (ev_metrics ?t) = mt_received (ev_metrics s)"
    "mt_dedupDropped (ev_metrics ?t) = mt_dedupDropped (ev_metrics s) +
      (if g_lastVersion ?g = Some (se_version e) then 1 else 0)"
    "group_of rx oid ?t = (if oid = se_orderId e
      then \<lparr>g_lastVersion = Some (se_version e), g_distinct = ds, g_throttle = th\<rparr>
      else group_of rx oid s)" for oid
    by (simp_all add: run group_of_def)
  have "group_ok last_passed held oid (ev_in ?t) (ev_out ?t) (group_of rx oid ?t)" for oid
  proof (cases "oid = se_orderId e")
    case True
    with event(3) show ?thesis by (simp add: t)
  next
    case False
    with event(2) have "\<forall>x \<in> set es. se_orderId x \<noteq> oid" by auto
    with False ok [of oid] show ?thesis by (simp add: t group_ok_other)
  qed
  moreover have "g_lastVersion ?g = Some (se_version e) \<longleftrightarrow> repeated (ev_in s) e"
    using ok [of "se_orderId e"] by (simp add: group_ok_def repeated_def)
  ultimately show ?thesis
    using inv room by (simp add: events_inv_def t kept_snoc)
qed

lemma inv_timer:
  assumes inv: "events_inv rx last_passed held s"
  shows "events_inv rx last_passed held (throttle_timer rx oid s)"
proof (cases "ev_groups s oid")
  case None
  with inv show ?thesis by (simp add: throttle_timer_def)
next
  case (Some g)
  obtain es th where fired: "rx_throttle_timer rx 300 True True (g_throttle g) = (es, th)"
    by fastforce
  let ?t = "throttle_timer rx oid s"
  have t: "ev_in ?t = ev_in s" "ev_out ?t = ev_out s @ es"
    "mt_emitted (ev_metrics ?t) = mt_emitted (ev_metrics s) + length es"
    "mt_received (ev_metrics ?t) = mt_received (ev_metrics s)"
    "mt_dedupDropped (ev_metrics ?t) = mt_dedupDropped (ev_metrics s)"
    "group_of rx oid' ?t = (if oid' = oid then g\<lparr>g_throttle := th\<rparr> else group_of rx oid' s)" for oid'
    using Some fired by (simp_all add: throttle_timer_def group_of_def)
  have ok: "group_ok last_passed held oid' (ev_in s) (ev_out s) (group_of rx oid' s)" for oid'
    using inv by (simp add: events_inv_def)
  then have okg: "group_ok last_passed held oid (ev_in s) (ev_out s) g"
    using Some by (metis group_of_def option.simps(5))
  from throttle_fires [OF fired] have moved: "subseq (es @ held th) (held (g_throttle g))" .
  have all: "\<forall>x \<in> set es. se_orderId x = oid"
    using subseq_set [OF moved] held_of_order [OF okg] by auto
  have "subseq (of_order oid (ev_out s) @ (es @ held th))
      (of_order oid (ev_out s) @ held (g_throttle g))"
    by (rule list_emb_append_mono [OF subseq_order.order_refl moved])
  then have "group_ok last_passed held oid (ev_in s) (ev_out s @ es) (g\<lparr>g_throttle := th\<rparr>)"
    using okg of_order_all [OF all] unfolding group_ok_def
    by (simp del: subseq_append') (metis subseq_order.order_trans)
  moreover have "group_ok last_passed held oid' (ev_in s) (ev_out s @ es) (group_of rx oid' s)"
    if "oid' \<noteq> oid" for oid'
    using ok [of oid'] all that by (subst group_ok_outs) auto
  ultimately have "group_ok last_passed held oid' (ev_in ?t) (ev_out ?t) (group_of rx oid' ?t)" for oid'
    by (simp add: t)
  with inv show ?thesis by (simp add: events_inv_def t)
qed

lemma inv_next: "events_next rx s t \<Longrightarrow> events_inv rx last_passed held s \<Longrightarrow> events_inv rx last_passed held t"
proof (induction rule: events_next.induct)
  case (next_publish s event)
  let ?s1 = "s\<lparr>ev_metrics := (ev_metrics s)\<lparr>mt_received := mt_received (ev_metrics s) + 1\<rparr>\<rparr>"
  have "events_inv rx last_passed held ?s1"
    using next_publish by (auto simp: events_inv_def group_of_def)
  moreover have "length (ev_in ?s1) < mt_received (ev_metrics ?s1)"
    using next_publish by (simp add: events_inv_def)
  ultimately show ?case
    by (simp add: publishStatusChanged_def Let_def inv_pipeline)
next
  case (next_timer s oid)
  then show ?case by (rule inv_timer)
qed (simp_all add: events_inv_def group_of_def subscribe_def events_onModuleDestroy_def)

lemma reachable_inv: "events_reachable rx s \<Longrightarrow> events_inv rx last_passed held s"
  by (induction rule: events_reachable.induct) (simp_all add: inv_init inv_next)

end

section \<open>Operators that meet the contract\<close>

text \<open>The throttle's window is open or not, and it may hold a trailing event.\<close>

fun ref_throttle ::
  "nat \<Rightarrow> bool \<Rightarrow> bool \<Rightarrow> status_event \<Rightarrow> bool \<times> status_event option \<Rightarrow>
   status_event list \<times> (bool \<times> status_event option)" where
  "ref_throttle d leading trailing e (False, h) =
     (if leading then ([e], (True, None)) else ([], (True, if trailing then Some e else None)))"
| "ref_throttle d leading trailing e (True, h) =
     ([], (True, if trailing then Some e else None))"

fun ref_throttle_timer ::
  "nat \<Rightarrow> bool \<Rightarrow> bool \<Rightarrow> bool \<times> status_event option \<Rightarrow>
   status_event list \<times> (bool \<times> status_event option)" where
  "ref_throttle_timer d leading trailing (w, None) = ([], (False, None))"
| "ref_throttle_timer d leading trailing (w, Some e) = ([e], (True, None))"

definition ref_rx :: "(status_event option, bool \<times> status_event option) rx" where
  "ref_rx =
     \<lparr>rx_distinct_init = None,
      rx_distinct = (\<lambda>same e ds. case ds of None \<Rightarrow> (True, Some e)
        | Some p \<Rightarrow> if same p e then (False, ds) else (True, Some e)),
      rx_throttle_init = (False, None),
      rx_throttle = ref_throttle, rx_throttle_timer = ref_throttle_timer\<rparr>"

definition ref_held :: "bool \<times> status_event option \<Rightarrow> status_event list" where
  "ref_held th = (case snd th of None \<Rightarrow> [] | Some e \<Rightarrow> [e])"

interpretation ref_stream: stream_operators ref_rx id ref_held
proof
  show "subseq (es @ ref_held th') (ref_held th @ [e])"
    if "rx_throttle ref_rx d leading trailing e th = (es, th')" for d leading trailing e th es th'
    using that by (cases th; cases "fst th"; cases "snd th")
      (auto simp: ref_rx_def ref_held_def split: if_splits)
  show "subseq (es @ ref_held th') (ref_held th)"
    if "rx_throttle_timer ref_rx d leading trailing th = (es, th')" for d leading trailing th es th'
    using that by (cases th; cases "snd th") (auto simp: ref_rx_def ref_held_def)
qed (auto simp: ref_rx_def ref_held_def split: option.splits)

section \<open>Properties\<close>

definition demo_event :: "int \<Rightarrow> status_event" where
  "demo_event v = \<lparr>se_orderId = ''o1'', se_status = PROCESSED, se_version = v, se_ts = 0\<rparr>"

definition demo_events :: "(status_event option, bool \<times> status_event option) events_state" where
  "demo_events =
     publishStatusChanged ref_rx (demo_event 2)
       (publishStatusChanged ref_rx (demo_event 1)
         (publishStatusChanged ref_rx (demo_event 1) (subscribe events_init)))"

lemma demo_events_reachable: "events_reachable ref_rx demo_events"
  unfolding demo_events_def
  by (intro events_reachable.reach_next [OF _ next_publish]
      events_reachable.reach_next [OF events_reachable.reach_init next_subscribe])

definition demo_state ::
  "nat \<Rightarrow> nat \<Rightarrow> int \<Rightarrow> status_event option \<Rightarrow> status_event list \<Rightarrow>
   (status_event option, bool \<times> status_event option) events_state" where
  "demo_state n d v h ins =
     \<lparr>ev_metrics = \<lparr>mt_received = n, mt_dedupDropped = d, mt_emitted = 1\<rparr>, ev_completed = False,
      ev_subscribed = True,
      ev_groups = [''o1'' \<mapsto> \<lparr>g_lastVersion = Some v, g_distinct = Some (demo_event v),
        g_throttle = (True, h)\<rparr>],
      ev_out = [demo_event 1], ev_in = ins\<rparr>"

lemmas demo_run = publishStatusChanged_def pipeline_def Let_def ref_rx_def group_of_def emit_def
  demo_state_def same_version_def demo_event_def

lemma demo_first:
  "publishStatusChanged ref_rx (demo_event 1) (subscribe events_init) = demo_state 1 0 1 None [demo_event 1]"
  by (simp add: demo_run new_group_def subscribe_def events_init_def)

lemma demo_repeat:
  "publishStatusChanged ref_rx (demo_event 1) (demo_state 1 0 1 None [demo_event 1]) =
     demo_state 2 1 1 None [demo_event 1, demo_event 1]"
  by (simp add: demo_run)

lemma demo_later:
  "publishStatusChanged ref_rx (demo_event 2) (demo_state 2 1 1 None [demo_event 1, demo_event 1]) =
     demo_state 3 1 2 (Some (demo_event 2)) [demo_event 1, demo_event 1, demo_event 2]"
  by (simp add: demo_run)

lemma demo_events_state:
  "demo_events = demo_state 3 1 2 (Some (demo_event 2)) [demo_event 1, demo_event 1, demo_event 2]"
  by (simp only: demo_events_def demo_first demo_repeat demo_later)



text \<open>
  For each order, what the subscriber gets is a subsequence, in the order of publication,
  of the events whose version differs from the one before: nothing is invented, repeated or
  reordered by deduplication and throttling together.
\<close>

theorem events_in_order:
  assumes "stream_operators rx last_passed held" and "events_reachable rx s"
  shows "subseq (of_order oid (ev_out s)) (of_order oid (kept_events (ev_in s)))"
proof -
  have "subseq (of_order oid (ev_out s) @ held (g_throttle (group_of rx oid s)))
      (of_order oid (kept_events (ev_in s)))"
    using stream_operators.reachable_inv [OF assms] by (simp add: events_inv_def group_ok_def)
  with subseq_prefix show ?thesis by (rule subseq_order.order_trans)
qed

theorem events_in_order_witness:
  "subseq (of_order ''o1'' (ev_out demo_events)) (of_order ''o1'' (kept_events (ev_in demo_events)))"
  by (rule events_in_order [OF ref_stream.stream_operators_axioms demo_events_reachable])

end
