(* ===== verification/Orders.thy ===== *)
theory Orders
  imports Store Rabbit OrderEvents
begin

text \<open>
  The orders service (\<^verbatim>\<open>src/orders/order.service.ts\<close>), operation by operation. Its world holds
  the database, the status events and the broker client; the store, the stream operators and
  the broker library are arguments. Identifiers drawn (\<open>randomUUID\<close>) and clock readings are
  arguments of the operation that draws them.
\<close>

section \<open>The world of the service\<close>

record ('d, 'ds, 'th) world =
  w_db :: 'd
  w_events :: "('ds, 'th) events_state"
  w_rabbit :: rabbit_state

record ('d, 'ds, 'th) deps =
  dep_db :: "'d store"
  dep_rx :: "('ds, 'th) rx"
  dep_amqp :: amqp

definition on_db :: "('d, 'a) async \<Rightarrow> (('d, 'ds, 'th) world, 'a) async" where
  "on_db = on_part w_db (\<lambda>d w. w\<lparr>w_db := d\<rparr>)"

definition on_rabbit :: "(rabbit_state, 'a) async \<Rightarrow> (('d, 'ds, 'th) world, 'a) async" where
  "on_rabbit = on_part w_rabbit (\<lambda>r w. w\<lparr>w_rabbit := r\<rparr>)"

definition publish_event ::
  "('d, 'ds, 'th) deps \<Rightarrow> status_event \<Rightarrow> (('d, 'ds, 'th) world, unit) async" where
  "publish_event deps e =
     modify (\<lambda>w. w\<lparr>w_events := publishStatusChanged (dep_rx deps) e (w_events w)\<rparr>)"

section \<open>Creating an order\<close>

record create_item =
  ci_productId :: string
  ci_quantity :: int
  ci_priceSnapshot :: jsnum

record create_order_dto =
  co_userId :: string
  co_idempotencyKey :: "string option"
  co_items :: "create_item list option"

text \<open>One round of the loop over the items: lock the product, check it, take the stock.\<close>

definition save_item :: "'d store \<Rightarrow> string \<Rightarrow> create_item \<Rightarrow> ('d, order_item) async" where
  "save_item db orderId item =
     await (qr_findProduct db (ci_productId item)) (\<lambda>product.
       case product of
         None \<Rightarrow> throw (NotFoundException ''Product not found'')
       | Some p \<Rightarrow>
           if ci_quantity item \<le> 0 then
             throw (BadRequestException ''Quantity must be greater than zero'')
           else if p_stock p < ci_quantity item then
             throw (ConflictException ''Insufficient stock'')
           else
             await (qr_saveProduct db (p\<lparr>p_stock := p_stock p - ci_quantity item\<rparr>)) (\<lambda>_.
             qr_insertItem db
               \<lparr>ni_orderId = orderId, ni_productId = ci_productId item,
                ni_quantity = ci_quantity item, ni_priceSnapshot = ci_priceSnapshot item\<rparr>))"

fun save_items :: "'d store \<Rightarrow> string \<Rightarrow> create_item list \<Rightarrow> ('d, order_item list) async" where
  "save_items db orderId [] = resolve []"
| "save_items db orderId (item # items) =
     await (save_item db orderId item) (\<lambda>savedItem.
     await (save_items db orderId items) (\<lambda>savedItems.
     resolve (savedItem # savedItems)))"

text \<open>
  The body of the transaction. Its last call is the commit, so an exception always finds it
  not committed.
\<close>

definition create_in_transaction ::
  "'d store \<Rightarrow> create_order_dto \<Rightarrow> create_item list \<Rightarrow> string option \<Rightarrow> ('d, order) async" where
  "create_in_transaction db dto items key =
     await (qr_insertOrder db
       \<lparr>no_userId = co_userId dto, no_status = PENDING, no_idempotencyKey = key\<rparr>) (\<lambda>savedOrder.
     await (save_items db (o_id savedOrder) items) (\<lambda>savedItems.
     await (qr_findOrder db (o_id savedOrder)) (\<lambda>createdOrder.
       case createdOrder of
         None \<Rightarrow> throw (NotFoundException ''Order not found after creation'')
       | Some created \<Rightarrow>
           await (qr_commitTransaction db) (\<lambda>_. resolve created))))"

definition create_failed ::
  "'d store \<Rightarrow> string option \<Rightarrow> exn \<Rightarrow> ('d, order \<times> bool) async" where
  "create_failed db key error =
     await (qr_rollbackTransaction db) (\<lambda>_.
       if isUniqueViolation error \<and> truthy key then
         await (repo_findOrderByKey db (the key)) (\<lambda>existingOrder.
           case existingOrder of
             Some x \<Rightarrow> resolve (x, True)
           | None \<Rightarrow> throw error)
       else throw error)"

text \<open>\<open>create\<close> up to the publication: the order, and whether it was there before.\<close>

definition create_stored ::
  "'d store \<Rightarrow> create_order_dto \<Rightarrow> string option \<Rightarrow> ('d, order \<times> bool) async" where
  "create_stored db dto idempotencyKey =
     (let key = nullish idempotencyKey (co_idempotencyKey dto) in
      await (if truthy key then repo_findOrderByKey db (the key) else resolve None)
        (\<lambda>existingOrder.
          case existingOrder of
            Some x \<Rightarrow> resolve (x, True)
          | None \<Rightarrow>
              (case co_items dto of
                 None \<Rightarrow> throw (BadRequestException ''Order items cannot be empty'')
               | Some items \<Rightarrow>
                   if items = [] then
                     throw (BadRequestException ''Order items cannot be empty'')
                   else
                     await (repo_findUser db (co_userId dto)) (\<lambda>user.
                       case user of
                         None \<Rightarrow> throw (NotFoundException ''User not found'')
                       | Some u \<Rightarrow>
                           await (qr_connect db) (\<lambda>_.
                           await (qr_startTransaction db) (\<lambda>_.
                             try_finally
                               (try_catch
                                 (await (create_in_transaction db dto items key)
                                   (\<lambda>created. resolve (created, False)))
                                 (create_failed db key))
                               (qr_release db)))))))"

definition order_message :: "string \<Rightarrow> order \<Rightarrow> string \<Rightarrow> json" where
  "order_message messageId order createdAt =
     JObj
       [(''messageId'', JStr messageId),
        (''orderId'', JStr (o_id order)),
        (''createdAt'', JStr createdAt),
        (''attempt'', JNum (Fin 0)),
        (''correlationId'', JStr (o_id order)),
        (''producer'', JStr ''orders-api''),
        (''eventName'', JStr ''order.created'')]"

definition publishOrderCreated :: "amqp \<Rightarrow> string \<Rightarrow> order \<Rightarrow> (rabbit_state, unit) async" where
  "publishOrderCreated amqp messageId order =
     (case toISOString (o_createdAt order) of
        Inl e \<Rightarrow> throw e
      | Inr createdAt \<Rightarrow>
          await (publishToQueue amqp ''orders.process'' (order_message messageId order createdAt)
            \<lparr>po_messageId = Some (JStr messageId), po_correlationId = Some (JStr (o_id order)),
             po_timestamp = Some (o_createdAt order), po_expiration = None\<rparr>)
            (\<lambda>_. resolve ()))"

definition create ::
  "('d, 'ds, 'th) deps \<Rightarrow> string \<Rightarrow> create_order_dto \<Rightarrow> string option \<Rightarrow>
   (('d, 'ds, 'th) world, order \<times> bool) async" where
  "create deps messageId dto idempotencyKey =
     await (on_db (create_stored (dep_db deps) dto idempotencyKey)) (\<lambda>(order, wasDuplicate).
       if wasDuplicate then resolve (order, True)
       else await (on_rabbit (publishOrderCreated (dep_amqp deps) messageId order))
              (\<lambda>_. resolve (order, False)))"

record order_item_input =
  in_productId :: string
  in_quantity :: int
  in_priceSnapshot :: string

record create_order_input =
  in_userId :: string
  in_items :: "order_item_input list"

definition dto_of_input :: "create_order_input \<Rightarrow> create_order_dto" where
  "dto_of_input input =
     \<lparr>co_userId = in_userId input, co_idempotencyKey = None,
      co_items = Some (map (\<lambda>item. \<lparr>ci_productId = in_productId item,
        ci_quantity = in_quantity item, ci_priceSnapshot = js_Number (in_priceSnapshot item)\<rparr>)
        (in_items input))\<rparr>"

definition createFromInput ::
  "('d, 'ds, 'th) deps \<Rightarrow> string \<Rightarrow> create_order_input \<Rightarrow> string option \<Rightarrow>
   (('d, 'ds, 'th) world, order) async" where
  "createFromInput deps messageId input idempotencyKey =
     await (create deps messageId (dto_of_input input) idempotencyKey)
       (\<lambda>(order, wasDuplicate). resolve order)"

section \<open>Processing a message\<close>

text \<open>The callback given to \<open>dataSource.transaction\<close>.\<close>

definition process_in_transaction ::
  "'d store \<Rightarrow> int \<Rightarrow> json \<Rightarrow> ('d, process_tx_result) async" where
  "process_in_transaction db processedAt message =
     await
       (try_catch
         (await (tx_insertProcessed db (property message ''messageId'')
             (property message ''orderId'') ''orders.process'')
           (\<lambda>_. resolve True))
         (\<lambda>error. if isUniqueViolation error then resolve False else throw error))
       (\<lambda>inserted.
         if \<not> inserted then
           resolve \<lparr>ptr_deduplicated = True, ptr_order = None, ptr_statusChanged = False\<rparr>
         else
           await (tx_findOrder db (property message ''orderId'')) (\<lambda>order.
             case order of
               None \<Rightarrow> throw (NotFoundException ''Order not found'')
             | Some r \<Rightarrow>
                 if o_status r = PROCESSED then
                   resolve \<lparr>ptr_deduplicated = False, ptr_order = Some r, ptr_statusChanged = False\<rparr>
                 else
                   await (tx_saveOrder db
                     (r\<lparr>o_status := PROCESSED, o_processedAt := Some processedAt\<rparr>)) (\<lambda>savedOrder.
                   resolve \<lparr>ptr_deduplicated = False, ptr_order = Some savedOrder,
                            ptr_statusChanged = True\<rparr>)))"

record clock =
  now_processedAt :: int
  now_version :: int
  now_ts :: int

definition event_of :: "clock \<Rightarrow> order_row \<Rightarrow> status_event" where
  "event_of clock r =
     \<lparr>se_orderId = o_id r, se_status = o_status r,
      se_version = (case o_updatedAt r of None \<Rightarrow> now_version clock | Some u \<Rightarrow> u),
      se_ts = now_ts clock\<rparr>"

definition processOrderMessage ::
  "('d, 'ds, 'th) deps \<Rightarrow> clock \<Rightarrow> json \<Rightarrow>
   (('d, 'ds, 'th) world, process_outcome \<times> json option) async" where
  "processOrderMessage deps clock message =
     await (on_db (ds_transaction (dep_db deps)
         (process_in_transaction (dep_db deps) (now_processedAt clock) message)))
       (\<lambda>result.
         if ptr_deduplicated result then resolve (Deduplicated, property message ''orderId'')
         else
           (case ptr_order result of
              None \<Rightarrow> resolve (AlreadyProcessed, property message ''orderId'')
            | Some order \<Rightarrow>
                if \<not> ptr_statusChanged result then
                  resolve (AlreadyProcessed, property message ''orderId'')
                else
                  await (publish_event deps (event_of clock order))
                    (\<lambda>_. resolve (Processed, Some (JStr (o_id order))))))"

section \<open>Reading\<close>

record orders_filter =
  fl_status :: "order_status option"
  fl_dateFrom :: "int option"
  fl_dateTo :: "int option"

record orders_pagination =
  pg_limit :: "int js_input"
  pg_offset :: "int js_input"

record orders_connection =
  cn_nodes :: "order list"
  cn_totalCount :: nat
  cn_hasNextPage :: bool
  cn_hasPreviousPage :: bool

text \<open>A comparison with null compares with 0.\<close>

definition validatePagination :: "orders_pagination option \<Rightarrow> exn option" where
  "validatePagination pagination =
     (case pagination of
        None \<Rightarrow> None
      | Some p \<Rightarrow>
          if (case pg_limit p of Undefined \<Rightarrow> False | Null \<Rightarrow> True | Value n \<Rightarrow> n \<le> 0) then
            Some (BadRequestException ''limit must be greater than 0'')
          else if (case pg_offset p of Value n \<Rightarrow> n < 0 | _ \<Rightarrow> False) then
            Some (BadRequestException ''offset must be 0 or greater'')
          else None)"

definition validateFilters :: "orders_filter option \<Rightarrow> exn option" where
  "validateFilters flt =
     (case flt of
        None \<Rightarrow> None
      | Some f \<Rightarrow>
          (case (fl_dateFrom f, fl_dateTo f) of
             (Some a, Some b) \<Rightarrow>
               if a > b then Some (BadRequestException ''dateFrom must be <= dateTo'') else None
           | _ \<Rightarrow> None))"

definition check :: "exn option \<Rightarrow> ('s, unit) async" where
  "check v = (case v of None \<Rightarrow> resolve () | Some e \<Rightarrow> throw e)"

definition orders_query :: "orders_filter option \<Rightarrow> int js_input \<Rightarrow> int js_input \<Rightarrow> order_query" where
  "orders_query flt tk sk =
     \<lparr>q_status = Option.bind flt fl_status, q_dateFrom = Option.bind flt fl_dateFrom,
      q_dateTo = Option.bind flt fl_dateTo, q_take = tk, q_skip = sk\<rparr>"

definition getAllConnection ::
  "'d store \<Rightarrow> orders_filter option \<Rightarrow> orders_pagination option \<Rightarrow> ('d, orders_connection) async" where
  "getAllConnection db flt pagination =
     (let limit_in = (case pagination of None \<Rightarrow> Undefined | Some p \<Rightarrow> pg_limit p);
          offset_in = (case pagination of None \<Rightarrow> Undefined | Some p \<Rightarrow> pg_offset p) in
      await (check (validateFilters flt)) (\<lambda>_.
      await (check (validatePagination pagination)) (\<lambda>_.
        try_catch
          (await (repo_getCount db (orders_query flt Undefined Undefined)) (\<lambda>totalCount.
           await (repo_getMany db (orders_query flt limit_in offset_in)) (\<lambda>nodes.
             let limit = input_or limit_in (int totalCount);
                 offset = input_or offset_in 0
             in resolve \<lparr>cn_nodes = nodes, cn_totalCount = totalCount,
                  cn_hasNextPage = offset + limit < int totalCount,
                  cn_hasPreviousPage = offset > 0\<rparr>)))
          (\<lambda>error. throw (JsError ''Failed to fetch orders'')))))"

definition getAll :: "'d store \<Rightarrow> ('d, order list) async" where
  "getAll db = repo_findOrders db"

definition getOrder :: "'d store \<Rightarrow> string \<Rightarrow> ('d, order) async" where
  "getOrder db oid =
     await (repo_findOrder db oid) (\<lambda>order.
       case order of
         None \<Rightarrow> throw (NotFoundException ''Order not found'')
       | Some x \<Rightarrow> resolve x)"

section \<open>Updating and deleting\<close>

record update_order_dto =
  up_status :: "order_status option"
  up_idempotencyKey :: "string js_input"

text \<open>\<open>Object.assign(order, updates)\<close>\<close>

definition assign_updates :: "update_order_dto \<Rightarrow> order_row \<Rightarrow> order_row" where
  "assign_updates updates r =
     r\<lparr>o_status := (case up_status updates of None \<Rightarrow> o_status r | Some st \<Rightarrow> st),
       o_idempotencyKey := (case up_idempotencyKey updates of
          Undefined \<Rightarrow> o_idempotencyKey r | Null \<Rightarrow> None | Value k \<Rightarrow> Some k)\<rparr>"

definition updateOrder ::
  "('d, 'ds, 'th) deps \<Rightarrow> clock \<Rightarrow> string \<Rightarrow> update_order_dto \<Rightarrow>
   (('d, 'ds, 'th) world, order_row) async" where
  "updateOrder deps clock oid updates =
     await (on_db (repo_findOrderRow (dep_db deps) oid)) (\<lambda>order.
       case order of
         None \<Rightarrow> throw (NotFoundException ''Order not found'')
       | Some r \<Rightarrow>
           (let previousStatus = o_status r in
            await (on_db (repo_saveOrder (dep_db deps) (assign_updates updates r))) (\<lambda>savedOrder.
              if up_status updates \<noteq> None \<and> up_status updates \<noteq> Some previousStatus then
                await (publish_event deps (event_of clock savedOrder)) (\<lambda>_. resolve savedOrder)
              else resolve savedOrder)))"

definition deleteOrder :: "'d store \<Rightarrow> string \<Rightarrow> ('d, unit) async" where
  "deleteOrder db oid =
     await (repo_deleteOrder db oid) (\<lambda>affected.
       if affected = Some 0 then throw (NotFoundException ''Order not found'') else resolve ())"

section \<open>Access\<close>

definition isStaff :: "string list \<Rightarrow> bool" where
  "isStaff roles =
     (''admin'' \<in> set roles \<or> ''operator'' \<in> set roles \<or> ''support'' \<in> set roles)"

definition assertCanAccessOrder :: "order_row \<Rightarrow> auth_user \<Rightarrow> exn option" where
  "assertCanAccessOrder order user =
     (if isStaff (au_roles user) then None
      else if o_userId order \<noteq> au_sub user then Some (ForbiddenException ''Access denied'')
      else None)"

definition canSubscribeToOrder :: "'d store \<Rightarrow> string \<Rightarrow> auth_user \<Rightarrow> ('d, unit) async" where
  "canSubscribeToOrder db orderId user =
     await (repo_findOrderRow db orderId) (\<lambda>order.
       case order of
         None \<Rightarrow> throw (NotFoundException ''Order not found'')
       | Some r \<Rightarrow> check (assertCanAccessOrder r user))"

end
