(* ===== verification/ReferenceStore.thy ===== *)
theory ReferenceStore
  imports Store
begin

text \<open>
  A store that meets the contract of \<open>Store\<close>: tables are lists of rows, the latest row of an
  identifier first, and a transaction keeps a copy of them. It shows that the contract can be
  met, and the witnesses run the code on it.
\<close>

section \<open>Rows in lists\<close>

definition row_map :: "('r \<Rightarrow> string) \<Rightarrow> 'r list \<Rightarrow> string \<rightharpoonup> 'r" where
  "row_map idf rs = map_of (map (\<lambda>r. (idf r, r)) rs)"

definition visible :: "('r \<Rightarrow> string) \<Rightarrow> 'r list \<Rightarrow> 'r list" where
  "visible idf rs = remdups (filter (\<lambda>r. row_map idf rs (idf r) = Some r) rs)"

definition fresh_id :: "('r \<Rightarrow> string) \<Rightarrow> 'r list \<Rightarrow> string" where
  "fresh_id idf rs = replicate (Suc (foldr (\<lambda>r n. max (length (idf r)) n) rs 0)) (CHR ''x'')"

lemma row_map_simps [simp]:
  "row_map idf [] = Map.empty"
  "row_map idf (r # rs) = (row_map idf rs)(idf r \<mapsto> r)"
  by (simp_all add: row_map_def)

lemma row_map_mem: "row_map idf rs i = Some r \<Longrightarrow> r \<in> set rs \<and> idf r = i"
  by (induction rs) (auto split: if_splits)

lemma set_visible [simp]: "set (visible idf rs) = ran (row_map idf rs)"
  using row_map_mem [of idf rs] by (fastforce simp: visible_def ran_def)

lemma distinct_visible [simp]: "distinct (visible idf rs)"
  by (simp add: visible_def)

lemma distinct_ids_visible: "distinct (map idf (visible idf rs))"
proof -
  have "inj_on idf (ran (row_map idf rs))"
    unfolding inj_on_def ran_def using row_map_mem [of idf rs] by fastforce
  then show ?thesis by (simp add: distinct_map)
qed

lemma row_map_filter:
  "row_map idf (filter (\<lambda>r. P (idf r)) rs) = (\<lambda>i. if P i then row_map idf rs i else None)"
  by (induction rs) (auto simp: fun_eq_iff)

lemma fresh_id_fresh [simp]: "row_map idf rs (fresh_id idf rs) = None"
proof -
  have "length (idf r) \<le> foldr (\<lambda>r n. max (length (idf r)) n) rs 0" if "r \<in> set rs" for r
    using that by (induction rs) auto
  then have "idf r \<noteq> fresh_id idf rs" if "r \<in> set rs" for r
    using that by (fastforce simp: fresh_id_def)
  then show ?thesis
    using row_map_mem by (metis not_Some_eq)
qed

lemma find_visible_None: "find P (visible idf rs) = None \<longleftrightarrow> (\<forall>i r. row_map idf rs i = Some r \<longrightarrow> \<not> P r)"
  by (auto simp: find_None_iff ran_def)

lemma find_visible_Some:
  "find P (visible idf rs) = Some r \<Longrightarrow> P r \<and> row_map idf rs (idf r) = Some r"
  using row_map_mem [of idf rs] by (fastforce simp: find_Some_iff ran_def dest: nth_mem)

section \<open>The store\<close>

record ref_rows =
  rr_users :: "user_row list"
  rr_products :: "product_row list"
  rr_orders :: "order_row list"
  rr_items :: "order_item list"
  rr_processed :: "processed_message list"
  rr_files :: "file_record list"

record ref_db =
  rd_rows :: ref_rows
  rd_tx :: "ref_rows txn"
  rd_now :: int

definition tables_of :: "ref_rows \<Rightarrow> tables" where
  "tables_of rs =
     \<lparr>t_users = row_map u_id (rr_users rs), t_products = row_map p_id (rr_products rs),
      t_orders = row_map o_id (rr_orders rs), t_items = row_map oi_id (rr_items rs),
      t_processed = row_map pm_messageId (rr_processed rs), t_files = row_map f_id (rr_files rs)\<rparr>"

definition ref_tabs :: "ref_db \<Rightarrow> tables" where
  "ref_tabs d = tables_of (rd_rows d)"

definition ref_tx :: "ref_db \<Rightarrow> tables txn" where
  "ref_tx d = map_txn tables_of (rd_tx d)"

definition load_order :: "ref_rows \<Rightarrow> order_row \<Rightarrow> order" where
  "load_order rs r =
     order_row.extend r
       (order.fields (filter (\<lambda>it. oi_orderId it = o_id r) (visible oi_id (rr_items rs))))"

definition refuse :: "string \<Rightarrow> string \<Rightarrow> (ref_db, 'a) async" where
  "refuse code msg = (\<lambda>d. (Inl (DbError (Some code) msg),
     d\<lparr>rd_tx := (case rd_tx d of Active S \<Rightarrow> Aborted S | v \<Rightarrow> v)\<rparr>))"

definition on_rows :: "(ref_rows \<Rightarrow> ref_rows) \<Rightarrow> ref_db \<Rightarrow> ref_db" where
  "on_rows f d = d\<lparr>rd_rows := f (rd_rows d)\<rparr>"

definition ref_findKey :: "string \<Rightarrow> ref_rows \<Rightarrow> order_row option" where
  "ref_findKey k rs = find (\<lambda>r. o_idempotencyKey r = Some k) (visible o_id (rr_orders rs))"

definition ref_insertOrder :: "new_order \<Rightarrow> (ref_db, order_row) async" where
  "ref_insertOrder n d =
     (let rs = rd_rows d;
          r = \<lparr>o_id = fresh_id o_id (rr_orders rs), o_userId = no_userId n, o_status = no_status n,
               o_idempotencyKey = no_idempotencyKey n, o_createdAt = rd_now d,
               o_updatedAt = Some (rd_now d), o_processedAt = None\<rparr>
      in if row_map u_id (rr_users rs) (no_userId n) = None then
           refuse ''23503'' ''violates foreign key constraint'' d
         else if (case no_idempotencyKey n of None \<Rightarrow> False | Some k \<Rightarrow> ref_findKey k rs \<noteq> None) then
           refuse ''23505'' ''duplicate key value violates unique constraint'' d
         else (Inr r, on_rows (\<lambda>rs. rs\<lparr>rr_orders := r # rr_orders rs\<rparr>) d))"

definition ref_insertItem :: "new_item \<Rightarrow> (ref_db, order_item) async" where
  "ref_insertItem n d =
     (let rs = rd_rows d;
          it = \<lparr>oi_id = fresh_id oi_id (rr_items rs), oi_orderId = ni_orderId n,
                oi_productId = ni_productId n, oi_quantity = ni_quantity n,
                oi_priceSnapshot = ni_priceSnapshot n, oi_createdAt = rd_now d,
                oi_updatedAt = rd_now d\<rparr>
      in if row_map o_id (rr_orders rs) (ni_orderId n) = None then
           refuse ''23503'' ''violates foreign key constraint'' d
         else (Inr it, on_rows (\<lambda>rs. rs\<lparr>rr_items := it # rr_items rs\<rparr>) d))"

definition ref_saveOrder :: "order_row \<Rightarrow> (ref_db, order_row) async" where
  "ref_saveOrder r d =
     (if (case o_idempotencyKey r of None \<Rightarrow> False
          | Some k \<Rightarrow> find (\<lambda>q. o_idempotencyKey q = Some k \<and> o_id q \<noteq> o_id r)
              (visible o_id (rr_orders (rd_rows d))) \<noteq> None) then
        refuse ''23505'' ''duplicate key value violates unique constraint'' d
      else
        (let r' = r\<lparr>o_updatedAt := Some (rd_now d)\<rparr> in
         (Inr r', on_rows (\<lambda>rs. rs\<lparr>rr_orders := r' # rr_orders rs\<rparr>) d)))"

definition ref_deleteOrder :: "string \<Rightarrow> (ref_db, nat option) async" where
  "ref_deleteOrder oid d =
     (if row_map o_id (rr_orders (rd_rows d)) oid = None then (Inr (Some 0), d)
      else (Inr (Some 1), on_rows (\<lambda>rs. rs\<lparr>
        rr_orders := filter (\<lambda>r. o_id r \<noteq> oid) (rr_orders rs),
        rr_items := filter (\<lambda>it. oi_orderId it \<noteq> oid) (visible oi_id (rr_items rs)),
        rr_processed :=
          filter (\<lambda>pm. pm_orderId pm \<noteq> oid) (visible pm_messageId (rr_processed rs))\<rparr>) d))"

definition ref_matching :: "order_query \<Rightarrow> ref_rows \<Rightarrow> order_row list" where
  "ref_matching q rs = filter (query_matches q) (visible o_id (rr_orders rs))"

definition ref_transaction ::
  "(ref_db, process_tx_result) async \<Rightarrow> (ref_db, process_tx_result) async" where
  "ref_transaction m d =
     (case m (d\<lparr>rd_tx := Active (rd_rows d)\<rparr>) of
        (Inr x, d') \<Rightarrow> (Inr x, d'\<lparr>rd_rows := (case rd_tx d' of Aborted S \<Rightarrow> S | _ \<Rightarrow> rd_rows d'),
                                rd_tx := Idle\<rparr>)
      | (Inl e, d') \<Rightarrow> (Inl e, d'\<lparr>rd_rows := rd_rows d, rd_tx := Idle\<rparr>))"

definition ref_insertProcessed ::
  "json option \<Rightarrow> json option \<Rightarrow> string \<Rightarrow> (ref_db, unit) async" where
  "ref_insertProcessed mid oid h d =
     (case (mid, oid) of
        (Some (JStr m), Some (JStr i)) \<Rightarrow>
          if row_map pm_messageId (rr_processed (rd_rows d)) m \<noteq> None then
            refuse ''23505'' ''duplicate key value violates unique constraint'' d
          else if row_map o_id (rr_orders (rd_rows d)) i = None then
            refuse ''23503'' ''violates foreign key constraint'' d
          else (Inr (), on_rows (\<lambda>rs. rs\<lparr>rr_processed :=
            \<lparr>pm_messageId = m, pm_orderId = i, pm_handler = Some h, pm_processedAt = rd_now d\<rparr>
              # rr_processed rs\<rparr>) d)
      | _ \<Rightarrow> refuse ''22P02'' ''invalid input syntax for type uuid'' d)"

definition ref_store :: "ref_db store" where
  "ref_store =
     \<lparr>repo_findOrderByKey = (\<lambda>k. gets (\<lambda>d. map_option (load_order (rd_rows d)) (ref_findKey k (rd_rows d)))),
      repo_findUser = (\<lambda>i. gets (\<lambda>d. row_map u_id (rr_users (rd_rows d)) i)),
      repo_findOrder = (\<lambda>i. gets (\<lambda>d. map_option (load_order (rd_rows d))
        (row_map o_id (rr_orders (rd_rows d)) i))),
      repo_findOrderRow = (\<lambda>i. gets (\<lambda>d. row_map o_id (rr_orders (rd_rows d)) i)),
      repo_findOrders = gets (\<lambda>d. map (load_order (rd_rows d)) (visible o_id (rr_orders (rd_rows d)))),
      repo_saveOrder = ref_saveOrder,
      repo_deleteOrder = ref_deleteOrder,
      repo_getCount = (\<lambda>q. gets (\<lambda>d. length (ref_matching q (rd_rows d)))),
      repo_getMany = (\<lambda>q. gets (\<lambda>d. page_of q (map (load_order (rd_rows d))
        (sort_key (\<lambda>r. - o_createdAt r) (ref_matching q (rd_rows d)))))),
      qr_connect = resolve (),
      qr_startTransaction = modify (\<lambda>d. d\<lparr>rd_tx := Active (rd_rows d)\<rparr>),
      qr_commitTransaction = modify (\<lambda>d. d\<lparr>rd_tx := Idle\<rparr>),
      qr_rollbackTransaction = modify (\<lambda>d.
        d\<lparr>rd_rows := (case rd_tx d of Idle \<Rightarrow> rd_rows d | Active S \<Rightarrow> S | Aborted S \<Rightarrow> S), rd_tx := Idle\<rparr>),
      qr_release = resolve (),
      qr_insertOrder = ref_insertOrder,
      qr_findProduct = (\<lambda>i. gets (\<lambda>d. row_map p_id (rr_products (rd_rows d)) i)),
      qr_saveProduct = (\<lambda>p d. (Inr p, on_rows (\<lambda>rs. rs\<lparr>rr_products := p # rr_products rs\<rparr>) d)),
      qr_insertItem = ref_insertItem,
      qr_findOrder = (\<lambda>i. gets (\<lambda>d. map_option (load_order (rd_rows d))
        (row_map o_id (rr_orders (rd_rows d)) i))),
      ds_transaction = ref_transaction,
      tx_insertProcessed = ref_insertProcessed,
      tx_findOrder = (\<lambda>i. case i of
          Some (JStr oid) \<Rightarrow> gets (\<lambda>d. row_map o_id (rr_orders (rd_rows d)) oid)
        | _ \<Rightarrow> refuse ''22P02'' ''invalid input syntax for type uuid''),
      tx_saveOrder = ref_saveOrder\<rparr>"

section \<open>It meets the contract\<close>

lemmas ref_simps = ref_tabs_def ref_tx_def tables_of_def on_rows_def

lemma ref_refuse_spec [simp]:
  "ref_tabs (snd (refuse c m d)) = ref_tabs d"
  "lost (ref_tx d) (ref_tx (snd (refuse c m d)))"
  "fst (refuse c m d) = Inl (DbError (Some c) m)"
  by (cases "rd_tx d"; simp add: refuse_def ref_simps lost_def)+

lemma is_refuse: "\<exists>c msg. refuse c' msg' d = refuse c msg d"
  by blast

lemma op_spec_refuse: "op_spec ref_tabs ref_tx ok (refuse c m) R"
  using ref_refuse_spec [where c = c and m = m] by (auto simp: op_spec_def refuse_def)

lemma row_map_id: "row_map idf rs i = Some r \<Longrightarrow> row_map idf rs (idf r) = Some r"
  using row_map_mem by metis

lemma op_spec_gets: "(\<And>d. P (ref_tabs d) (f d)) \<Longrightarrow> op_spec ref_tabs ref_tx ok (gets f) (reads P)"
  by (simp add: op_spec_def async_simps)

lemma op_spec_resolve: "op_spec ref_tabs ref_tx ok (resolve x) (reads (\<lambda>T u. True))"
  by (simp add: op_spec_def async_simps)

lemma op_specI:
  assumes "\<And>d. (\<exists>c msg. m d = refuse c msg d) \<or>
    (\<exists>x t. m d = (Inr x, t) \<and> R (ref_tabs d) x (ref_tabs t) \<and> rd_tx t = rd_tx d)"
  shows "op_spec ref_tabs ref_tx ok m R"
  unfolding op_spec_def
proof (intro allI impI)
  fix d
  show "case m d of (Inl e, t) \<Rightarrow> ref_tabs t = ref_tabs d \<and> lost (ref_tx d) (ref_tx t)
    | (Inr x, t) \<Rightarrow> R (ref_tabs d) x (ref_tabs t) \<and> ref_tx t = ref_tx d"
  proof (cases "\<exists>c msg. m d = refuse c msg d")
    case True
    then obtain c msg where "m d = refuse c msg d" by blast
    then show ?thesis
      using ref_refuse_spec [where c = c and m = msg and d = d] by (simp add: refuse_def)
  next
    case False
    with assms [of d] show ?thesis by (auto simp: ref_tx_def)
  qed
qed

lemma load_order_simps [simp]:
  "o_id (load_order rs r) = o_id r"
  "o_createdAt (load_order rs r) = o_createdAt r"
  "o_idempotencyKey (load_order rs r) = o_idempotencyKey r"
  "order_row.truncate (load_order rs r) = r"
  "o_items (load_order rs r) = filter (\<lambda>it. oi_orderId it = o_id r) (visible oi_id (rr_items rs))"
  by (cases r; simp add: load_order_def order_row.defs order.defs)+

lemma loaded_load_order:
  "row_map o_id (rr_orders rs) (o_id r) = Some r \<Longrightarrow> loaded (tables_of rs) (load_order rs r)"
  by (auto simp: loaded_def tables_of_def items_of_def)

lemma row_map_distinct:
  "distinct (map idf L) \<Longrightarrow> row_map idf L i = Some r \<longleftrightarrow> r \<in> set L \<and> idf r = i"
  by (auto simp: row_map_def map_of_eq_Some_iff comp_def)

lemma row_map_filter_visible:
  "row_map idf (filter P (visible idf rs)) i =
     (case row_map idf rs i of None \<Rightarrow> None | Some r \<Rightarrow> if P r then Some r else None)"
proof -
  have d: "distinct (map idf (filter P (visible idf rs)))"
    using distinct_ids_visible [of idf rs] by (rule distinct_map_filter)
  have some: "row_map idf (filter P (visible idf rs)) i = Some r \<longleftrightarrow>
      row_map idf rs i = Some r \<and> P r" for r
  proof -
    have "(\<exists>j. row_map idf rs j = Some r) \<and> idf r = i \<longleftrightarrow> row_map idf rs i = Some r"
      using row_map_mem by metis
    then show ?thesis by (auto simp: row_map_distinct [OF d] ran_def)
  qed
  show ?thesis
  proof (cases "row_map idf (filter P (visible idf rs)) i")
    case None
    with some show ?thesis by (simp split: option.split)
  next
    case (Some r)
    with some [of r] show ?thesis by simp
  qed
qed

lemma ref_by_key: "by_key k (tables_of rs) (map_option (load_order rs) (ref_findKey k rs))"
proof (cases "ref_findKey k rs")
  case None
  then have "\<forall>i r. row_map o_id (rr_orders rs) i = Some r \<longrightarrow> o_idempotencyKey r \<noteq> Some k"
    by (simp add: ref_findKey_def find_visible_None)
  with None show ?thesis by (simp add: by_key_def tables_of_def)
next
  case (Some r)
  with find_visible_Some [of "\<lambda>r. o_idempotencyKey r = Some k" o_id "rr_orders rs" r]
  show ?thesis by (auto simp: by_key_def ref_findKey_def loaded_load_order)
qed

lemma ref_by_id:
  "by_id oid (tables_of rs) (map_option (load_order rs) (row_map o_id (rr_orders rs) oid))"
  using row_map_mem [of o_id "rr_orders rs" oid]
  by (cases "row_map o_id (rr_orders rs) oid")
    (auto simp: by_id_def tables_of_def loaded_load_order [unfolded tables_of_def])

lemma ref_key_taken:
  "(case key of None \<Rightarrow> False | Some k \<Rightarrow> ref_findKey k rs \<noteq> None) \<longleftrightarrow> \<not> key_unused (tables_of rs) key"
proof (cases key)
  case (Some k)
  then show ?thesis
    using find_visible_None [of "\<lambda>r. o_idempotencyKey r = Some k" o_id "rr_orders rs"]
    by (auto simp: key_unused_def ref_findKey_def tables_of_def)
qed (simp add: key_unused_def)

lemma ref_insertOrder_spec:
  "op_spec ref_tabs ref_tx ok (ref_insertOrder n) (orders_added n)"
proof (rule op_specI)
  fix d
  show "(\<exists>c msg. ref_insertOrder n d = refuse c msg d) \<or>
    (\<exists>x t. ref_insertOrder n d = (Inr x, t) \<and>
      orders_added n (ref_tabs d) x (ref_tabs t) \<and> rd_tx t = rd_tx d)"
    by (simp add: ref_insertOrder_def Let_def ref_key_taken)
      (auto simp: orders_added_def ref_simps key_free_def key_unused_def)
qed

lemma ref_insertItem_spec:
  "op_spec ref_tabs ref_tx ok (ref_insertItem n) (item_added n)"
proof (rule op_specI)
  fix d
  show "(\<exists>c msg. ref_insertItem n d = refuse c msg d) \<or>
    (\<exists>x t. ref_insertItem n d = (Inr x, t) \<and>
      item_added n (ref_tabs d) x (ref_tabs t) \<and> rd_tx t = rd_tx d)"
    by (simp add: ref_insertItem_def Let_def)
      (auto simp: item_added_def ref_simps intro!: exI [of _ "ni_priceSnapshot n"])
qed

lemma ref_key_conflict:
  "(case o_idempotencyKey r of None \<Rightarrow> False
    | Some k \<Rightarrow> find (\<lambda>q. o_idempotencyKey q = Some k \<and> o_id q \<noteq> o_id r)
        (visible o_id (rr_orders rs)) \<noteq> None) \<longleftrightarrow>
   \<not> key_free (tables_of rs) (o_idempotencyKey r) (o_id r)"
proof (cases "o_idempotencyKey r")
  case (Some k)
  then show ?thesis
    using find_visible_None [of "\<lambda>q. o_idempotencyKey q = Some k \<and> o_id q \<noteq> o_id r"
        o_id "rr_orders rs"] row_map_mem [of o_id "rr_orders rs"]
    by (auto simp: key_free_def tables_of_def)
qed (simp add: key_free_def)

lemma ref_saveOrder_spec:
  "op_spec ref_tabs ref_tx ok (ref_saveOrder r) (order_saved r)"
proof (rule op_specI)
  fix d
  show "(\<exists>c msg. ref_saveOrder r d = refuse c msg d) \<or>
    (\<exists>x t. ref_saveOrder r d = (Inr x, t) \<and>
      order_saved r (ref_tabs d) x (ref_tabs t) \<and> rd_tx t = rd_tx d)"
    by (simp add: ref_saveOrder_def Let_def ref_key_conflict)
      (auto simp: order_saved_def ref_simps)
qed

lemma ref_deleteOrder_spec:
  "op_spec ref_tabs ref_tx ok (ref_deleteOrder oid) (order_deleted oid)"
proof (rule op_specI)
  fix d
  have "row_map o_id (filter (\<lambda>r. o_id r \<noteq> oid) rs) = (row_map o_id rs)(oid := None)" for rs
    by (simp add: row_map_filter [where P = "\<lambda>i. i \<noteq> oid"] fun_eq_iff)
  note filtered = this
  show "(\<exists>c msg. ref_deleteOrder oid d = refuse c msg d) \<or>
    (\<exists>x t. ref_deleteOrder oid d = (Inr x, t) \<and>
      order_deleted oid (ref_tabs d) x (ref_tabs t) \<and> rd_tx t = rd_tx d)"
    by (auto simp: ref_deleteOrder_def order_deleted_def without_order_def ref_simps
        row_map_filter_visible filtered split: option.splits)
qed

lemma ref_insertProcessed_spec:
  "op_spec ref_tabs ref_tx ok (ref_insertProcessed mid oid h) (processed_added mid oid h)"
proof (rule op_specI)
  fix d
  show "(\<exists>c msg. ref_insertProcessed mid oid h d = refuse c msg d) \<or>
    (\<exists>x t. ref_insertProcessed mid oid h d = (Inr x, t) \<and>
      processed_added mid oid h (ref_tabs d) x (ref_tabs t) \<and> rd_tx t = rd_tx d)"
  proof (cases "\<exists>m i. mid = Some (JStr m) \<and> oid = Some (JStr i)")
    case True
    then obtain m i where ids: "mid = Some (JStr m)" "oid = Some (JStr i)" by blast
    show ?thesis
    proof (cases "row_map pm_messageId (rr_processed (rd_rows d)) m = None \<and>
        row_map o_id (rr_orders (rd_rows d)) i \<noteq> None")
      case True
      with ids show ?thesis
        by (intro disjI2) (auto simp: ref_insertProcessed_def processed_added_def ref_simps)
    next
      case False
      with ids have "\<exists>c msg. ref_insertProcessed mid oid h d = refuse c msg d"
        by (auto simp: ref_insertProcessed_def is_refuse)
      then show ?thesis by blast
    qed
  next
    case False
    then have "\<exists>c msg. ref_insertProcessed mid oid h d = refuse c msg d"
      by (auto simp: ref_insertProcessed_def split: option.splits json.splits)
    then show ?thesis by blast
  qed
qed

lemma set_ref_matching: "set (ref_matching q rs) = matching q (tables_of rs)"
  by (auto simp: ref_matching_def matching_def tables_of_def)

lemma ref_count: "length (ref_matching q rs) = card (matching q (tables_of rs))"
  by (metis distinct_card distinct_filter distinct_visible ref_matching_def set_ref_matching)

lemma ref_page:
  "order_page q (tables_of rs)
     (page_of q (map (load_order rs) (sort_key (\<lambda>r. - o_createdAt r) (ref_matching q rs))))"
proof -
  let ?ys = "sort_key (\<lambda>r. - o_createdAt r) (ref_matching q rs)"
  have "distinct (map o_id (ref_matching q rs))"
    unfolding ref_matching_def by (rule distinct_map_filter [OF distinct_ids_visible])
  then have "distinct (map o_id ?ys)"
    by (simp add: distinct_map)
  moreover have "loaded (tables_of rs) (load_order rs r)" if "r \<in> set ?ys" for r
    using that row_map_mem [of o_id "rr_orders rs"]
    by (intro loaded_load_order) (auto simp: ref_matching_def ran_def)
  moreover have "sorted_wrt (\<lambda>x y. o_createdAt y \<le> o_createdAt x) ?ys"
    using sorted_sort_key [of "\<lambda>r. - o_createdAt r" "ref_matching q rs"]
    by (simp add: sorted_map)
  ultimately show ?thesis
    unfolding order_page_def
    by (intro exI [of _ "map (load_order rs) ?ys"])
      (auto simp: comp_def sorted_wrt_map set_ref_matching image_image)
qed

interpretation ref: relational_store ref_store ref_tabs ref_tx
proof unfold_locales
  show "op_spec ref_tabs ref_tx ((=) Idle) (repo_findOrderByKey ref_store k) (reads (by_key k))" for k
    by (simp add: ref_store_def op_spec_gets ref_tabs_def ref_by_key)
  show "op_spec ref_tabs ref_tx ((=) Idle) (repo_findOrder ref_store oid) (reads (by_id oid))" for oid
    by (simp add: ref_store_def op_spec_gets ref_tabs_def ref_by_id)
  show "op_spec ref_tabs ref_tx is_active (qr_findOrder ref_store oid) (reads (by_id oid))" for oid
    by (simp add: ref_store_def op_spec_gets ref_tabs_def ref_by_id)
  show "op_spec ref_tabs ref_tx ((=) Idle) (repo_findOrders ref_store)
      (reads (\<lambda>T v. \<forall>x \<in> set v. loaded T x))"
    by (auto simp: ref_store_def ref_tabs_def ran_def intro!: op_spec_gets loaded_load_order
        dest: row_map_id)
  show "op_spec ref_tabs ref_tx ((=) Idle) (repo_getCount ref_store q)
      (reads (\<lambda>T n. n = card (matching q T)))" for q
    by (simp add: ref_store_def op_spec_gets ref_tabs_def ref_count)
  show "op_spec ref_tabs ref_tx ((=) Idle) (repo_getMany ref_store q) (reads (order_page q))" for q
    by (simp add: ref_store_def op_spec_gets ref_tabs_def ref_page)
  show "op_spec ref_tabs ref_tx is_active (qr_saveProduct ref_store p) (product_saved p)" for p
    by (rule op_specI) (auto simp: ref_store_def product_saved_def ref_simps intro!: exI [of _ "p_updatedAt p"])
  show "case ds_transaction ref_store m s of
      (Inl e, t) \<Rightarrow> ref_tabs t = ref_tabs s \<and> ref_tx t = Idle
    | (Inr x, t) \<Rightarrow> \<exists>s1 s2. opened ref_tabs ref_tx s s1 \<and> m s1 = (Inr x, s2) \<and>
        ref_tabs t = committed ref_tabs ref_tx s2 \<and> ref_tx t = Idle" if "ref_tx s = Idle" for m s
  proof (cases "m (s\<lparr>rd_tx := Active (rd_rows s)\<rparr>)")
    case (Pair v s2)
    have "opened ref_tabs ref_tx s (s\<lparr>rd_tx := Active (rd_rows s)\<rparr>)"
      by (simp add: opened_def ref_simps)
    with Pair show ?thesis
      by (cases v; cases "rd_tx s2") (auto simp: ref_store_def ref_transaction_def ref_simps committed_def)
  qed
  show "\<exists>m'. mid = Some (JStr m') \<and> t_processed (ref_tabs s) m' \<noteq> None"
    if "tx_insertProcessed ref_store mid roid h s = (Inl e, t)" "isUniqueViolation e" for mid roid h s e t
    using that by (auto simp: ref_store_def ref_insertProcessed_def refuse_def ref_simps
        split: option.splits json.splits if_splits)
  show "case qr_commitTransaction ref_store s of
      (Inl e, t) \<Rightarrow> ref_tabs t = ref_tabs s \<and> lost (ref_tx s) (ref_tx t)
    | (Inr u, t) \<Rightarrow> ref_tabs t = ref_tabs s \<and> ref_tx t = Idle" if "ref_tx s = Active S" for s S
    by (simp add: ref_store_def async_simps ref_simps)
  show "ref_tabs (snd (qr_rollbackTransaction ref_store s)) = S \<and>
      ref_tx (snd (qr_rollbackTransaction ref_store s)) = Idle"
    if "lost (Active S) (ref_tx s)" for s S
    using that by (cases "rd_tx s"; simp add: ref_store_def async_simps ref_simps lost_Active)+
  show "case qr_startTransaction ref_store s of
      (Inl e, t) \<Rightarrow> ref_tabs t = ref_tabs s \<and> ref_tx t = Idle
    | (Inr u, t) \<Rightarrow> opened ref_tabs ref_tx s t" if "ref_tx s = Idle" for s
    by (simp add: ref_store_def async_simps opened_def ref_simps)
qed (simp_all add: ref_store_def op_spec_gets ref_tabs_def tables_of_def op_spec_resolve
    ref_insertOrder_spec ref_insertItem_spec ref_saveOrder_spec ref_deleteOrder_spec
    ref_insertProcessed_spec async_simps)

lemma works_gets [simp]: "works (gets f) s"
  by (simp add: works_def async_simps)

lemma refused_refuse [simp]: "refused c (refuse c msg) d"
  by (simp add: refused_def refuse_def)

lemma ref_users: "row_map u_id (rr_users (rd_rows d)) = t_users (ref_tabs d)"
  "row_map o_id (rr_orders (rd_rows d)) = t_orders (ref_tabs d)"
  "row_map p_id (rr_products (rd_rows d)) = t_products (ref_tabs d)"
  "row_map pm_messageId (rr_processed (rd_rows d)) = t_processed (ref_tabs d)"
  by (simp_all add: ref_simps)

interpretation ref: reliable_store ref_store ref_tabs ref_tx "\<lambda>q. True"
proof unfold_locales
  show "\<exists>s1. opened ref_tabs ref_tx s s1 \<and> fst (ds_transaction ref_store m s) = fst (m s1)"
    if "ref_tx s = Idle" for m s
    by (rule exI [of _ "s\<lparr>rd_tx := Active (rd_rows s)\<rparr>"])
      (auto simp: ref_store_def ref_transaction_def opened_def ref_simps split: prod.splits sum.splits)
qed (auto simp: ref_store_def works_def refused_def refuse_def async_simps ref_insertOrder_def
    ref_insertItem_def ref_saveOrder_def ref_insertProcessed_def Let_def ref_users
    ref_key_taken ref_key_conflict ref_tabs_def [symmetric])

end
