(* ===== verification/OrdersFacts.thy ===== *)
theory OrdersFacts
  imports "HOL-Library.Multiset" Orders ReferenceStore
begin

text \<open>
  Facts about the orders service over any store that meets the contract: what the transaction
  of \<open>create\<close> does to the tables, in closed form (\<open>order_placed\<close>), that its failures leave
  them alone, and when it succeeds on a store that fails only on constraints.
\<close>

section \<open>The abstract effect of an order\<close>

definition requested :: "create_item list \<Rightarrow> string \<Rightarrow> int" where
  "requested items pid =
     sum_list (map (\<lambda>i. if ci_productId i = pid then ci_quantity i else 0) items)"

definition ordered :: "create_item list \<Rightarrow> string \<Rightarrow> bool" where
  "ordered items pid \<longleftrightarrow> (\<exists>i \<in> set items. ci_productId i = pid)"

text \<open>
  Every product of the items exists and has the stock asked for in all, which is taken from
  it; nothing else of a product changes but its timestamp.
\<close>

definition stock_taken :: "tables \<Rightarrow> create_item list \<Rightarrow> tables \<Rightarrow> bool" where
  "stock_taken T items T' \<longleftrightarrow>
     (\<forall>pid. case t_products T pid of
        None \<Rightarrow> t_products T' pid = None \<and> \<not> ordered items pid
      | Some p \<Rightarrow>
          (\<exists>u. t_products T' pid =
             Some (p\<lparr>p_stock := p_stock p - requested items pid, p_updatedAt := u\<rparr>)) \<and>
          (ordered items pid \<longrightarrow> requested items pid \<le> p_stock p))"

definition item_line :: "order_item \<Rightarrow> string \<times> int" where
  "item_line it = (oi_productId it, oi_quantity it)"

definition input_line :: "create_item \<Rightarrow> string \<times> int" where
  "input_line i = (ci_productId i, ci_quantity i)"

definition order_placed ::
  "tables \<Rightarrow> string \<Rightarrow> string option \<Rightarrow> create_item list \<Rightarrow> order \<Rightarrow> tables \<Rightarrow> bool" where
  "order_placed T userId key items x T' \<longleftrightarrow>
     t_orders T (o_id x) = None \<and> t_users T userId \<noteq> None \<and> key_unused T key \<and>
     o_userId x = userId \<and> o_status x = PENDING \<and> o_idempotencyKey x = key \<and>
     o_processedAt x = None \<and> (\<forall>i \<in> set items. 0 < ci_quantity i) \<and>
     t_orders T' = (t_orders T)(o_id x \<mapsto> order_row.truncate x) \<and> loaded T' x \<and>
     mset (map item_line (o_items x)) = mset (map input_line items) \<and>
     stock_taken T items T' \<and>
     t_items T \<subseteq>\<^sub>m t_items T' \<and> (\<forall>i it. t_items T' i = Some it \<longrightarrow> oi_id it = i) \<and>
     (\<forall>oid. oid \<noteq> o_id x \<longrightarrow> items_of T' oid = items_of T oid) \<and>
     t_users T' = t_users T \<and> t_processed T' = t_processed T \<and> t_files T' = t_files T"

lemma requested_simps [simp]:
  "requested [] pid = 0"
  "requested (i # is) pid = (if ci_productId i = pid then ci_quantity i else 0) + requested is pid"
  by (simp_all add: requested_def)

lemma ordered_simps [simp]:
  "\<not> ordered [] pid"
  "ordered (i # is) pid \<longleftrightarrow> ci_productId i = pid \<or> ordered is pid"
  by (auto simp: ordered_def)

lemma requested_append [simp]: "requested (xs @ ys) pid = requested xs pid + requested ys pid"
  by (simp add: requested_def)

lemma ordered_append [simp]: "ordered (xs @ ys) pid \<longleftrightarrow> ordered xs pid \<or> ordered ys pid"
  by (auto simp: ordered_def)

lemma not_ordered_requested: "\<not> ordered items pid \<Longrightarrow> requested items pid = 0"
  by (induction items) auto

lemma requested_nonneg: "\<forall>i \<in> set items. 0 < ci_quantity i \<Longrightarrow> 0 \<le> requested items pid"
  by (induction items) auto

section \<open>The loop over the items\<close>

definition products_own :: "tables \<Rightarrow> bool" where
  "products_own T \<longleftrightarrow> (\<forall>i r. t_products T i = Some r \<longrightarrow> p_id r = i)"

definition row_table :: "order_item list \<Rightarrow> string \<rightharpoonup> order_item" where
  "row_table rs = map_of (map (\<lambda>r. (oi_id r, r)) rs)"

definition placed_items ::
  "tables \<Rightarrow> string \<Rightarrow> create_item list \<Rightarrow> order_item list \<Rightarrow> tables \<Rightarrow> bool" where
  "placed_items T oid items rs T' \<longleftrightarrow>
     T' = T\<lparr>t_products := t_products T', t_items := t_items T ++ row_table rs\<rparr> \<and>
     stock_taken T items T' \<and> distinct (map oi_id rs) \<and>
     (\<forall>r \<in> set rs. t_items T (oi_id r) = None \<and> oi_orderId r = oid) \<and>
     map item_line rs = map input_line items \<and> (\<forall>i \<in> set items. 0 < ci_quantity i)"

lemma row_table_simps [simp]:
  "row_table [] = Map.empty"
  "row_table (r # rs) = (row_table rs)(oi_id r \<mapsto> r)"
  by (simp_all add: row_table_def)

lemma row_table_mem: "row_table rs i = Some r \<Longrightarrow> r \<in> set rs \<and> oi_id r = i"
  by (induction rs) (auto split: if_splits)

lemma row_table_own: "distinct (map oi_id rs) \<Longrightarrow> r \<in> set rs \<Longrightarrow> row_table rs (oi_id r) = Some r"
  by (simp add: row_table_def map_of_eq_Some_iff comp_def)

lemma row_table_None: "row_table rs i = None \<longleftrightarrow> i \<notin> oi_id ` set rs"
  by (induction rs) auto

lemma stock_taken_refl: "stock_taken T [] T"
  unfolding stock_taken_def
proof
  fix pid
  have "\<exists>u. p = p\<lparr>p_updatedAt := u\<rparr>" for p :: product_row
    by (rule exI [of _ "p_updatedAt p"]) simp
  then show "case t_products T pid of
      None \<Rightarrow> t_products T pid = None \<and> \<not> ordered [] pid
    | Some p \<Rightarrow>
        (\<exists>u. t_products T pid =
           Some (p\<lparr>p_stock := p_stock p - requested [] pid, p_updatedAt := u\<rparr>)) \<and>
        (ordered [] pid \<longrightarrow> requested [] pid \<le> p_stock p)"
    by (auto split: option.split)
qed

lemma stock_taken_products:
  "stock_taken T items T' \<Longrightarrow> t_products U = t_products T \<Longrightarrow> t_products U' = t_products T' \<Longrightarrow>
   stock_taken U items U'"
  by (simp add: stock_taken_def cong: option.case_cong)

lemma stock_taken_None: "stock_taken T items T' \<Longrightarrow> t_products T pid = None \<Longrightarrow> t_products T' pid = None"
  by (auto simp: stock_taken_def dest!: spec [of _ pid])

lemma stock_taken_Some:
  assumes "stock_taken T items T'" and "t_products T pid = Some p"
  obtains u where "t_products T' pid =
      Some (p\<lparr>p_stock := p_stock p - requested items pid, p_updatedAt := u\<rparr>)"
    "ordered items pid \<Longrightarrow> requested items pid \<le> p_stock p"
  using assms by (auto simp: stock_taken_def dest!: spec [of _ pid])

lemma products_own_taken:
  assumes "products_own T" and "stock_taken T items T'"
  shows "products_own T'"
  unfolding products_own_def
proof (intro allI impI)
  fix i r
  assume r: "t_products T' i = Some r"
  then obtain p where p: "t_products T i = Some p"
    using stock_taken_None [OF assms(2), of i] by fastforce
  with assms(1) have "p_id p = i" by (simp add: products_own_def)
  with stock_taken_Some [OF assms(2) p] r show "p_id r = i" by fastforce
qed

lemma stock_taken_append:
  assumes 1: "stock_taken T xs T1" and 2: "stock_taken T1 ys T2"
  shows "stock_taken T (xs @ ys) T2"
  unfolding stock_taken_def
proof
  fix pid
  show "case t_products T pid of
      None \<Rightarrow> t_products T2 pid = None \<and> \<not> ordered (xs @ ys) pid
    | Some p \<Rightarrow>
        (\<exists>u. t_products T2 pid =
           Some (p\<lparr>p_stock := p_stock p - requested (xs @ ys) pid, p_updatedAt := u\<rparr>)) \<and>
        (ordered (xs @ ys) pid \<longrightarrow> requested (xs @ ys) pid \<le> p_stock p)"
  proof (cases "t_products T pid")
    case None
    with stock_taken_None [OF 2 stock_taken_None [OF 1 None]] 1 2 show ?thesis
      using stock_taken_None [OF 1 None] unfolding stock_taken_def
      by (auto dest!: spec [of _ pid])
  next
    case (Some p)
    then obtain u where u: "t_products T1 pid =
        Some (p\<lparr>p_stock := p_stock p - requested xs pid, p_updatedAt := u\<rparr>)"
      "ordered xs pid \<Longrightarrow> requested xs pid \<le> p_stock p"
      by (rule stock_taken_Some [OF 1]) blast
    from stock_taken_Some [OF 2 u(1)] obtain u' where u': "t_products T2 pid =
        Some (p\<lparr>p_stock := p_stock p - requested xs pid - requested ys pid, p_updatedAt := u'\<rparr>)"
      "ordered ys pid \<Longrightarrow> requested ys pid \<le> p_stock p - requested xs pid" by auto
    have "requested (xs @ ys) pid \<le> p_stock p" if "ordered (xs @ ys) pid"
    proof (cases "ordered ys pid")
      case True
      with u'(2) show ?thesis by simp
    next
      case False
      with that u(2) not_ordered_requested [OF False] show ?thesis by simp
    qed
    with Some u'(1) show ?thesis by (auto simp: algebra_simps)
  qed
qed

lemma placed_items_Cons:
  assumes 1: "placed_items T oid [x] [r] T1" and 2: "placed_items T1 oid xs rs T2"
  shows "placed_items T oid (x # xs) (r # rs) T2"
proof -
  from 1 have T1: "T1 = T\<lparr>t_products := t_products T1, t_items := t_items T ++ [oi_id r \<mapsto> r]\<rparr>"
    by (simp add: placed_items_def)
  then have items1: "t_items T1 = (t_items T)(oi_id r \<mapsto> r)"
    by (metis map_add_empty map_add_upd tables.select_convs(4) tables.surjective tables.update_convs(4))
  from 2 have fresh: "t_items T1 (oi_id q) = None" if "q \<in> set rs" for q
    using that by (simp add: placed_items_def)
  then have new: "oi_id r \<notin> oi_id ` set rs" and
    old: "\<forall>q \<in> set rs. t_items T (oi_id q) = None"
    by (fastforce simp: items1 split: if_splits)+
  have "t_items T1 ++ row_table rs = t_items T ++ row_table (r # rs)"
  proof
    fix i
    show "(t_items T1 ++ row_table rs) i = (t_items T ++ row_table (r # rs)) i"
      using new [unfolded image_iff] row_table_mem [of rs i]
      by (cases "row_table rs i") (auto simp: items1 map_add_def)
  qed
  moreover have "T2 = T1\<lparr>t_products := t_products T2, t_items := t_items T1 ++ row_table rs\<rparr>"
    using 2 by (simp add: placed_items_def)
  ultimately have "T2 = T\<lparr>t_products := t_products T2, t_items := t_items T ++ row_table (r # rs)\<rparr>"
    using T1 by (metis tables.surjective tables.update_convs(2) tables.update_convs(4))
  with 1 2 new old show ?thesis
    using stock_taken_append [of T "[x]" T1 xs T2]
    by (auto simp: placed_items_def)
qed

end
