(* ===== verification/CreateOrder.thy ===== *)
theory CreateOrder
  imports OrdersFacts
begin

text \<open>
  Creating an order: the transaction's effect, its failures, idempotency, and when it
  succeeds. The lemmas are proved once for every store that meets the contract, inside its
  locale; the properties at the end are about \<open>create\<close> and \<open>create_stored\<close> over such a store
  and are applied to the reference store.
\<close>

section \<open>The effect of a create\<close>

text \<open>
  What \<open>create\<close> may do to the tables, by its outcome: nothing when it throws or answers an
  order that was there, and otherwise an order is placed.
\<close>

definition create_effect ::
  "tables \<Rightarrow> create_order_dto \<Rightarrow> string option \<Rightarrow> exn + order \<times> bool \<Rightarrow> tables \<Rightarrow> bool" where
  "create_effect T dto key v T' \<longleftrightarrow>
     (case v of
        Inl e \<Rightarrow> T' = T
      | Inr (x, wasDuplicate) \<Rightarrow>
          if wasDuplicate
          then T' = T \<and> truthy key \<and> loaded T x \<and> o_idempotencyKey x = key
          else (\<exists>items. co_items dto = Some items \<and> items \<noteq> [] \<and>
            order_placed T (co_userId dto) key items x T'))"

lemma create_effect_simps [simp]:
  "create_effect T dto key (Inl e) T' \<longleftrightarrow> T' = T"
  "create_effect T dto key (Inr (x, True)) T' \<longleftrightarrow>
     T' = T \<and> truthy key \<and> loaded T x \<and> o_idempotencyKey x = key"
  "create_effect T dto key (Inr (x, False)) T' \<longleftrightarrow>
     (\<exists>items. co_items dto = Some items \<and> items \<noteq> [] \<and>
        order_placed T (co_userId dto) key items x T')"
  by (simp_all add: create_effect_def)

lemma op_spec_weaken:
  assumes "op_spec tabs tx ok m R" and "\<And>T x T'. R T x T' \<Longrightarrow> R' T x T'"
  shows "op_spec tabs tx ok m R'"
  unfolding op_spec_def
proof (intro allI impI)
  fix s
  assume "ok (tx s)"
  then show "case m s of (Inl e, t) \<Rightarrow> tabs t = tabs s \<and> lost (tx s) (tx t)
    | (Inr x, t) \<Rightarrow> R' (tabs s) x (tabs t) \<and> tx t = tx s"
    using op_spec_Inr [OF assms(1), of s] op_spec_Inl [OF assms(1), of s] assms(2)
    by (auto split: prod.splits sum.splits)
qed

lemma op_spec_reads_weaken:
  "op_spec tabs tx ok m (reads P) \<Longrightarrow> (\<And>T x. P T x \<Longrightarrow> P' T x) \<Longrightarrow> op_spec tabs tx ok m (reads P')"
  by (erule op_spec_weaken) simp

section \<open>Inside the transaction\<close>

context relational_store
begin

lemma save_item_Inr:
  assumes run: "save_item db oid item s = (Inr it, t)" and act: "tx s = Active S"
    and own: "products_own (tabs s)"
  shows "tx t = Active S" and "\<exists>r. placed_items (tabs s) oid [item] [r] (tabs t)"
proof -
  let ?pid = "ci_productId item" and ?q = "ci_quantity item"
  have active: "is_active (tx s)" using act by simp
  from run obtain p s1 p' s2 where
    find: "qr_findProduct db ?pid s = (Inr (Some p), s1)" and
    q: "0 < ?q" "?q \<le> p_stock p" and
    save: "qr_saveProduct db (p\<lparr>p_stock := p_stock p - ?q\<rparr>) s1 = (Inr p', s2)" and
    ins: "qr_insertItem db \<lparr>ni_orderId = oid, ni_productId = ?pid, ni_quantity = ?q,
      ni_priceSnapshot = ci_priceSnapshot item\<rparr> s2 = (Inr it, t)"
    by (auto simp: save_item_def await_Inr_iff async_simps split: option.splits if_splits)
  from op_spec_Inr [OF findProduct active find] have
    1: "tabs s1 = tabs s" "t_products (tabs s) ?pid = Some p" "tx s1 = Active S"
    using act by auto
  from op_spec_Inr [OF saveProduct _ save] 1 have
    2: "product_saved (p\<lparr>p_stock := p_stock p - ?q\<rparr>) (tabs s) p' (tabs s2)" "tx s2 = Active S"
    by auto
  from op_spec_Inr [OF insertItem _ ins] 2 have
    3: "item_added \<lparr>ni_orderId = oid, ni_productId = ?pid, ni_quantity = ?q,
      ni_priceSnapshot = ci_priceSnapshot item\<rparr> (tabs s2) it (tabs t)" "tx t = Active S"
    by auto
  show "tx t = Active S" by (fact 3(2))
  have pid: "p_id p = ?pid" using own 1(2) by (simp add: products_own_def)
  from 2(1) obtain u where u: "p' = p\<lparr>p_stock := p_stock p - ?q, p_updatedAt := u\<rparr>"
    "tabs s2 = (tabs s)\<lparr>t_products := (t_products (tabs s))(?pid \<mapsto> p')\<rparr>"
    by (auto simp: product_saved_def pid)
  from 3(1) obtain q where r: "t_items (tabs s2) (oi_id it) = None" "oi_orderId it = oid"
    "oi_productId it = ?pid" "oi_quantity it = ?q"
    "tabs t = (tabs s2)\<lparr>t_items := (t_items (tabs s2))(oi_id it \<mapsto> it\<lparr>oi_priceSnapshot := q\<rparr>)\<rparr>"
    by (auto simp: item_added_def)
  have taken: "stock_taken (tabs s) [item] (tabs t)"
    unfolding stock_taken_def
  proof
    fix pid
    have "\<exists>u. p0 = p0\<lparr>p_updatedAt := u\<rparr>" for p0 :: product_row
      by (rule exI [of _ "p_updatedAt p0"]) simp
    then show "case t_products (tabs s) pid of
        None \<Rightarrow> t_products (tabs t) pid = None \<and> \<not> ordered [item] pid
      | Some p \<Rightarrow>
          (\<exists>u. t_products (tabs t) pid =
             Some (p\<lparr>p_stock := p_stock p - requested [item] pid, p_updatedAt := u\<rparr>)) \<and>
          (ordered [item] pid \<longrightarrow> requested [item] pid \<le> p_stock p)"
      using 1(2) u r(5) q(2) by (cases "pid = ?pid") (auto split: option.split)
  qed
  let ?r = "it\<lparr>oi_priceSnapshot := q\<rparr>"
  have "placed_items (tabs s) oid [item] [?r] (tabs t)"
    using taken q(1) r u(2)
    by (auto simp: placed_items_def item_line_def input_line_def)
  then show "\<exists>r. placed_items (tabs s) oid [item] [r] (tabs t)" by blast
qed

text \<open>A step of the transaction that throws, or what follows it: the transaction is still to be undone.\<close>

lemma await_lost:
  assumes "await m k s = (Inl e, t)" and "op_spec tabs tx is_active m R" and "tx s = Active S"
    and "\<And>x s1. m s = (Inr x, s1) \<Longrightarrow> R (tabs s) x (tabs s1) \<Longrightarrow> tx s1 = Active S \<Longrightarrow>
      k x s1 = (Inl e, t) \<Longrightarrow> lost (Active S) (tx t)"
  shows "lost (Active S) (tx t)"
  using assms(1) unfolding await_Inl_iff
proof
  assume "m s = (Inl e, t)"
  from op_spec_Inl [OF assms(2) _ this] assms(3) show ?thesis by simp
next
  assume "\<exists>x s1. m s = (Inr x, s1) \<and> k x s1 = (Inl e, t)"
  then obtain x s1 where x: "m s = (Inr x, s1)" "k x s1 = (Inl e, t)" by blast
  from op_spec_Inr [OF assms(2) _ x(1)] assms(3) have "R (tabs s) x (tabs s1)" "tx s1 = Active S"
    by simp_all
  with x assms(4) show ?thesis by blast
qed

lemma save_item_Inl:
  assumes run: "save_item db oid item s = (Inl e, t)" and act: "tx s = Active S"
  shows "lost (Active S) (tx t)"
  using run unfolding save_item_def
proof (rule await_lost [OF _ findProduct act])
  fix product s1
  assume s1: "tx s1 = Active S"
    and step: "(case product of None \<Rightarrow> throw (NotFoundException ''Product not found'')
      | Some p \<Rightarrow>
          if ci_quantity item \<le> 0 then throw (BadRequestException ''Quantity must be greater than zero'')
          else if p_stock p < ci_quantity item then throw (ConflictException ''Insufficient stock'')
          else await (qr_saveProduct db (p\<lparr>p_stock := p_stock p - ci_quantity item\<rparr>))
            (\<lambda>_. qr_insertItem db
               \<lparr>ni_orderId = oid, ni_productId = ci_productId item,
                ni_quantity = ci_quantity item, ni_priceSnapshot = ci_priceSnapshot item\<rparr>)) s1 =
      (Inl e, t)"
  have rest: "lost (Active S) (tx t)"
    if "await (qr_saveProduct db p) (\<lambda>_. qr_insertItem db n) s1 = (Inl e, t)" for p n
    using that
  proof (rule await_lost [OF _ saveProduct s1])
    fix s2
    assume s2: "tx s2 = Active S" and fail: "qr_insertItem db n s2 = (Inl e, t)"
    from op_spec_Inl [OF insertItem _ fail] s2 show ?thesis by simp
  qed
  from step s1 show ?thesis
    by (auto simp: async_simps split: option.splits if_splits intro: rest)
qed

lemma save_items_Inr:
  "save_items db oid items s = (Inr its, t) \<Longrightarrow> tx s = Active S \<Longrightarrow> products_own (tabs s) \<Longrightarrow>
   tx t = Active S \<and> (\<exists>rs. placed_items (tabs s) oid items rs (tabs t))"
proof (induction items arbitrary: s its)
  case Nil
  then have "t = s" by (simp add: async_simps)
  with Nil show ?case
    by (auto simp: placed_items_def stock_taken_refl intro!: exI [of _ "[]"])
next
  case (Cons x xs)
  from Cons.prems(1) obtain it s1 its' where
    1: "save_item db oid x s = (Inr it, s1)" and 2: "save_items db oid xs s1 = (Inr its', t)"
    by (auto simp: await_Inr_iff async_simps)
  from save_item_Inr [OF 1 Cons.prems(2,3)] obtain r where
    s1: "tx s1 = Active S" "placed_items (tabs s) oid [x] [r] (tabs s1)" by blast
  then have "products_own (tabs s1)"
    using Cons.prems(3) by (auto simp: placed_items_def intro: products_own_taken)
  from Cons.IH [OF 2 s1(1) this] obtain rs where
    "tx t = Active S" "placed_items (tabs s1) oid xs rs (tabs t)" by blast
  with placed_items_Cons [OF s1(2)] show ?case by blast
qed

lemma save_items_Inl:
  "save_items db oid items s = (Inl e, t) \<Longrightarrow> tx s = Active S \<Longrightarrow> products_own (tabs s) \<Longrightarrow>
   lost (Active S) (tx t)"
proof (induction items arbitrary: s)
  case (Cons x xs)
  from Cons.prems(1) consider "save_item db oid x s = (Inl e, t)"
    | it s1 where "save_item db oid x s = (Inr it, s1)" "save_items db oid xs s1 = (Inl e, t)"
    by (auto simp: await_Inl_iff async_simps)
  then show ?case
  proof cases
    case 1
    then show ?thesis using Cons.prems(2) by (rule save_item_Inl)
  next
    case 2
    from save_item_Inr [OF 2(1) Cons.prems(2,3)] obtain r where
      s1: "tx s1 = Active S" "placed_items (tabs s) oid [x] [r] (tabs s1)" by blast
    then have "products_own (tabs s1)"
      using Cons.prems(3) by (auto simp: placed_items_def intro: products_own_taken)
    with Cons.IH [OF 2(2) s1(1)] show ?thesis by blast
  qed
qed (simp add: async_simps)

end

text \<open>An order inserted, its items placed and the order reloaded: an order placed as specified.\<close>

lemma placed_order:
  assumes ok: "schema_ok T" and add: "orders_added n T r T1"
    and items: "placed_items T1 (o_id r) items rs T2" and by_id: "by_id (o_id r) T2 (Some x)"
    and n: "n = \<lparr>no_userId = userId, no_status = PENDING, no_idempotencyKey = key\<rparr>"
  shows "order_placed T userId key items x T2"
proof -
  have r: "t_orders T (o_id r) = None" "o_userId r = userId" "o_status r = PENDING"
    "o_idempotencyKey r = key" "o_processedAt r = None" "key_free T key (o_id r)"
    "t_users T userId \<noteq> None" "T1 = T\<lparr>t_orders := (t_orders T)(o_id r \<mapsto> r)\<rparr>"
    using add by (auto simp: orders_added_def n)
  have T2: "T2 = T1\<lparr>t_products := t_products T2, t_items := t_items T ++ row_table rs\<rparr>"
    and taken: "stock_taken T1 items T2" and ids: "distinct (map oi_id rs)"
    and rs: "\<And>q. q \<in> set rs \<Longrightarrow> t_items T (oi_id q) = None \<and> oi_orderId q = o_id r"
    and lines: "map item_line rs = map input_line items"
    and pos: "\<forall>i \<in> set items. 0 < ci_quantity i"
    using items by (simp_all add: placed_items_def r(8))
  have items2: "t_items T2 = t_items T ++ row_table rs"
    and orders2: "t_orders T2 = (t_orders T)(o_id r \<mapsto> r)"
    by (subst T2, simp add: r(8))+
  have same: "t_users T2 = t_users T" "t_processed T2 = t_processed T" "t_files T2 = t_files T"
    by (subst T2, simp add: r(8))+
  have x: "loaded T2 x" "o_id x = o_id r" using by_id by (auto simp: by_id_def)
  then have trunc: "order_row.truncate x = r" by (simp add: loaded_def orders2)
  have no_items: "oi_orderId it \<noteq> o_id r" if "t_items T i = Some it" for i it
  proof -
    from ok that have "t_orders T (oi_orderId it) \<noteq> None"
      unfolding schema_ok_def foreign_keys_def by blast
    with r(1) show ?thesis by metis
  qed
  have item: "t_items T2 i = Some it \<longleftrightarrow>
      (it \<in> set rs \<and> oi_id it = i) \<or> t_items T i = Some it" for i it
  proof -
    have "row_table rs i = Some it \<longleftrightarrow> it \<in> set rs \<and> oi_id it = i"
      using row_table_mem [of rs i it] row_table_own [OF ids, of it] by blast
    moreover have "row_table rs i = None \<or> t_items T i = None"
      using row_table_mem [of rs i] rs by (cases "row_table rs i") fastforce+
    ultimately show ?thesis
      by (cases "row_table rs i") (auto simp: items2 map_add_def)
  qed
  have "items_of T2 (o_id r) = set rs"
    using rs no_items by (auto simp: items_of_def ran_def item)
  then have "set (o_items x) = set rs" "distinct (o_items x)"
    using x by (simp_all add: loaded_def)
  moreover have "distinct rs" using ids by (simp add: distinct_map)
  ultimately have "mset (o_items x) = mset rs" by (simp add: set_eq_iff_mset_eq_distinct)
  then have "mset (map item_line (o_items x)) = mset (map input_line items)"
    using lines by (metis mset_map)
  moreover have "key_unused T key"
    using r(1,6) unfolding key_free_def key_unused_def by (metis option.distinct(1))
  moreover have "o_userId x = userId" "o_status x = PENDING" "o_idempotencyKey x = key"
    "o_processedAt x = None"
    using r(2-5) unfolding trunc [symmetric] by (simp_all add: order_row.truncate_def)
  moreover have "t_items T \<subseteq>\<^sub>m t_items T2"
    unfolding map_le_def using item by (metis domD)
  moreover have "oi_id it = i" if "t_items T2 i = Some it" for i it
    using that ok by (auto simp: item schema_ok_def own_ids_def)
  moreover have "items_of T2 oid = items_of T oid" if "oid \<noteq> o_id x" for oid
    using that rs x(2) by (auto simp: items_of_def ran_def item)
  moreover have "stock_taken T items T2"
    using taken by (rule stock_taken_products) (simp_all add: r(8))
  ultimately show ?thesis
    using r(1,7) x same pos trunc by (simp add: order_placed_def orders2)
qed

context relational_store
begin

text \<open>The whole body: it commits an order placed as specified, or leaves the transaction to be undone.\<close>

lemma create_in_transaction_Inr:
  assumes run: "create_in_transaction db dto items key s = (Inr x, t)" and act: "tx s = Active S"
    and ok: "schema_ok (tabs s)"
  shows "tx t = Idle" and "order_placed (tabs s) (co_userId dto) key items x (tabs t)"
proof -
  let ?n = "\<lparr>no_userId = co_userId dto, no_status = PENDING, no_idempotencyKey = key\<rparr>"
  from run obtain r s1 its s2 s3 where
    ins: "qr_insertOrder db ?n s = (Inr r, s1)" and
    loop: "save_items db (o_id r) items s1 = (Inr its, s2)" and
    find: "qr_findOrder db (o_id r) s2 = (Inr (Some x), s3)" and
    com: "qr_commitTransaction db s3 = (Inr (), t)"
    by (auto simp: create_in_transaction_def await_Inr_iff async_simps split: option.splits)
  from op_spec_Inr [OF insertOrder _ ins] act have
    1: "orders_added ?n (tabs s) r (tabs s1)" "tx s1 = Active S" by auto
  then have "products_own (tabs s1)"
    using ok by (auto simp: orders_added_def products_own_def schema_ok_def own_ids_def)
  from save_items_Inr [OF loop 1(2) this] obtain rs where
    2: "tx s2 = Active S" "placed_items (tabs s1) (o_id r) items rs (tabs s2)" by blast
  from op_spec_Inr [OF tx_reloadOrder _ find] 2 have
    3: "tabs s3 = tabs s2" "by_id (o_id r) (tabs s2) (Some x)" "tx s3 = Active S" by auto
  from commitTransaction [OF 3(3)] com have 4: "tabs t = tabs s2" "tx t = Idle"
    using 3(1) by simp_all
  show "tx t = Idle" by (fact 4(2))
  from placed_order [OF ok 1(1) 2(2) 3(2) refl] show
    "order_placed (tabs s) (co_userId dto) key items x (tabs t)" by (simp add: 4)
qed

lemma create_in_transaction_Inl:
  assumes run: "create_in_transaction db dto items key s = (Inl e, t)" and act: "tx s = Active S"
    and ok: "schema_ok (tabs s)"
  shows "lost (Active S) (tx t)"
  using run unfolding create_in_transaction_def
proof (rule await_lost [OF _ insertOrder act])
  fix r s1
  assume add: "orders_added \<lparr>no_userId = co_userId dto, no_status = PENDING,
      no_idempotencyKey = key\<rparr> (tabs s) r (tabs s1)" and s1: "tx s1 = Active S"
    and step: "await (save_items db (o_id r) items) (\<lambda>savedItems.
      await (qr_findOrder db (o_id r)) (\<lambda>createdOrder. case createdOrder of
        None \<Rightarrow> throw (NotFoundException ''Order not found after creation'')
      | Some created \<Rightarrow> await (qr_commitTransaction db) (\<lambda>_. resolve created))) s1 = (Inl e, t)"
  have own: "products_own (tabs s1)"
    using ok add by (auto simp: orders_added_def products_own_def schema_ok_def own_ids_def)
  from step consider "save_items db (o_id r) items s1 = (Inl e, t)"
    | its s2 where "save_items db (o_id r) items s1 = (Inr its, s2)"
      "await (qr_findOrder db (o_id r)) (\<lambda>createdOrder. case createdOrder of
        None \<Rightarrow> throw (NotFoundException ''Order not found after creation'')
      | Some created \<Rightarrow> await (qr_commitTransaction db) (\<lambda>_. resolve created)) s2 = (Inl e, t)"
    by (auto simp: await_Inl_iff)
  then show ?thesis
  proof cases
    case 1
    from save_items_Inl [OF 1 s1 own] show ?thesis .
  next
    case 2
    from save_items_Inr [OF 2(1) s1 own] have s2: "tx s2 = Active S" by blast
    from 2(2) show ?thesis
    proof (rule await_lost [OF _ tx_reloadOrder s2])
      fix v s3
      assume s3: "tx s3 = Active S" and last: "(case v of
          None \<Rightarrow> throw (NotFoundException ''Order not found after creation'')
        | Some created \<Rightarrow> await (qr_commitTransaction db) (\<lambda>_. resolve created)) s3 = (Inl e, t)"
      from last consider "t = s3" | "qr_commitTransaction db s3 = (Inl e, t)"
        by (auto simp: async_simps await_Inl_iff split: option.splits)
      then show ?thesis
        using commitTransaction [OF s3] s3 by cases auto
    qed
  qed
qed

lemma create_failed_run:
  assumes "lost (Active S) (tx s)" and run: "create_failed db key e s = (v, t)"
  shows "tabs t = S \<and> tx t = Idle \<and>
    (\<forall>x d. v = Inr (x, d) \<longrightarrow> d \<and> isUniqueViolation e \<and> truthy key \<and>
      loaded S x \<and> o_idempotencyKey x = key)"
proof -
  obtain w s1 where rb: "qr_rollbackTransaction db s = (w, s1)" by fastforce
  with rollbackTransaction [OF assms(1)] have s1: "tabs s1 = S" "tx s1 = Idle" by simp_all
  have find: "tabs t = S \<and> tx t = Idle \<and>
      (\<forall>x d. v = Inr (x, d) \<longrightarrow> d \<and> loaded S x \<and> o_idempotencyKey x = Some k)"
    if "await (repo_findOrderByKey db k) (\<lambda>existing. case existing of
        Some x \<Rightarrow> resolve (x, True) | None \<Rightarrow> throw e) s1 = (v, t)" for k
  proof (cases "repo_findOrderByKey db k s1")
    case (Pair u s2)
    then show ?thesis
      using that op_spec_Inr [OF findOrderByKey, of s1 k] op_spec_Inl [OF findOrderByKey, of s1 k] s1
      by (cases u) (auto simp: await_run async_simps by_key_def split: option.splits)
  qed
  show ?thesis
  proof (cases w)
    case (Inl e')
    with rb run s1 show ?thesis by (auto simp: create_failed_def await_run)
  next
    case (Inr u)
    with rb run have run': "(if isUniqueViolation e \<and> truthy key then
        await (repo_findOrderByKey db (the key)) (\<lambda>existing. case existing of
          Some x \<Rightarrow> resolve (x, True) | None \<Rightarrow> throw e) else throw e) s1 = (v, t)"
      by (simp add: create_failed_def await_run)
    show ?thesis
    proof (cases "isUniqueViolation e \<and> truthy key")
      case True
      with run' find [of "the key"] show ?thesis by (cases key) auto
    next
      case False
      with run' s1 show ?thesis by (auto simp: async_simps)
    qed
  qed
qed

text \<open>The transaction with its handlers, from the moment it is open.\<close>

lemma create_guarded_run:
  assumes act: "tx s = Active (tabs s)" and ok: "schema_ok (tabs s)"
    and items: "co_items dto = Some items" "items \<noteq> []"
    and run: "try_finally
      (try_catch (await (create_in_transaction db dto items key) (\<lambda>created. resolve (created, False)))
        (create_failed db key)) (qr_release db) s = (v, t)"
  shows "tx t = Idle \<and> create_effect (tabs s) dto key v (tabs t)"
proof -
  let ?body = "await (create_in_transaction db dto items key) (\<lambda>created. resolve (created, False))"
  obtain w s1 where body: "try_catch ?body (create_failed db key) s = (w, s1)" by fastforce
  have body_ok: "tx s1 = Idle \<and> create_effect (tabs s) dto key w (tabs s1)"
  proof (cases "create_in_transaction db dto items key s")
    case (Pair u s2)
    show ?thesis
    proof (cases u)
      case (Inl e)
      with Pair have fail: "create_in_transaction db dto items key s = (Inl e, s2)" by simp
      with body have "create_failed db key e s2 = (w, s1)"
        by (simp add: try_catch_def await_def)
      from create_failed_run [OF create_in_transaction_Inl [OF fail act ok] this]
      have res: "tabs s1 = tabs s" "tx s1 = Idle" "\<And>x d. w = Inr (x, d) \<Longrightarrow>
          d \<and> truthy key \<and> loaded (tabs s) x \<and> o_idempotencyKey x = key" by blast+
      show ?thesis
      proof (cases w)
        case (Inr p)
        with res show ?thesis by (cases p) (simp add: create_effect_def)
      qed (simp add: res)
    next
      case (Inr x)
      with Pair have succ: "create_in_transaction db dto items key s = (Inr x, s2)" by simp
      with body have "w = Inr (x, False)" "s1 = s2"
        by (simp_all add: try_catch_def await_def async_simps)
      with create_in_transaction_Inr [OF succ act ok] items show ?thesis by simp
    qed
  qed
  obtain f s3 where "qr_release db s1 = (f, s3)" by fastforce
  with release_resolves [of s1] body_ok have rel: "qr_release db s1 = (Inr (), s3)" by simp
  from op_spec_Inr [OF release _ rel] body_ok have "tabs s3 = tabs s1" "tx s3 = Idle" by simp_all
  moreover from run try_finally_run(1) [where m = "try_catch ?body (create_failed db key)" and f = "qr_release db", OF body rel] have "v = w" "t = s3" by simp_all
  ultimately show ?thesis using body_ok by simp
qed

text \<open>A read outside a transaction, and what follows it.\<close>

lemma await_read:
  assumes run: "await m k s = (v, t)" and spec: "op_spec tabs tx ((=) Idle) m (reads R)"
    and idle: "tx s = Idle"
    and fail: "\<And>e. v = Inl e \<Longrightarrow> tabs t = tabs s \<Longrightarrow> tx t = Idle \<Longrightarrow> P"
    and step: "\<And>x s1. R (tabs s) x \<Longrightarrow> tabs s1 = tabs s \<Longrightarrow> tx s1 = Idle \<Longrightarrow> k x s1 = (v, t) \<Longrightarrow> P"
  shows P
proof (cases "m s")
  case (Pair u s1)
  show ?thesis
  proof (cases u)
    case (Inl e)
    with Pair have m: "m s = (Inl e, s1)" by simp
    with run have "v = Inl e" "t = s1" by (simp_all add: await_run)
    with op_spec_Inl [OF spec _ m] idle show ?thesis by (auto intro: fail)
  next
    case (Inr x)
    with Pair have m: "m s = (Inr x, s1)" by simp
    with run have "k x s1 = (v, t)" by (simp add: await_run)
    with op_spec_Inr [OF spec _ m] idle show ?thesis by (auto intro: step)
  qed
qed

lemma create_opened_run:
  assumes idle: "tx s = Idle" and ok: "schema_ok (tabs s)"
    and items: "co_items dto = Some items" "items \<noteq> []"
    and run: "await (qr_connect db) (\<lambda>_. await (qr_startTransaction db) (\<lambda>_.
      try_finally
        (try_catch (await (create_in_transaction db dto items key) (\<lambda>created. resolve (created, False)))
          (create_failed db key)) (qr_release db))) s = (v, t)" (is "await _ (\<lambda>_. await _ (\<lambda>_. ?body)) s = _")
  shows "tx t = Idle \<and> create_effect (tabs s) dto key v (tabs t)"
  using run connect idle
proof (rule await_read)
  fix s1
  assume s1: "tabs s1 = tabs s" "tx s1 = Idle" and step: "await (qr_startTransaction db) (\<lambda>_. ?body) s1 = (v, t)"
  show ?thesis
  proof (cases "qr_startTransaction db s1")
    case (Pair b s2)
    show ?thesis
    proof (cases b)
      case (Inl e)
      with Pair step have "v = Inl e" "t = s2" by (simp_all add: await_run)
      with startTransaction [OF s1(2)] Pair Inl s1 show ?thesis by simp
    next
      case (Inr u)
      with Pair step have body: "?body s2 = (v, t)" by (simp add: await_run)
      from startTransaction [OF s1(2)] Pair Inr s1 have "tabs s2 = tabs s" "tx s2 = Active (tabs s2)"
        by (simp_all add: opened_def)
      with create_guarded_run [OF _ _ items body] ok show ?thesis by simp
    qed
  qed
qed simp

lemma create_stored_run:
  assumes idle: "tx s = Idle" and ok: "schema_ok (tabs s)"
    and key: "key = nullish ik (co_idempotencyKey dto)"
    and run: "create_stored db dto ik s = (v, t)"
  shows "tx t = Idle \<and> create_effect (tabs s) dto key v (tabs t)"
proof -
  let ?look = "if truthy key then repo_findOrderByKey db (the key) else resolve None"
  let ?found = "\<lambda>T v. case v of None \<Rightarrow> True
    | Some x \<Rightarrow> truthy key \<and> loaded T x \<and> o_idempotencyKey x = key"
  have look: "op_spec tabs tx ((=) Idle) ?look (reads ?found)"
  proof (cases "truthy key")
    case True
    then obtain k where k: "key = Some k" "k \<noteq> []" by (rule truthyE)
    have "?found T v" if "by_key k T v" for T v
      using that k by (cases v) (simp_all add: by_key_def)
    from op_spec_reads_weaken [OF findOrderByKey this] True k(1) show ?thesis by simp
  qed (simp add: op_spec_def async_simps)
  show ?thesis
    using run [unfolded create_stored_def Let_def key [symmetric]] look idle
  proof (rule await_read)
    fix existing s1
    assume found: "?found (tabs s) existing" and s1: "tabs s1 = tabs s" "tx s1 = Idle"
      and step: "(case existing of Some x \<Rightarrow> resolve (x, True)
        | None \<Rightarrow>
            (case co_items dto of
               None \<Rightarrow> throw (BadRequestException ''Order items cannot be empty'')
             | Some items \<Rightarrow>
                 if items = [] then throw (BadRequestException ''Order items cannot be empty'')
                 else await (repo_findUser db (co_userId dto)) (\<lambda>user. case user of
                     None \<Rightarrow> throw (NotFoundException ''User not found'')
                   | Some u \<Rightarrow> await (qr_connect db) (\<lambda>_. await (qr_startTransaction db) (\<lambda>_.
                       try_finally
                         (try_catch (await (create_in_transaction db dto items key)
                           (\<lambda>created. resolve (created, False))) (create_failed db key))
                         (qr_release db)))))) s1 = (v, t)"
    show ?thesis
    proof (cases existing)
      case (Some x)
      with step found s1 show ?thesis by (auto simp: async_simps)
    next
      case None
      show ?thesis
      proof (cases "co_items dto = None \<or> co_items dto = Some []")
        case True
        with step None s1 show ?thesis by (auto simp: async_simps)
      next
        case False
        then obtain items where items: "co_items dto = Some items" "items \<noteq> []" by auto
        show ?thesis
        proof (rule await_read [OF step [unfolded None option.case items(1) if_not_P [OF items(2)]]
              findUser s1(2)])
          fix user s2
          assume s2: "tabs s2 = tabs s1" "tx s2 = Idle"
            and rest: "(case user of None \<Rightarrow> throw (NotFoundException ''User not found'')
              | Some u \<Rightarrow> await (qr_connect db) (\<lambda>_. await (qr_startTransaction db) (\<lambda>_.
                  try_finally
                    (try_catch (await (create_in_transaction db dto items key)
                      (\<lambda>created. resolve (created, False))) (create_failed db key))
                    (qr_release db)))) s2 = (v, t)"
          show ?thesis
          proof (cases user)
            case None
            with rest s1 s2 show ?thesis by (auto simp: async_simps)
          next
            case (Some u)
            from create_opened_run [OF s2(2) _ items rest [unfolded Some option.case]] ok s1 s2
            show ?thesis by simp
          qed
        qed (simp add: s1)
      qed
    qed
  qed simp
qed

end

section \<open>When an order can be placed\<close>

definition feasible :: "tables \<Rightarrow> create_item list \<Rightarrow> bool" where
  "feasible T items \<longleftrightarrow>
     (\<forall>i \<in> set items. 0 < ci_quantity i) \<and>
     (\<forall>pid. ordered items pid \<longrightarrow>
        (\<exists>p. t_products T pid = Some p \<and> requested items pid \<le> p_stock p))"

definition item_error :: "exn \<Rightarrow> bool" where
  "item_error e \<longleftrightarrow>
     e = NotFoundException ''Product not found'' \<or>
     e = BadRequestException ''Quantity must be greater than zero'' \<or>
     e = ConflictException ''Insufficient stock''"

lemma feasible_one:
  "feasible T [item] \<longleftrightarrow>
     0 < ci_quantity item \<and>
     (\<exists>p. t_products T (ci_productId item) = Some p \<and> ci_quantity item \<le> p_stock p)"
  by (auto simp: feasible_def)

lemma feasible_Cons:
  assumes "stock_taken T [x] T1" and x: "feasible T [x]"
  shows "feasible T (x # xs) \<longleftrightarrow> feasible T1 xs"
proof -
  have pos: "0 < ci_quantity x" using x by (simp add: feasible_one)
  have product: "(\<exists>p. t_products T1 pid = Some p \<and> requested xs pid \<le> p_stock p) \<longleftrightarrow>
      (\<exists>p. t_products T pid = Some p \<and> requested (x # xs) pid \<le> p_stock p)" for pid
  proof (cases "t_products T pid")
    case None
    with stock_taken_None [OF assms(1)] show ?thesis by simp
  next
    case (Some p)
    then obtain u where "t_products T1 pid =
        Some (p\<lparr>p_stock := p_stock p - requested [x] pid, p_updatedAt := u\<rparr>)"
      by (rule stock_taken_Some [OF assms(1)])
    with Some show ?thesis by auto
  qed
  have "(\<exists>p. t_products T pid = Some p \<and> requested (x # xs) pid \<le> p_stock p)"
    if "ordered [x] pid" "\<not> ordered xs pid" for pid
    using that x by (auto simp: feasible_def not_ordered_requested)
  then show ?thesis
    using pos unfolding feasible_def product by auto
qed

context reliable_store
begin

lemma worksE:
  assumes "works m s"
  obtains x t where "m s = (Inr x, t)"
  using assms by (auto simp: works_def)

lemma save_item_decides:
  assumes act: "tx s = Active S" and own: "products_own (tabs s)"
    and order: "t_orders (tabs s) oid \<noteq> None" and price: "fits (ci_priceSnapshot item)"
  shows "if feasible (tabs s) [item] then works (save_item db oid item) s
    else \<exists>e. fst (save_item db oid item s) = Inl e \<and> item_error e"
proof -
  let ?pid = "ci_productId item" and ?q = "ci_quantity item"
  obtain v s1 where find: "qr_findProduct db ?pid s = (Inr v, s1)"
    using works_findProduct [OF act] by (rule worksE)
  from op_spec_Inr [OF findProduct _ find] act have
    s1: "v = t_products (tabs s) ?pid" "tabs s1 = tabs s" "tx s1 = Active S" by auto
  show ?thesis
  proof (cases "feasible (tabs s) [item]")
    case False
    with find s1 show ?thesis
      by (auto simp: save_item_def await_run async_simps feasible_one item_error_def
          split: option.split)
  next
    case True
    then obtain p where p: "t_products (tabs s) ?pid = Some p" "0 < ?q" "?q \<le> p_stock p"
      by (auto simp: feasible_one)
    with own have pid: "p_id p = ?pid" by (simp add: products_own_def)
    let ?p = "p\<lparr>p_stock := p_stock p - ?q\<rparr>"
    have "works (qr_saveProduct db ?p) s1"
      using works_saveProduct [OF s1(3), of ?p] s1(2) p(1) pid by simp
    then obtain p' s2 where save: "qr_saveProduct db ?p s1 = (Inr p', s2)" by (rule worksE)
    from op_spec_Inr [OF saveProduct _ save] s1 have
      s2: "product_saved ?p (tabs s) p' (tabs s2)" "tx s2 = Active S" by auto
    let ?n = "\<lparr>ni_orderId = oid, ni_productId = ?pid, ni_quantity = ?q,
      ni_priceSnapshot = ci_priceSnapshot item\<rparr>"
    have "works (qr_insertItem db ?n) s2"
      using works_insertItem [OF s2(2), of ?n] s2(1) order price pid
      by (auto simp: product_saved_def)
    then obtain it s3 where "qr_insertItem db ?n s2 = (Inr it, s3)" by (rule worksE)
    with find s1(1) p save have "save_item db oid item s = (Inr it, s3)"
      by (simp add: save_item_def await_run)
    with True show ?thesis by (simp add: works_def)
  qed
qed

lemma save_items_decides:
  "tx s = Active S \<Longrightarrow> products_own (tabs s) \<Longrightarrow> t_orders (tabs s) oid \<noteq> None \<Longrightarrow>
   \<forall>i \<in> set items. fits (ci_priceSnapshot i) \<Longrightarrow>
   if feasible (tabs s) items then works (save_items db oid items) s
   else \<exists>e. fst (save_items db oid items s) = Inl e \<and> item_error e"
proof (induction items arbitrary: s)
  case Nil
  then show ?case by (simp add: feasible_def works_def async_simps)
next
  case (Cons x xs)
  note one = save_item_decides [OF Cons.prems(1,2,3), of x]
  show ?case
  proof (cases "feasible (tabs s) [x]")
    case False
    with one Cons.prems(4) obtain e where e: "fst (save_item db oid x s) = Inl e" "item_error e"
      by auto
    then have "fst (save_items db oid (x # xs) s) = Inl e"
      by (cases "save_item db oid x s") (simp add: await_run)
    moreover have "\<not> feasible (tabs s) (x # xs)"
      using False requested_nonneg [of xs "ci_productId x"]
      by (force simp: feasible_one feasible_def)
    ultimately show ?thesis using e(2) by auto
  next
    case True
    with one Cons.prems(4) have "works (save_item db oid x) s" by simp
    then obtain it s1 where it: "save_item db oid x s = (Inr it, s1)" by (rule worksE)
    from save_item_Inr [OF it Cons.prems(1,2)] obtain r where
      s1: "tx s1 = Active S" "placed_items (tabs s) oid [x] [r] (tabs s1)" by blast
    then have taken: "stock_taken (tabs s) [x] (tabs s1)" by (simp add: placed_items_def)
    have "t_orders (tabs s1) = t_orders (tabs s)"
      using s1(2) unfolding placed_items_def
      by (metis tables.select_convs(3) tables.surjective tables.update_convs(2) tables.update_convs(4))
    with Cons.IH [OF s1(1) products_own_taken [OF Cons.prems(2) taken]] Cons.prems(3,4)
    have rest: "if feasible (tabs s1) xs then works (save_items db oid xs) s1
        else \<exists>e. fst (save_items db oid xs s1) = Inl e \<and> item_error e" by simp
    have run: "save_items db oid (x # xs) s =
        await (save_items db oid xs) (\<lambda>its. resolve (it # its)) s1"
      using it by (simp add: await_run)
    show ?thesis
    proof (cases "feasible (tabs s1) xs")
      case f: True
      with rest have "works (save_items db oid xs) s1" by simp
      then obtain its t where "save_items db oid xs s1 = (Inr its, t)" by (rule worksE)
      with run have "works (save_items db oid (x # xs)) s"
        by (simp add: works_def await_run async_simps)
      with f feasible_Cons [OF taken True] show ?thesis by simp
    next
      case f: False
      with rest obtain e where "fst (save_items db oid xs s1) = Inl e" "item_error e" by auto
      with run have "fst (save_items db oid (x # xs) s) = Inl e"
        by (cases "save_items db oid xs s1") (simp add: await_run)
      with f feasible_Cons [OF taken True] \<open>item_error e\<close> show ?thesis by auto
    qed
  qed
qed

lemma create_in_transaction_decides:
  assumes act: "tx s = Active S" and ok: "schema_ok (tabs s)"
    and user: "t_users (tabs s) (co_userId dto) \<noteq> None"
    and price: "\<forall>i \<in> set items. fits (ci_priceSnapshot i)"
  shows "if \<not> key_unused (tabs s) key
      then refused ''23505'' (create_in_transaction db dto items key) s
    else if feasible (tabs s) items then works (create_in_transaction db dto items key) s
    else \<exists>e. fst (create_in_transaction db dto items key s) = Inl e \<and> item_error e"
proof -
  let ?n = "\<lparr>no_userId = co_userId dto, no_status = PENDING, no_idempotencyKey = key\<rparr>"
  show ?thesis
  proof (cases "key_unused (tabs s) key")
    case False
    with insertOrder_duplicate [OF act, of ?n] user
    have "refused ''23505'' (qr_insertOrder db ?n) s" by simp
    then have "refused ''23505'' (create_in_transaction db dto items key) s"
      by (auto simp: refused_def create_in_transaction_def await_run)
    with False show ?thesis by simp
  next
    case True
    with works_insertOrder [OF act, of ?n] user have "works (qr_insertOrder db ?n) s" by simp
    then obtain r s1 where ins: "qr_insertOrder db ?n s = (Inr r, s1)" by (rule worksE)
    from op_spec_Inr [OF insertOrder _ ins] act have
      s1: "orders_added ?n (tabs s) r (tabs s1)" "tx s1 = Active S" by auto
    then have own: "products_own (tabs s1)" and prods: "t_products (tabs s1) = t_products (tabs s)"
      and order: "t_orders (tabs s1) (o_id r) \<noteq> None"
      using ok by (auto simp: orders_added_def products_own_def schema_ok_def own_ids_def)
    have feas: "feasible (tabs s1) items = feasible (tabs s) items"
      by (simp add: feasible_def prods)
    note loop = save_items_decides [OF s1(2) own order price, unfolded feas]
    show ?thesis
    proof (cases "feasible (tabs s) items")
      case False
      with loop obtain e where "fst (save_items db (o_id r) items s1) = Inl e" "item_error e" by auto
      with ins have "fst (create_in_transaction db dto items key s) = Inl e"
        by (cases "save_items db (o_id r) items s1") (simp add: create_in_transaction_def await_run)
      with False True \<open>item_error e\<close> show ?thesis by auto
    next
      case feasible: True
      with loop have "works (save_items db (o_id r) items) s1" by simp
      then obtain its s2 where items: "save_items db (o_id r) items s1 = (Inr its, s2)" by (rule worksE)
      from save_items_Inr [OF items s1(2) own] obtain rs where
        s2: "tx s2 = Active S" "placed_items (tabs s1) (o_id r) items rs (tabs s2)" by blast
      have "t_orders (tabs s2) = t_orders (tabs s1)"
        using s2(2) unfolding placed_items_def
        by (metis tables.select_convs(3) tables.surjective tables.update_convs(2) tables.update_convs(4))
      with order have there: "t_orders (tabs s2) (o_id r) \<noteq> None" by simp
      obtain v s3 where find: "qr_findOrder db (o_id r) s2 = (Inr v, s3)"
        using works_reloadOrder [OF s2(1)] by (rule worksE)
      from op_spec_Inr [OF tx_reloadOrder _ find] s2 have
        s3: "by_id (o_id r) (tabs s2) v" "tx s3 = Active S" by auto
      with there obtain x where x: "v = Some x" by (cases v) (auto simp: by_id_def)
      obtain u t where "qr_commitTransaction db s3 = (Inr u, t)"
        using works_commit [OF s3(2)] by (rule worksE)
      with ins items find x have "works (create_in_transaction db dto items key) s"
        by (simp add: works_def create_in_transaction_def await_run async_simps)
      with feasible True show ?thesis by simp
    qed
  qed
qed

text \<open>The handlers around the body: the answer of the body, or of the key's order.\<close>

lemma create_guarded_decides:
  assumes act: "tx s = Active (tabs s)" and ok: "schema_ok (tabs s)"
    and unused: "\<not> truthy key \<or> key_unused (tabs s) key"
    and body: "create_in_transaction db dto items key s = (u, s1)"
    and dup: "\<And>e. u = Inl e \<Longrightarrow> isUniqueViolation e \<Longrightarrow> \<not> key_unused (tabs s) key"
  shows "fst (try_finally
    (try_catch (await (create_in_transaction db dto items key) (\<lambda>created. resolve (created, False)))
      (create_failed db key)) (qr_release db) s) =
    (case u of Inl e \<Rightarrow> Inl e | Inr x \<Rightarrow> Inr (x, False))" (is "fst (try_finally ?m _ s) = ?v")
proof -
  have "\<exists>s2. ?m s = (?v, s2) \<and> tx s2 = Idle"
  proof (cases u)
    case (Inr x)
    with body create_in_transaction_Inr(1) [OF _ act ok] show ?thesis
      by (simp add: try_catch_def await_def async_simps)
  next
    case (Inl e)
    with body have fail: "create_in_transaction db dto items key s = (Inl e, s1)" by simp
    have lost: "lost (Active (tabs s)) (tx s1)" by (rule create_in_transaction_Inl [OF fail act ok])
    obtain r s2 where rb: "qr_rollbackTransaction db s1 = (Inr r, s2)"
      using works_rollback [OF lost] by (rule worksE)
    with rollbackTransaction [OF lost] have s2: "tabs s2 = tabs s" "tx s2 = Idle" by simp_all
    have "\<not> (isUniqueViolation e \<and> truthy key)"
      using dup [OF Inl] unused by blast
    with rb have "create_failed db key e s1 = (Inl e, s2)"
      by (auto simp: create_failed_def await_run async_simps)
    with fail s2 Inl show ?thesis by (simp add: try_catch_def await_def)
  qed
  then obtain s2 where m: "?m s = (?v, s2)" "tx s2 = Idle" by blast
  obtain f s3 where "qr_release db s2 = (f, s3)" by fastforce
  with release_resolves [OF m(2)] have "qr_release db s2 = (Inr (), s3)" by simp
  with m(1) show ?thesis by (simp add: try_finally_def)
qed

lemma create_stored_decides:
  assumes idle: "tx s = Idle" and ok: "schema_ok (tabs s)"
    and key: "key = nullish ik (co_idempotencyKey dto)"
    and items: "items = (case co_items dto of None \<Rightarrow> [] | Some is \<Rightarrow> is)"
    and price: "\<forall>i \<in> set items. fits (ci_priceSnapshot i)"
    and v: "v = fst (create_stored db dto ik s)"
  shows "if truthy key \<and> \<not> key_unused (tabs s) key then \<exists>x. v = Inr (x, True)
    else if items = [] then v = Inl (BadRequestException ''Order items cannot be empty'')
    else if t_users (tabs s) (co_userId dto) = None then v = Inl (NotFoundException ''User not found'')
    else if \<not> key_unused (tabs s) key then \<exists>m. v = Inl (DbError (Some ''23505'') m)
    else if feasible (tabs s) items then \<exists>x. v = Inr (x, False)
    else \<exists>e. v = Inl e \<and> item_error e"
proof -
  let ?look = "if truthy key then repo_findOrderByKey db (the key) else resolve None"
  obtain existing s1 where look: "?look s = (Inr existing, s1)" "tabs s1 = tabs s" "tx s1 = Idle"
    "existing \<noteq> None \<longleftrightarrow> truthy key \<and> \<not> key_unused (tabs s) key"
  proof (cases "truthy key")
    case True
    then obtain k where k: "key = Some k" "k \<noteq> []" by (rule truthyE)
    obtain x t where find: "repo_findOrderByKey db k s = (Inr x, t)"
      using works_findOrderByKey [OF idle] by (rule worksE)
    from op_spec_Inr [OF findOrderByKey _ find] idle have
      t: "by_key k (tabs s) x" "tabs t = tabs s" "tx t = Idle" by auto
    have "x \<noteq> None \<longleftrightarrow> \<not> key_unused (tabs s) key"
    proof (cases x)
      case None
      with t(1) k show ?thesis by (auto simp: by_key_def key_unused_def)
    next
      case (Some y)
      with t(1) have "t_orders (tabs s) (o_id y) = Some (order_row.truncate y)"
        "o_idempotencyKey (order_row.truncate y) = Some k"
        by (simp_all add: by_key_def loaded_def)
      with Some k show ?thesis unfolding key_unused_def by blast
    qed
    with find t k that show ?thesis by simp
  next
    case False
    with idle that show ?thesis by (simp add: async_simps)
  qed
  note run = v [unfolded create_stored_def Let_def key [symmetric]]
  show ?thesis
  proof (cases existing)
    case (Some x)
    with run look have "v = Inr (x, True)" by (simp add: await_run async_simps)
    with Some look(4) show ?thesis by auto
  next
    case None
    show ?thesis
    proof (cases "items = []")
      case True
      with run look None items have "v = Inl (BadRequestException ''Order items cannot be empty'')"
        by (auto simp: await_run async_simps split: option.splits)
      with True None look(4) show ?thesis by auto
    next
      case False
      with items have given: "co_items dto = Some items" by (auto split: option.splits)
      obtain user s2 where usr: "repo_findUser db (co_userId dto) s1 = (Inr user, s2)"
        using works_findUser [OF look(3)] by (rule worksE)
      from op_spec_Inr [OF findUser _ usr] look have
        s2: "user = t_users (tabs s) (co_userId dto)" "tabs s2 = tabs s" "tx s2 = Idle" by auto
      show ?thesis
      proof (cases user)
        case no_user: None
        with run look None given False usr have "v = Inl (NotFoundException ''User not found'')"
          by (simp add: await_run async_simps)
        with False no_user None look(4) s2 show ?thesis by auto
      next
        case (Some u)
        obtain c s3 where con: "qr_connect db s2 = (Inr c, s3)"
          using works_connect [OF s2(3)] by (rule worksE)
        from op_spec_Inr [OF connect _ con] s2 have s3: "tabs s3 = tabs s" "tx s3 = Idle" by simp_all
        obtain b s4 where start: "qr_startTransaction db s3 = (Inr b, s4)"
          using works_start [OF s3(2)] by (rule worksE)
        with startTransaction [OF s3(2)] s3 have s4: "tabs s4 = tabs s" "tx s4 = Active (tabs s)"
          by (simp_all add: opened_def)
        obtain w s5 where body: "create_in_transaction db dto items key s4 = (w, s5)" by fastforce
        have body_decides: "if \<not> key_unused (tabs s) key then \<exists>m. w = Inl (DbError (Some ''23505'') m)
            else if feasible (tabs s) items then \<exists>x. w = Inr x
            else \<exists>e. w = Inl e \<and> item_error e"
          using create_in_transaction_decides [OF s4(2), of dto items key] s4 ok price Some s2(1) body
          by (auto simp: refused_def works_def split: if_splits)
        then have dup: "\<And>e. w = Inl e \<Longrightarrow> isUniqueViolation e \<Longrightarrow> \<not> key_unused (tabs s4) key"
          by (auto simp: s4 item_error_def split: if_splits)
        have unused: "\<not> truthy key \<or> key_unused (tabs s4) key" using None look(4) s4 by auto
        have "v = (case w of Inl e \<Rightarrow> Inl e | Inr x \<Rightarrow> Inr (x, False))"
          using create_guarded_decides [OF _ _ unused body dup] s4 ok
            run look None given False usr Some con start by (simp add: await_run)
        with body_decides False Some s2(1) unused s4 show ?thesis by (auto split: if_splits)
      qed
    qed
  qed
qed

end

end
