(* ===== verification/OrderProperties.thy ===== *)
theory OrderProperties
  imports CreateOrder
begin

text \<open>
  What creating an order guarantees: all or nothing, when it succeeds, stock conservation,
  idempotency and its race, and the message to the worker. The reference store shows each
  statement at work.
\<close>

section \<open>Consequences of the effect\<close>

lemma on_db_run: "m (w_db w) = (r, d) \<Longrightarrow> on_db m w = (r, w\<lparr>w_db := d\<rparr>)"
  by (simp add: on_db_def on_part_def)

lemma on_rabbit_run: "m (w_rabbit w) = (r, b) \<Longrightarrow> on_rabbit m w = (r, w\<lparr>w_rabbit := b\<rparr>)"
  by (simp add: on_rabbit_def on_part_def)

lemma requested_lines:
  "requested items pid =
     (\<Sum>l \<in># mset (map input_line items). if fst l = pid then snd l else 0)"
  by (induction items) (auto simp: input_line_def)

lemma stock_taken_unordered:
  assumes "stock_taken T items T'" and "t_products T pid = None"
  shows "\<not> ordered items pid"
proof -
  from assms(1) have "case t_products T pid of
      None \<Rightarrow> t_products T' pid = None \<and> \<not> ordered items pid
    | Some p \<Rightarrow>
        (\<exists>u. t_products T' pid =
           Some (p\<lparr>p_stock := p_stock p - requested items pid, p_updatedAt := u\<rparr>)) \<and>
        (ordered items pid \<longrightarrow> requested items pid \<le> p_stock p)"
    unfolding stock_taken_def by (rule spec)
  with assms(2) show ?thesis by simp
qed

lemma placed_stock:
  assumes "order_placed T userId key items x T'"
  shows "stock T' pid = stock T pid - requested items pid"
    and "ordered items pid \<Longrightarrow> 0 \<le> stock T' pid"
proof -
  have taken: "stock_taken T items T'" using assms by (simp add: order_placed_def)
  show "stock T' pid = stock T pid - requested items pid"
  proof (cases "t_products T pid")
    case None
    with taken have "\<not> ordered items pid" by (rule stock_taken_unordered)
    with None stock_taken_None [OF taken None] show ?thesis
      by (simp add: stock_def not_ordered_requested)
  next
    case (Some p)
    from stock_taken_Some [OF taken this] obtain u where
      "t_products T' pid = Some (p\<lparr>p_stock := p_stock p - requested items pid, p_updatedAt := u\<rparr>)"
      by blast
    with Some show ?thesis by (simp add: stock_def)
  qed
  show "0 \<le> stock T' pid" if "ordered items pid"
  proof (cases "t_products T pid")
    case None
    with stock_taken_unordered [OF taken None] that show ?thesis by blast
  next
    case (Some p)
    from stock_taken_Some [OF taken this] obtain u where
      "t_products T' pid = Some (p\<lparr>p_stock := p_stock p - requested items pid, p_updatedAt := u\<rparr>)"
      "ordered items pid \<Longrightarrow> requested items pid \<le> p_stock p" by blast
    with that show ?thesis by (simp add: stock_def)
  qed
qed

lemma placed_stock_ok:
  assumes "order_placed T userId key items x T'" and "stock_ok T"
  shows "stock_ok T'"
  unfolding stock_ok_def
proof (intro allI impI)
  fix pid r
  assume r: "t_products T' pid = Some r"
  have pos: "0 \<le> stock T pid"
    using assms(2) by (auto simp: stock_ok_def stock_def split: option.split)
  have "0 \<le> stock T' pid"
  proof (cases "ordered items pid")
    case False
    with placed_stock(1) [OF assms(1), of pid] pos show ?thesis by (simp add: not_ordered_requested)
  qed (rule placed_stock(2) [OF assms(1)])
  with r show "0 \<le> p_stock r" by (simp add: stock_def)
qed

lemma placed_schema_ok:
  assumes placed: "order_placed T userId key items x T'" and ok: "schema_ok T"
  shows "schema_ok T'"
proof -
  have p: "t_orders T (o_id x) = None" "t_users T userId \<noteq> None" "key_unused T key"
    "o_userId x = userId" "o_idempotencyKey x = key"
    "t_orders T' = (t_orders T)(o_id x \<mapsto> order_row.truncate x)"
    "stock_taken T items T'" "\<And>i it. t_items T' i = Some it \<Longrightarrow> oi_id it = i"
    "\<And>oid. oid \<noteq> o_id x \<Longrightarrow> items_of T' oid = items_of T oid"
    "t_users T' = t_users T" "t_processed T' = t_processed T"
    using placed by (simp_all add: order_placed_def)
  have "products_own T" using ok by (simp add: schema_ok_def own_ids_def products_own_def)
  from products_own_taken [OF this p(7)] have own: "own_ids T'"
    using ok p(6,8) by (auto simp: schema_ok_def own_ids_def products_own_def)
  have unique: "unique_keys T'"
    unfolding unique_keys_def
  proof (intro allI impI)
    fix i j r q k
    assume "t_orders T' i = Some r" "t_orders T' j = Some q"
      "o_idempotencyKey r = Some k" "o_idempotencyKey q = Some k"
    with p(3,5,6) ok show "i = j"
      by (auto simp: key_unused_def schema_ok_def unique_keys_def split: if_splits)
  qed
  have "t_orders T' (oi_orderId it) \<noteq> None" if "t_items T' i = Some it" for i it
  proof (cases "oi_orderId it = o_id x")
    case False
    have "it \<in> items_of T' (oi_orderId it)"
      using that by (auto simp: items_of_def ran_def)
    with False p(9) have "it \<in> ran (t_items T)" by (auto simp: items_of_def)
    then have "t_orders T (oi_orderId it) \<noteq> None"
      using ok unfolding schema_ok_def foreign_keys_def ran_def by blast
    with p(6) show ?thesis by simp
  qed (simp add: p(6))
  then have "foreign_keys T'"
    using ok p(2,4,6,10,11) by (auto simp: schema_ok_def foreign_keys_def)
  with own unique show ?thesis by (simp add: schema_ok_def)
qed

text \<open>The quantity of a product in all orders.\<close>

definition sold :: "tables \<Rightarrow> string \<Rightarrow> int" where
  "sold T pid = (\<Sum>it | it \<in> ran (t_items T) \<and> oi_productId it = pid. oi_quantity it)"

lemma sum_over_lines: "(\<Sum>l \<in># mset (map h xs). g l) = sum_list (map (g \<circ> h) xs)"
  by (induction xs) simp_all

lemma placed_sold:
  assumes placed: "order_placed T userId key items x T'" and ok: "schema_ok T"
    and fin: "finite (dom (t_items T))"
  shows "sold T' pid = sold T pid + requested items pid"
proof -
  have x: "loaded T' x" and le: "t_items T \<subseteq>\<^sub>m t_items T'"
    and lines: "mset (map item_line (o_items x)) = mset (map input_line items)"
    and fresh: "t_orders T (o_id x) = None"
    and other: "\<And>oid. oid \<noteq> o_id x \<Longrightarrow> items_of T' oid = items_of T oid"
    using placed by (simp_all add: order_placed_def)
  have items: "set (o_items x) = items_of T' (o_id x)" "distinct (o_items x)"
    using x by (simp_all add: loaded_def)
  let ?A = "{it \<in> ran (t_items T). oi_productId it = pid}"
  let ?B = "{it \<in> set (o_items x). oi_productId it = pid}"
  have none: "oi_orderId it \<noteq> o_id x" if "it \<in> ran (t_items T)" for it
  proof -
    from that ok have "t_orders T (oi_orderId it) \<noteq> None"
      unfolding schema_ok_def foreign_keys_def ran_def by blast
    with fresh show ?thesis by metis
  qed
  have "ran (t_items T) \<subseteq> ran (t_items T')"
    using le unfolding map_le_def ran_def dom_def by force
  moreover have "it \<in> ran (t_items T)" if "it \<in> ran (t_items T')" "oi_orderId it \<noteq> o_id x" for it
    using that other [of "oi_orderId it"] by (auto simp: items_of_def)
  ultimately have "ran (t_items T') = ran (t_items T) \<union> set (o_items x)"
    by (auto simp: items(1) items_of_def)
  then have split: "{it. it \<in> ran (t_items T') \<and> oi_productId it = pid} = ?A \<union> ?B" by auto
  have "finite (ran (t_items T))" using fin by (rule finite_ran)
  then have "finite ?A" by simp
  moreover have "finite ?B" by simp
  moreover have "?A \<inter> ?B = {}" using none by (auto simp: items(1) items_of_def)
  ultimately have "sold T' pid = sold T pid + (\<Sum>it \<in> ?B. oi_quantity it)"
    unfolding sold_def split by (rule sum.union_disjoint)
  also have "(\<Sum>it \<in> ?B. oi_quantity it) =
      (\<Sum>it \<in> set (o_items x). if oi_productId it = pid then oi_quantity it else 0)"
    by (simp add: sum.inter_filter)
  also have "\<dots> = (\<Sum>l \<in># mset (map item_line (o_items x)). if fst l = pid then snd l else 0)"
    using items(2)
    unfolding sum_over_lines
    by (simp add: item_line_def comp_def sum_list_distinct_conv_sum_set cong: if_cong)
  also have "\<dots> = requested items pid"
    unfolding lines requested_lines ..
  finally show ?thesis .
qed

lemma create_run:
  assumes "create_stored (dep_db deps) dto ik (w_db w) = (u, d)"
  shows "create deps messageId dto ik w =
    (case u of
       Inl e \<Rightarrow> (Inl e, w\<lparr>w_db := d\<rparr>)
     | Inr (x, wasDuplicate) \<Rightarrow>
         if wasDuplicate then (Inr (x, True), w\<lparr>w_db := d\<rparr>)
         else (case publishOrderCreated (dep_amqp deps) messageId x (w_rabbit w) of
             (p, b) \<Rightarrow> (case p of Inl e \<Rightarrow> Inl e | Inr _ \<Rightarrow> Inr (x, False), w\<lparr>w_db := d, w_rabbit := b\<rparr>)))"
proof (cases u)
  case (Inl e)
  with assms show ?thesis by (simp add: create_def await_def on_db_run)
next
  case (Inr p)
  obtain x dup where p: "p = (x, dup)" by fastforce
  obtain r b where "publishOrderCreated (dep_amqp deps) messageId x (w_rabbit w) = (r, b)" by fastforce
  with assms Inr p show ?thesis
    by (cases r) (simp_all add: create_def await_def on_db_run async_simps on_rabbit_run)
qed

lemma create_effect_schema:
  "create_effect T dto key u T' \<Longrightarrow> schema_ok T \<Longrightarrow> schema_ok T'"
  by (auto simp: create_effect_def placed_schema_ok split: sum.splits if_splits)

lemma create_effect_stock:
  "create_effect T dto key u T' \<Longrightarrow> stock_ok T \<Longrightarrow> stock_ok T'"
  by (auto simp: create_effect_def placed_stock_ok split: sum.splits if_splits)

lemma create_effect_conserves:
  "create_effect T dto key u T' \<Longrightarrow> schema_ok T \<Longrightarrow> finite (dom (t_items T)) \<Longrightarrow>
   stock T' pid + sold T' pid = stock T pid + sold T pid"
  by (auto simp: create_effect_def placed_sold placed_stock(1) split: sum.splits if_splits)

section \<open>A small database\<close>

definition demo_user :: user_row where
  "demo_user = \<lparr>u_id = ''u1'', u_email = ''u1@example.com'', u_passwordHash = None, u_roles = [],
     u_scopes = [], u_avatarFileId = None, u_createdAt = 0, u_updatedAt = 0\<rparr>"

definition demo_product :: product_row where
  "demo_product = \<lparr>p_id = ''p1'', p_name = ''Lamp'', p_sku = ''SKU-1'', p_description = None,
     p_price = Fin 10, p_stock = 5, p_isActive = True, p_imageFileId = None,
     p_createdAt = 0, p_updatedAt = 0\<rparr>"

definition demo_order :: "string option \<Rightarrow> order_row" where
  "demo_order key = \<lparr>o_id = ''o1'', o_userId = ''u1'', o_status = PENDING, o_idempotencyKey = key,
     o_createdAt = 0, o_updatedAt = Some 0, o_processedAt = None\<rparr>"

definition demo_db :: "order_row list \<Rightarrow> ref_db" where
  "demo_db orders =
     \<lparr>rd_rows = \<lparr>rr_users = [demo_user], rr_products = [demo_product], rr_orders = orders,
        rr_items = [], rr_processed = [], rr_files = []\<rparr>,
      rd_tx = Idle, rd_now = 1000\<rparr>"

definition demo_dto :: "int \<Rightarrow> create_order_dto" where
  "demo_dto q = \<lparr>co_userId = ''u1'', co_idempotencyKey = None,
     co_items = Some [\<lparr>ci_productId = ''p1'', ci_quantity = q, ci_priceSnapshot = Fin 10\<rparr>]\<rparr>"

definition demo_deps ::
  "(ref_db, status_event option, bool \<times> status_event option) deps" where
  "demo_deps = \<lparr>dep_db = ref_store, dep_rx = ref_rx, dep_amqp = (\<lambda>calls. Inr True)\<rparr>"

definition demo_world ::
  "order_row list \<Rightarrow> (ref_db, status_event option, bool \<times> status_event option) world" where
  "demo_world orders =
     \<lparr>w_db = demo_db orders, w_events = subscribe events_init,
      w_rabbit = \<lparr>rb_connection = True, rb_channel = True, rb_enabled = True, rb_calls = []\<rparr>\<rparr>"

lemma demo_db_simps [simp]:
  "ref_tx (demo_db orders) = Idle"
  "t_orders (ref_tabs (demo_db orders)) = row_map o_id orders"
  "t_users (ref_tabs (demo_db orders)) = [''u1'' \<mapsto> demo_user]"
  "t_products (ref_tabs (demo_db orders)) = [''p1'' \<mapsto> demo_product]"
  "t_items (ref_tabs (demo_db orders)) = Map.empty"
  "t_processed (ref_tabs (demo_db orders)) = Map.empty"
  "t_files (ref_tabs (demo_db orders)) = Map.empty"
  by (simp_all add: demo_db_def ref_simps demo_user_def demo_product_def)

lemma demo_order_simps [simp]:
  "o_id (demo_order key) = ''o1''" "o_userId (demo_order key) = ''u1''"
  "o_idempotencyKey (demo_order key) = key" "o_status (demo_order key) = PENDING"
  by (simp_all add: demo_order_def)

lemma demo_db_ok:
  "schema_ok (ref_tabs (demo_db []))" "schema_ok (ref_tabs (demo_db [demo_order key]))"
  by (auto simp: schema_ok_def own_ids_def unique_keys_def foreign_keys_def demo_product_def
      split: if_splits)

lemma demo_stock_ok: "stock_ok (ref_tabs (demo_db orders))"
  by (auto simp: stock_ok_def demo_product_def)

lemma demo_deps_simps [simp]:
  "dep_db demo_deps = ref_store" "dep_amqp demo_deps = (\<lambda>calls. Inr True)"
  "w_db (demo_world orders) = demo_db orders" "dep_rx demo_deps = ref_rx"
  by (simp_all add: demo_deps_def demo_world_def)

lemma demo_key_used: "\<not> key_unused (ref_tabs (demo_db [demo_order (Some k)])) (Some k)"
  by (auto simp: key_unused_def intro!: exI [of _ "''o1''"])

lemma demo_key_unused: "key_unused (ref_tabs (demo_db [])) key"
  by (simp add: key_unused_def)

lemma demo_feasible: "feasible (ref_tabs (demo_db orders)) (the (co_items (demo_dto q))) \<longleftrightarrow> 0 < q \<and> q \<le> 5"
  by (simp add: demo_dto_def feasible_one demo_product_def)

lemma demo_dto_simps [simp]:
  "co_userId (demo_dto q) = ''u1''" "co_idempotencyKey (demo_dto q) = None"
  "co_items (demo_dto q) =
     Some [\<lparr>ci_productId = ''p1'', ci_quantity = q, ci_priceSnapshot = Fin 10\<rparr>]"
  by (simp_all add: demo_dto_def)

text \<open>The create of the demonstration, run on the reference store.\<close>

lemmas store_eval = create_stored_def ref_store_def create_in_transaction_def ref_insertOrder_def
  ref_insertItem_def save_item_def async_simps await_def try_catch_def try_finally_def Let_def
  on_rows_def fresh_id_def load_order_def visible_def order_row.defs order.defs

lemma demo_create_stored:
  "\<exists>x t. create_stored ref_store (demo_dto 5) None (demo_db []) = (Inr (x, False), t) \<and>
     o_createdAt x = 1000"
  by (simp add: store_eval demo_db_def demo_dto_def demo_user_def demo_product_def)

lemma demo_create:
  "\<exists>x w'. create demo_deps ''m1'' (demo_dto 5) None (demo_world []) = (Inr (x, False), w')"
proof -
  obtain x t where run: "create_stored ref_store (demo_dto 5) None (demo_db []) = (Inr (x, False), t)"
    and at: "o_createdAt x = 1000" using demo_create_stored by blast
  obtain iso where "toISOString (o_createdAt x) = Inr iso"
    using toISOString_ok [of "o_createdAt x"] at by auto
  then have "\<exists>b. publishOrderCreated (dep_amqp demo_deps) ''m1'' x (w_rabbit (demo_world [])) = (Inr (), b)"
    by (simp add: publishOrderCreated_def await_def publish_ready ready_def demo_world_def async_simps)
  then obtain b where "publishOrderCreated (dep_amqp demo_deps) ''m1'' x (w_rabbit (demo_world [])) = (Inr (), b)"
    by blast
  with create_run [of demo_deps "demo_dto 5" None "demo_world []" "Inr (x, False)" t "''m1''"] run
  show ?thesis by simp
qed

section \<open>Properties\<close>





text \<open>
  C15. Stock is conserved and never oversold: whatever a create does, the stock of a product
  plus its quantity in all orders stays what it was, no stock becomes negative, and the
  constraints of the schema hold afterwards.
\<close>

theorem create_conserves_stock:
  assumes "relational_store (dep_db deps) tabs tx"
    and "tx (w_db w) = Idle" and "schema_ok (tabs (w_db w))"
    and "stock_ok (tabs (w_db w))" and "finite (dom (t_items (tabs (w_db w))))"
    and "create deps messageId dto ik w = (v, w')"
  shows "stock (tabs (w_db w')) pid + sold (tabs (w_db w')) pid =
      stock (tabs (w_db w)) pid + sold (tabs (w_db w)) pid \<and>
    stock_ok (tabs (w_db w')) \<and> schema_ok (tabs (w_db w'))"
proof -
  obtain u d where stored: "create_stored (dep_db deps) dto ik (w_db w) = (u, d)" by fastforce
  from relational_store.create_stored_run [OF assms(1,2,3) refl stored] have
    eff: "create_effect (tabs (w_db w)) dto (nullish ik (co_idempotencyKey dto)) u (tabs d)" by simp
  have "w_db w' = d"
    using assms(6) create_run [OF stored, of messageId] by (auto split: sum.splits prod.splits if_splits)
  with create_effect_conserves [OF eff assms(3,5)] create_effect_stock [OF eff assms(4)]
    create_effect_schema [OF eff assms(3)]
  show ?thesis by simp
qed

theorem create_conserves_stock_witness:
  "stock (ref_tabs (w_db (snd (create demo_deps ''m1'' (demo_dto 5) None (demo_world []))))) ''p1'' +
   sold (ref_tabs (w_db (snd (create demo_deps ''m1'' (demo_dto 5) None (demo_world []))))) ''p1'' = 5"
  using create_conserves_stock [OF _ _ _ _ _ surjective_pairing, of demo_deps ref_tabs ref_tx
      "demo_world []" "''m1''" "demo_dto 5" None "''p1''"]
    ref.relational_store_axioms demo_db_ok demo_stock_ok
  by (simp add: stock_def sold_def demo_product_def)

text \<open>
  C17. Idempotency: while the order of a non-empty key is stored, every create with that key
  answers that order as a duplicate, whatever else the request says, and changes no table,
  publishes no message and emits no event.
\<close>

theorem create_replay:
  assumes "reliable_store (dep_db deps) tabs tx fits"
    and "tx (w_db w) = Idle" and "schema_ok (tabs (w_db w))"
    and "t_orders (tabs (w_db w)) oid = Some r" and "o_idempotencyKey r = Some k" and "k \<noteq> []"
    and "nullish ik (co_idempotencyKey dto) = Some k"
  shows "\<exists>x d. create deps messageId dto ik w = (Inr (x, True), w\<lparr>w_db := d\<rparr>) \<and>
    o_id x = oid \<and> loaded (tabs (w_db w)) x \<and> tabs d = tabs (w_db w)"
proof -
  have rel: "relational_store (dep_db deps) tabs tx"
    using assms(1) by (rule reliable_store.axioms(1))
  obtain u d where stored: "create_stored (dep_db deps) dto ik (w_db w) = (u, d)" by fastforce
  have "\<not> key_unused (tabs (w_db w)) (Some k)"
    using assms(4,5) by (auto simp: key_unused_def)
  moreover obtain z t where find: "repo_findOrderByKey (dep_db deps) k (w_db w) = (Inr z, t)"
    using reliable_store.works_findOrderByKey [OF assms(1,2), of k] by (auto simp: works_def)
  from op_spec_Inr [OF relational_store.findOrderByKey [OF rel] _ find] assms(2)
  have "by_key k (tabs (w_db w)) z" by auto
  ultimately obtain x where x: "z = Some x"
    using assms(4,5) by (cases z) (auto simp: by_key_def)
  with find assms(6,7) stored have u: "u = Inr (x, True)"
    by (simp add: create_stored_def Let_def await_run async_simps)
  from relational_store.create_stored_run [OF rel assms(2,3) refl stored] u assms(7) have
    eff: "tabs d = tabs (w_db w)" "loaded (tabs (w_db w)) x" "o_idempotencyKey x = Some k" by simp_all
  have "o_id x = oid"
    using assms(3,4,5) eff(2,3) unfolding schema_ok_def unique_keys_def loaded_def
    by (metis truncate_simps(4))
  with eff u create_run [OF stored, of messageId] show ?thesis by auto
qed

theorem create_replay_witness:
  "\<exists>x d. create demo_deps ''m2'' (demo_dto 99) (Some ''k'') (demo_world [demo_order (Some ''k'')]) =
     (Inr (x, True), (demo_world [demo_order (Some ''k'')])\<lparr>w_db := d\<rparr>) \<and> o_id x = ''o1''"
  using create_replay [of demo_deps ref_tabs ref_tx "\<lambda>q. True" "demo_world [demo_order (Some ''k'')]"
      "''o1''" "demo_order (Some ''k'')" "''k''" "Some ''k''" "demo_dto 99" "''m2''"]
    ref.reliable_store_axioms demo_db_ok
  by auto

text \<open>
  A store in which another request commits \<open>f\<close> after this request's checks, while it waits for
  a connection.
\<close>

definition meanwhile :: "('d \<Rightarrow> 'd) \<Rightarrow> 'd store \<Rightarrow> 'd store" where
  "meanwhile f db = db\<lparr>qr_connect := await (qr_connect db) (\<lambda>_. modify f)\<rparr>"

lemma save_item_meanwhile: "save_item (meanwhile f db) oid item = save_item db oid item"
  by (simp add: meanwhile_def save_item_def cong: option.case_cong if_cong)

lemma save_items_meanwhile: "save_items (meanwhile f db) oid items = save_items db oid items"
  by (induction items) (simp_all add: save_item_meanwhile)

lemma create_in_transaction_meanwhile:
  "create_in_transaction (meanwhile f db) dto items key = create_in_transaction db dto items key"
  unfolding create_in_transaction_def save_items_meanwhile
  by (simp add: meanwhile_def cong: option.case_cong)

lemma create_failed_meanwhile: "create_failed (meanwhile f db) key e = create_failed db key e"
  by (simp add: create_failed_def meanwhile_def cong: option.case_cong)

context reliable_store
begin

text \<open>The transaction of the request that comes second: refused, undone, answered from the winner.\<close>

lemma create_loses:
  assumes act: "tx s = Active (tabs s)" and ok: "schema_ok (tabs s)"
    and user: "t_users (tabs s) (co_userId dto) \<noteq> None"
    and key: "k \<noteq> []" "\<not> key_unused (tabs s) (Some k)"
  obtains x t where "try_finally
      (try_catch (await (create_in_transaction db dto items (Some k)) (\<lambda>created. resolve (created, False)))
        (create_failed db (Some k))) (qr_release db) s = (Inr (x, True), t)"
    "loaded (tabs s) x" "o_idempotencyKey x = Some k" "tabs t = tabs s"
proof -
  let ?n = "\<lparr>no_userId = co_userId dto, no_status = PENDING, no_idempotencyKey = Some k\<rparr>"
  from insertOrder_duplicate [OF act, of ?n] user key obtain m s1 where
    ins: "qr_insertOrder db ?n s = (Inl (DbError (Some ''23505'') m), s1)"
    by (auto simp: refused_def)
  from op_spec_Inl [OF insertOrder _ ins] act have lost: "lost (Active (tabs s)) (tx s1)" by simp
  obtain r s2 where rb: "qr_rollbackTransaction db s1 = (Inr r, s2)"
    using works_rollback [OF lost] by (rule worksE)
  with rollbackTransaction [OF lost] have s2: "tabs s2 = tabs s" "tx s2 = Idle" by simp_all
  obtain v s3 where find: "repo_findOrderByKey db k s2 = (Inr v, s3)"
    using works_findOrderByKey [OF s2(2)] by (rule worksE)
  from op_spec_Inr [OF findOrderByKey _ find] s2 have
    s3: "by_key k (tabs s) v" "tabs s3 = tabs s" "tx s3 = Idle" by simp_all
  with key(2) obtain x where x: "v = Some x" "loaded (tabs s) x" "o_idempotencyKey x = Some k"
    by (cases v) (auto simp: by_key_def key_unused_def)
  obtain f s4 where "qr_release db s3 = (f, s4)" by fastforce
  with release_resolves [OF s3(3)] have rel: "qr_release db s3 = (Inr (), s4)" by simp
  from op_spec_Inr [OF release _ rel] s3 have s4: "tabs s4 = tabs s" by simp
  have "create_in_transaction db dto items (Some k) s = (Inl (DbError (Some ''23505'') m), s1)"
    using ins by (simp add: create_in_transaction_def await_run)
  moreover have "create_failed db (Some k) (DbError (Some ''23505'') m) s1 = (Inr (x, True), s3)"
    using rb find x(1) key(1) by (simp add: create_failed_def await_run async_simps)
  ultimately have "try_finally
      (try_catch (await (create_in_transaction db dto items (Some k)) (\<lambda>created. resolve (created, False)))
        (create_failed db (Some k))) (qr_release db) s = (Inr (x, True), s4)"
    using rel by (simp add: try_finally_def try_catch_def await_def)
  with x(2,3) s4 that show ?thesis by blast
qed

end

text \<open>
  Two requests race with the same key: both find no order of the key, the other one commits
  first. The second is refused by the unique index, undoes its transaction and answers the
  winner's order as a duplicate; the tables are what the winner left.
\<close>

theorem create_race:
  assumes "reliable_store db tabs tx fits"
    and "tx d = Idle" and "schema_ok (tabs d)" and "key_unused (tabs d) (Some k)" and "k \<noteq> []"
    and "nullish ik (co_idempotencyKey dto) = Some k"
    and "co_items dto = Some items" and "items \<noteq> []"
    and "t_users (tabs d) (co_userId dto) \<noteq> None"
    and "\<And>s. tx s = Idle \<Longrightarrow> tabs s = tabs d \<Longrightarrow> tx (f s) = Idle \<and> tabs (f s) = T"
    and "schema_ok T" and "t_users T (co_userId dto) \<noteq> None" and "\<not> key_unused T (Some k)"
  shows "\<exists>x t. create_stored (meanwhile f db) dto ik d = (Inr (x, True), t) \<and>
    loaded T x \<and> o_idempotencyKey x = Some k \<and> tabs t = T"
proof -
  have rel: "relational_store db tabs tx"
    using assms(1) by (rule reliable_store.axioms(1))
  note works = reliable_store.worksE [OF assms(1)]
  obtain v s1 where find: "repo_findOrderByKey db k d = (Inr v, s1)"
    using reliable_store.works_findOrderByKey [OF assms(1,2)] by (rule works)
  from op_spec_Inr [OF relational_store.findOrderByKey [OF rel] _ find] assms(2) have
    s1: "by_key k (tabs d) v" "tabs s1 = tabs d" "tx s1 = Idle" by simp_all
  have v: "v = None"
  proof (rule ccontr)
    assume "v \<noteq> None"
    then obtain x where "v = Some x" by blast
    with s1(1) have "t_orders (tabs d) (o_id x) = Some (order_row.truncate x)"
      "o_idempotencyKey (order_row.truncate x) = Some k" by (simp_all add: by_key_def loaded_def)
    with assms(4) show False unfolding key_unused_def by blast
  qed
  obtain u s2 where user: "repo_findUser db (co_userId dto) s1 = (Inr u, s2)"
    using reliable_store.works_findUser [OF assms(1) s1(3)] by (rule works)
  from op_spec_Inr [OF relational_store.findUser [OF rel] _ user] s1 assms(9) have
    s2: "u \<noteq> None" "tabs s2 = tabs d" "tx s2 = Idle" by simp_all
  obtain c s3 where con: "qr_connect db s2 = (Inr c, s3)"
    using reliable_store.works_connect [OF assms(1) s2(3)] by (rule works)
  from op_spec_Inr [OF relational_store.connect [OF rel] _ con] s2 have
    "tabs s3 = tabs d" "tx s3 = Idle" by simp_all
  with assms(10) have s3: "tabs (f s3) = T" "tx (f s3) = Idle" by blast+
  obtain b s4 where start: "qr_startTransaction db (f s3) = (Inr b, s4)"
    using reliable_store.works_start [OF assms(1) s3(2)] by (rule works)
  with relational_store.startTransaction [OF rel s3(2)] s3 have
    s4: "tabs s4 = T" "tx s4 = Active (tabs s4)" by (simp_all add: opened_def)
  obtain x t where lose: "try_finally
      (try_catch (await (create_in_transaction db dto items (Some k)) (\<lambda>created. resolve (created, False)))
        (create_failed db (Some k))) (qr_release db) s4 = (Inr (x, True), t)"
    "loaded (tabs s4) x" "o_idempotencyKey x = Some k" "tabs t = tabs s4"
    using reliable_store.create_loses [OF assms(1) s4(2)] s4(1) assms(5,11,12,13) by metis
  have same: "repo_findOrderByKey (meanwhile f db) = repo_findOrderByKey db"
    "repo_findUser (meanwhile f db) = repo_findUser db"
    "qr_startTransaction (meanwhile f db) = qr_startTransaction db"
    "qr_release (meanwhile f db) = qr_release db"
    "qr_connect (meanwhile f db) = await (qr_connect db) (\<lambda>_. modify f)"
    by (simp_all add: meanwhile_def)
  have failed: "create_failed (meanwhile f db) = create_failed db"
    by (intro ext) (simp add: create_failed_meanwhile)
  have "create_stored (meanwhile f db) dto ik d = (Inr (x, True), t)"
    using find v user s2(1) con start lose(1) assms(5,6,7,8)
    by (auto simp: create_stored_def Let_def same failed create_in_transaction_meanwhile
        await_run async_simps)
  with lose s4(1) show ?thesis by auto
qed

definition demo_rival :: "ref_db \<Rightarrow> ref_db" where
  "demo_rival d = demo_db [demo_order (Some ''k'')]"

theorem create_race_witness:
  "\<exists>x t. create_stored (meanwhile demo_rival ref_store) (demo_dto 1) (Some ''k'') (demo_db []) =
     (Inr (x, True), t) \<and> o_idempotencyKey x = Some ''k''"
  using create_race [OF ref.reliable_store_axioms, of "demo_db []" "''k''" "Some ''k''" "demo_dto 1" _
      demo_rival "ref_tabs (demo_db [demo_order (Some ''k'')])"] demo_db_ok demo_key_used
  by (auto simp: demo_key_unused demo_rival_def)

text \<open>
  The message of a new order: with the broker ready, create sends exactly one message to
  the main queue, with the order's identifier, attempt 0 and the drawn message id; with the
  broker not ready it sends none and still answers the new order, which stays \<open>PENDING\<close> in
  the database.
\<close>

lemma create_message:
  assumes "relational_store (dep_db deps) tabs tx"
    and "tx (w_db w) = Idle" and "schema_ok (tabs (w_db w))"
    and "create deps messageId dto ik w = (Inr (x, False), w')"
  shows "t_orders (tabs (w_db w')) (o_id x) = Some (order_row.truncate x) \<and> o_status x = PENDING \<and>
    (if ready (w_rabbit w)
     then (\<exists>createdAt options. toISOString (o_createdAt x) = Inr createdAt \<and>
       rb_calls (w_rabbit w') = rb_calls (w_rabbit w) @
         [SendToQueue ''orders.process'' (JsonText (order_message messageId x createdAt)) options])
     else w_rabbit w' = w_rabbit w)"
proof -
  obtain u d where stored: "create_stored (dep_db deps) dto ik (w_db w) = (u, d)" by fastforce
  from relational_store.create_stored_run [OF assms(1,2,3) refl stored] have
    eff: "create_effect (tabs (w_db w)) dto (nullish ik (co_idempotencyKey dto)) u (tabs d)" by simp
  from assms(4) create_run [OF stored, of messageId] obtain p b where
    u: "u = Inr (x, False)" and "w_db w' = d" and
    pub: "publishOrderCreated (dep_amqp deps) messageId x (w_rabbit w) = (Inr p, w_rabbit w')"
    by (auto split: sum.splits prod.splits if_splits)
  moreover from eff u obtain items where
    "order_placed (tabs (w_db w)) (co_userId dto) (nullish ik (co_idempotencyKey dto)) items x (tabs d)"
    by auto
  then have "t_orders (tabs d) (o_id x) = Some (order_row.truncate x)" "o_status x = PENDING"
    by (simp_all add: order_placed_def)
  moreover have "json_written (order_message messageId x createdAt) = order_message messageId x createdAt"
    for createdAt by (simp add: order_message_def)
  with pub have "if ready (w_rabbit w)
     then (\<exists>createdAt options. toISOString (o_createdAt x) = Inr createdAt \<and>
       rb_calls (w_rabbit w') = rb_calls (w_rabbit w) @
         [SendToQueue ''orders.process'' (JsonText (order_message messageId x createdAt)) options])
     else w_rabbit w' = w_rabbit w"
    by (cases "toISOString (o_createdAt x)"; cases "ready (w_rabbit w)")
      (auto simp: publishOrderCreated_def publish_ready publish_not_ready await_def async_simps
        stringify_def split: sum.splits dest!: sym [where t = "w_rabbit w'"])
  ultimately show ?thesis by simp
qed

text \<open>
  An empty idempotency key is no key to the lookup but a key to the unique index: once an
  order with the empty key is stored, every otherwise good request with an empty key fails
  with the driver's unique violation instead of answering the stored order.
\<close>

theorem create_empty_key:
  assumes "reliable_store (dep_db deps) tabs tx fits"
    and "tx d = Idle" and "schema_ok (tabs d)"
    and "t_orders (tabs d) oid = Some r" and "o_idempotencyKey r = Some []"
    and "co_items dto = Some items" and "items \<noteq> []"
    and "\<forall>i \<in> set items. fits (ci_priceSnapshot i)"
    and "t_users (tabs d) (co_userId dto) \<noteq> None"
  shows "\<exists>m. fst (create_stored (dep_db deps) dto (Some []) d) = Inl (DbError (Some ''23505'') m)"
proof -
  have "\<not> key_unused (tabs d) (Some [])"
    using assms(4,5) unfolding key_unused_def by blast
  with reliable_store.create_stored_decides [OF assms(1,2,3) refl refl _ refl, of dto "Some []"] assms(6-9)
  show ?thesis by simp
qed

theorem create_empty_key_witness:
  "\<exists>m. fst (create_stored ref_store (demo_dto 1) (Some []) (demo_db [demo_order (Some [])])) =
     Inl (DbError (Some ''23505'') m)"
  using create_empty_key [of demo_deps ref_tabs ref_tx "\<lambda>q. True" "demo_db [demo_order (Some [])]" "''o1''"
      "demo_order (Some [])" "demo_dto 1"] ref.reliable_store_axioms demo_db_ok
  by simp

end
