(* ===== verification/ProcessOrder.thy ===== *)
theory ProcessOrder
  imports OrderProperties
begin

text \<open>
  Processing a message: its effect on the tables by outcome, redelivery, and that no sequence
  of messages processes an order twice.
\<close>

section \<open>The effect\<close>

definition marked :: "tables \<Rightarrow> string \<Rightarrow> string \<Rightarrow> int \<Rightarrow> tables" where
  "marked T m i ts =
     T\<lparr>t_processed := (t_processed T)(m \<mapsto>
       \<lparr>pm_messageId = m, pm_orderId = i, pm_handler = Some ''orders.process'', pm_processedAt = ts\<rparr>)\<rparr>"

definition processed_row :: "int \<Rightarrow> int option \<Rightarrow> order_row \<Rightarrow> order_row" where
  "processed_row at_ms u r =
     r\<lparr>o_status := PROCESSED, o_processedAt := Some at_ms, o_updatedAt := u\<rparr>"

definition process_effect ::
  "tables \<Rightarrow> json \<Rightarrow> int \<Rightarrow> exn + process_outcome \<times> json option \<Rightarrow> tables \<Rightarrow> bool" where
  "process_effect T message at_ms v T' \<longleftrightarrow>
     (case v of
        Inl e \<Rightarrow> T' = T
      | Inr (outcome, oid) \<Rightarrow>
          \<exists>m. property message ''messageId'' = Some (JStr m) \<and>
            (case outcome of
               Deduplicated \<Rightarrow> T' = T \<and> t_processed T m \<noteq> None
             | AlreadyProcessed \<Rightarrow>
                 \<exists>i r ts. property message ''orderId'' = Some (JStr i) \<and> t_processed T m = None \<and>
                   t_orders T i = Some r \<and> o_status r = PROCESSED \<and> T' = marked T m i ts
             | Processed \<Rightarrow>
                 \<exists>i r ts u. property message ''orderId'' = Some (JStr i) \<and> t_processed T m = None \<and>
                   t_orders T i = Some r \<and> o_status r \<noteq> PROCESSED \<and> oid = Some (JStr i) \<and>
                   T' = (marked T m i ts)
                     \<lparr>t_orders := (t_orders T)(i \<mapsto> processed_row at_ms u r)\<rparr>))"

lemma marked_simps [simp]:
  "t_orders (marked T m i ts) = t_orders T" "t_users (marked T m i ts) = t_users T"
  "t_products (marked T m i ts) = t_products T" "t_items (marked T m i ts) = t_items T"
  "t_files (marked T m i ts) = t_files T"
  "dom (t_processed (marked T m i ts)) = insert m (dom (t_processed T))"
  by (simp_all add: marked_def)

lemma processed_row_simps [simp]:
  "o_id (processed_row a u r) = o_id r" "o_status (processed_row a u r) = PROCESSED"
  "o_userId (processed_row a u r) = o_userId r"
  "o_idempotencyKey (processed_row a u r) = o_idempotencyKey r"
  by (simp_all add: processed_row_def)

context relational_store
begin

text \<open>The callback's result: the message was there, or it is marked and the order is processed now.\<close>

lemma process_tx_Inr:
  assumes run: "process_in_transaction db at_ms message s = (Inr res, t)"
    and act: "tx s = Active (tabs s)" and ok: "schema_ok (tabs s)"
  shows "\<exists>m. property message ''messageId'' = Some (JStr m) \<and>
    (if ptr_deduplicated res
     then t_processed (tabs s) m \<noteq> None \<and> committed tabs tx t = tabs s
     else tx t = Active (tabs s) \<and> t_processed (tabs s) m = None \<and>
       (\<exists>i r ts. property message ''orderId'' = Some (JStr i) \<and> t_orders (tabs s) i = Some r \<and>
         (if ptr_statusChanged res
          then o_status r \<noteq> PROCESSED \<and>
            (\<exists>u. ptr_order res = Some (processed_row at_ms u r) \<and>
              tabs t = (marked (tabs s) m i ts)
                \<lparr>t_orders := (t_orders (tabs s))(i \<mapsto> processed_row at_ms u r)\<rparr>)
          else o_status r = PROCESSED \<and> tabs t = marked (tabs s) m i ts)))"
proof -
  let ?mid = "property message ''messageId''" and ?oid = "property message ''orderId''"
  have active: "is_active (tx s)" using act by simp
  obtain v s1 where ins: "tx_insertProcessed db ?mid ?oid ''orders.process'' s = (v, s1)" by fastforce
  show ?thesis
  proof (cases v)
    case (Inl e)
    with ins have fail: "tx_insertProcessed db ?mid ?oid ''orders.process'' s = (Inl e, s1)" by simp
    with run have unique: "isUniqueViolation e" and res: "ptr_deduplicated res" "t = s1"
      by (auto simp: process_in_transaction_def await_def try_catch_def async_simps split: if_splits)
    from insertProcessed_unique [OF active fail unique] obtain m where
      "?mid = Some (JStr m)" "t_processed (tabs s) m \<noteq> None" by blast
    moreover from op_spec_Inl [OF insertProcessed active fail] act res have "committed tabs tx t = tabs s"
      by (auto simp: lost_Active committed_def)
    ultimately show ?thesis using res by auto
  next
    case (Inr u)
    with ins have succ: "tx_insertProcessed db ?mid ?oid ''orders.process'' s = (Inr u, s1)" by simp
    from op_spec_Inr [OF insertProcessed active succ] act obtain m i ts where
      s1: "?mid = Some (JStr m)" "?oid = Some (JStr i)" "t_processed (tabs s) m = None"
      "tabs s1 = marked (tabs s) m i ts" "tx s1 = Active (tabs s)"
      by (auto simp: processed_added_def marked_def)
    from succ run s1(2) have run: "await (tx_findOrder db (Some (JStr i))) (\<lambda>order. case order of
        None \<Rightarrow> throw (NotFoundException ''Order not found'')
      | Some r \<Rightarrow>
          if o_status r = PROCESSED
          then resolve \<lparr>ptr_deduplicated = False, ptr_order = Some r, ptr_statusChanged = False\<rparr>
          else await (tx_saveOrder db (r\<lparr>o_status := PROCESSED, o_processedAt := Some at_ms\<rparr>))
            (\<lambda>saved. resolve \<lparr>ptr_deduplicated = False, ptr_order = Some saved,
               ptr_statusChanged = True\<rparr>)) s1 = (Inr res, t)"
      by (simp add: process_in_transaction_def await_def try_catch_def async_simps)
    then obtain x s2 where find: "tx_findOrder db (Some (JStr i)) s1 = (Inr x, s2)"
      by (auto simp: await_Inr_iff)
    from op_spec_Inr [OF tx_findOrder _ find] s1 have
      s2: "x = t_orders (tabs s) i" "tabs s2 = marked (tabs s) m i ts" "tx s2 = Active (tabs s)" by auto
    from run find obtain r where r: "x = Some r" by (cases x) (auto simp: await_run async_simps)
    show ?thesis
    proof (cases "o_status r = PROCESSED")
      case True
      with run find r have "res = \<lparr>ptr_deduplicated = False, ptr_order = Some r, ptr_statusChanged = False\<rparr>"
        "t = s2" by (simp_all add: await_run async_simps)
      with True r s1 s2 show ?thesis by auto
    next
      case False
      let ?r = "r\<lparr>o_status := PROCESSED, o_processedAt := Some at_ms\<rparr>"
      from run find r False obtain saved where save: "tx_saveOrder db ?r s2 = (Inr saved, t)"
        and res: "res = \<lparr>ptr_deduplicated = False, ptr_order = Some saved, ptr_statusChanged = True\<rparr>"
        by (auto simp: await_run await_Inr_iff async_simps)
      have own: "o_id r = i" using own_ids_order [OF ok] r s2(1) by simp
      from op_spec_Inr [OF tx_saveOrder _ save] s2 have
        "order_saved ?r (marked (tabs s) m i ts) saved (tabs t)" "tx t = Active (tabs s)" by simp_all
      with r s2(1) own obtain u' where u: "saved = processed_row at_ms u' r"
        "tabs t = (marked (tabs s) m i ts)\<lparr>t_orders := (t_orders (tabs s))(i \<mapsto> saved)\<rparr>"
        by (auto simp: order_saved_def processed_row_def)
      with \<open>tx t = Active (tabs s)\<close> False r s1 s2 res show ?thesis by auto
    qed
  qed
qed

end

text \<open>The whole operation: effect, event, broker untouched.\<close>

lemma process_run:
  assumes rel: "relational_store (dep_db deps) tabs tx"
    and idle: "tx (w_db w) = Idle" and ok: "schema_ok (tabs (w_db w))"
    and run: "processOrderMessage deps clock message w = (v, w')"
  shows "tx (w_db w') = Idle \<and> w_rabbit w' = w_rabbit w \<and>
    process_effect (tabs (w_db w)) message (now_processedAt clock) v (tabs (w_db w')) \<and>
    (if \<exists>x. v = Inr (Processed, x)
     then \<exists>i r. v = Inr (Processed, Some (JStr i)) \<and> t_orders (tabs (w_db w')) i = Some r \<and>
       w_events w' = publishStatusChanged (dep_rx deps) (event_of clock r) (w_events w)
     else w_events w' = w_events w)"
proof -
  let ?body = "process_in_transaction (dep_db deps) (now_processedAt clock) message"
  obtain u d where tr: "ds_transaction (dep_db deps) ?body (w_db w) = (u, d)" by fastforce
  note law = relational_store.transaction [OF rel idle, of ?body]
  show ?thesis
  proof (cases u)
    case (Inl e)
    with tr law have "tabs d = tabs (w_db w)" "tx d = Idle" by simp_all
    moreover from run tr Inl have "v = Inl e" "w' = w\<lparr>w_db := d\<rparr>"
      by (simp_all add: processOrderMessage_def await_def on_db_run)
    ultimately show ?thesis by (simp add: process_effect_def)
  next
    case (Inr res)
    with tr law obtain s1 s2 where s: "opened tabs tx (w_db w) s1" "?body s1 = (Inr res, s2)"
      "tabs d = committed tabs tx s2" "tx d = Idle" by auto
    then have s1: "tabs s1 = tabs (w_db w)" "tx s1 = Active (tabs s1)" by (simp_all add: opened_def)
    from relational_store.process_tx_Inr [OF rel s(2) s1(2)] ok s1(1) obtain m where
      mid: "property message ''messageId'' = Some (JStr m)" and
      res: "if ptr_deduplicated res
       then t_processed (tabs s1) m \<noteq> None \<and> committed tabs tx s2 = tabs s1
       else tx s2 = Active (tabs s1) \<and> t_processed (tabs s1) m = None \<and>
         (\<exists>i r ts. property message ''orderId'' = Some (JStr i) \<and> t_orders (tabs s1) i = Some r \<and>
           (if ptr_statusChanged res
            then o_status r \<noteq> PROCESSED \<and>
              (\<exists>u. ptr_order res = Some (processed_row (now_processedAt clock) u r) \<and>
                tabs s2 = (marked (tabs s1) m i ts)
                  \<lparr>t_orders := (t_orders (tabs s1))(i \<mapsto> processed_row (now_processedAt clock) u r)\<rparr>)
            else o_status r = PROCESSED \<and> tabs s2 = marked (tabs s1) m i ts))"
      by auto
    have step: "(if ptr_deduplicated res then resolve (Deduplicated, property message ''orderId'')
        else (case ptr_order res of
            None \<Rightarrow> resolve (AlreadyProcessed, property message ''orderId'')
          | Some order \<Rightarrow>
              if \<not> ptr_statusChanged res then resolve (AlreadyProcessed, property message ''orderId'')
              else await (publish_event deps (event_of clock order))
                (\<lambda>_. resolve (Processed, Some (JStr (o_id order)))))) (w\<lparr>w_db := d\<rparr>) = (v, w')"
      using run tr Inr by (simp add: processOrderMessage_def await_def on_db_run)
    show ?thesis
    proof (cases "ptr_deduplicated res")
      case True
      with step res s s1 mid show ?thesis by (auto simp: async_simps process_effect_def)
    next
      case False
      with res obtain i r ts where i: "property message ''orderId'' = Some (JStr i)"
        "t_orders (tabs s1) i = Some r" and pm: "t_processed (tabs s1) m = None" and
        changed: "if ptr_statusChanged res
            then o_status r \<noteq> PROCESSED \<and>
              (\<exists>u. ptr_order res = Some (processed_row (now_processedAt clock) u r) \<and>
                tabs s2 = (marked (tabs s1) m i ts)
                  \<lparr>t_orders := (t_orders (tabs s1))(i \<mapsto> processed_row (now_processedAt clock) u r)\<rparr>)
            else o_status r = PROCESSED \<and> tabs s2 = marked (tabs s1) m i ts"
        by auto
      have d: "tabs d = tabs s2" using s(3) res False by (simp add: committed_def)
      show ?thesis
      proof (cases "ptr_statusChanged res")
        case same: False
        with step False have "v = Inr (AlreadyProcessed, property message ''orderId'')" "w' = w\<lparr>w_db := d\<rparr>"
          by (auto simp: async_simps split: option.splits)
        with changed same i pm mid d s(4) s1 show ?thesis by (auto simp: process_effect_def)
      next
        case new: True
        with changed obtain u' where u': "ptr_order res = Some (processed_row (now_processedAt clock) u' r)"
          "tabs s2 = (marked (tabs s1) m i ts)
             \<lparr>t_orders := (t_orders (tabs s1))(i \<mapsto> processed_row (now_processedAt clock) u' r)\<rparr>"
          "o_status r \<noteq> PROCESSED" by auto
        have own: "o_id r = i" using own_ids_order [OF ok] i(2) s1(1) by simp
        let ?w = "w\<lparr>w_db := d\<rparr>"
        from step False new u'(1) own have "v = Inr (Processed, Some (JStr i))"
          "w' = ?w\<lparr>w_events := publishStatusChanged (dep_rx deps)
             (event_of clock (processed_row (now_processedAt clock) u' r)) (w_events w)\<rparr>"
          by (auto simp: await_def publish_event_def async_simps)
        with u' i pm mid d s(4) s1 show ?thesis by (auto simp: process_effect_def)
      qed
    qed
  qed
qed

section \<open>When a message is processed\<close>

context reliable_store
begin

lemma process_tx_decides:
  assumes act: "tx s = Active (tabs s)" and ok: "schema_ok (tabs s)"
    and ids: "property message ''messageId'' = Some (JStr m)" "property message ''orderId'' = Some (JStr i)"
  shows "if t_processed (tabs s) m \<noteq> None
      then \<exists>r. fst (process_in_transaction db at_ms message s) = Inr r \<and> ptr_deduplicated r
    else case t_orders (tabs s) i of
        None \<Rightarrow> \<exists>e. fst (process_in_transaction db at_ms message s) = Inl (DbError (Some ''23503'') e)
      | Some r \<Rightarrow> \<exists>res x. fst (process_in_transaction db at_ms message s) = Inr res \<and>
          \<not> ptr_deduplicated res \<and> ptr_order res = Some x \<and> o_id x = i \<and>
          ptr_statusChanged res = (o_status r \<noteq> PROCESSED)"
proof (cases "t_processed (tabs s) m")
  case (Some pm)
  with insertProcessed_duplicate [OF act, of m i "''orders.process''"] have
    "\<exists>r. fst (process_in_transaction db at_ms message s) = Inr r \<and> ptr_deduplicated r"
    by (auto simp: refused_def process_in_transaction_def ids await_def try_catch_def async_simps)
  with Some show ?thesis by simp
next
  case new: None
  show ?thesis
  proof (cases "t_orders (tabs s) i")
    case None
    with insertProcessed_orphan [OF act new, of i "''orders.process''"] new show ?thesis
      by (auto simp: refused_def process_in_transaction_def ids await_def try_catch_def async_simps)
  next
    case (Some r)
    obtain u s1 where ins: "tx_insertProcessed db (Some (JStr m)) (Some (JStr i)) ''orders.process'' s = (Inr u, s1)"
      using works_insertProcessed [OF act new] Some by (auto simp: works_def)
    from op_spec_Inr [OF insertProcessed _ ins] act obtain ts where
      s1: "tabs s1 = marked (tabs s) m i ts" "tx s1 = Active (tabs s)"
      by (auto simp: processed_added_def marked_def)
    obtain x s2 where find: "tx_findOrder db (Some (JStr i)) s1 = (Inr x, s2)"
      using works_tx_findOrder [OF s1(2), of i] by (auto simp: works_def)
    from op_spec_Inr [OF tx_findOrder _ find] s1 Some have
      s2: "x = Some r" "tabs s2 = marked (tabs s) m i ts" "tx s2 = Active (tabs s)" by auto
    have own: "o_id r = i" using own_ids_order [OF ok Some] .
    show ?thesis
    proof (cases "o_status r = PROCESSED")
      case True
      with ins find s2 new Some own show ?thesis
        by (simp add: process_in_transaction_def ids await_def try_catch_def async_simps)
    next
      case False
      let ?r = "r\<lparr>o_status := PROCESSED, o_processedAt := Some at_ms\<rparr>"
      have "key_free (tabs s2) (o_idempotencyKey ?r) (o_id ?r)"
        using ok Some own s2(2) unfolding key_free_def schema_ok_def unique_keys_def by auto
      with works_tx_saveOrder [OF s2(3), of ?r] s2(2) Some own obtain y s3 where
        save: "tx_saveOrder db ?r s2 = (Inr y, s3)" by (auto simp: works_def)
      from op_spec_Inr [OF tx_saveOrder _ save] s2 have
        "order_saved ?r (marked (tabs s) m i ts) y (tabs s3)" by simp
      with Some own have "o_id y = i" by (auto simp: order_saved_def)
      with ins find s2 new Some False save show ?thesis
        by (simp add: process_in_transaction_def ids await_def try_catch_def async_simps)
    qed
  qed
qed

end

lemma marked_schema_ok:
  assumes "schema_ok T" and "t_orders T i \<noteq> None"
  shows "schema_ok (marked T m i ts)"
  using assms by (auto simp: schema_ok_def own_ids_def unique_keys_def foreign_keys_def marked_def)

lemma processed_schema_ok:
  assumes ok: "schema_ok U" and r: "t_orders U i = Some r"
  shows "schema_ok (U\<lparr>t_orders := (t_orders U)(i \<mapsto> processed_row at_ms u r)\<rparr>)"
proof -
  have "o_id r = i" using own_ids_order [OF assms] .
  then have "own_ids (U\<lparr>t_orders := (t_orders U)(i \<mapsto> processed_row at_ms u r)\<rparr>)"
    using ok by (auto simp: schema_ok_def own_ids_def)
  moreover have "unique_keys (U\<lparr>t_orders := (t_orders U)(i \<mapsto> processed_row at_ms u r)\<rparr>)"
    using assms unfolding schema_ok_def unique_keys_def by (auto split: if_splits)
  moreover have "foreign_keys (U\<lparr>t_orders := (t_orders U)(i \<mapsto> processed_row at_ms u r)\<rparr>)"
    using assms unfolding schema_ok_def foreign_keys_def by auto
  ultimately show ?thesis by (simp add: schema_ok_def)
qed

lemma marked_processed_schema_ok:
  assumes "schema_ok T" and "t_orders T i = Some r"
  shows "schema_ok ((marked T m i ts)\<lparr>t_orders := (t_orders T)(i \<mapsto> processed_row at_ms u r)\<rparr>)"
  using processed_schema_ok [of "marked T m i ts" i r] marked_schema_ok [of T i m ts] assms by simp

lemma process_effect_schema:
  assumes "process_effect T message at_ms v T'" and ok: "schema_ok T"
  shows "schema_ok T'"
proof (cases v)
  case (Inr p)
  obtain outcome oid where "p = (outcome, oid)" by fastforce
  with Inr assms(1) show ?thesis
    using ok marked_schema_ok [OF ok] marked_processed_schema_ok [OF ok]
    by (cases outcome) (auto simp: process_effect_def)
qed (use assms in \<open>simp add: process_effect_def\<close>)

lemma process_effect_products:
  assumes "process_effect T message at_ms v T'"
  shows "t_products T' = t_products T"
proof (cases v)
  case (Inr q)
  obtain outcome oid where "q = (outcome, oid)" by fastforce
  with Inr assms show ?thesis by (cases outcome) (auto simp: process_effect_def)
qed (use assms in \<open>simp add: process_effect_def\<close>)

section \<open>Sequences of messages\<close>

fun run_messages ::
  "('d, 'ds, 'th) deps \<Rightarrow> (clock \<times> json) list \<Rightarrow> ('d, 'ds, 'th) world \<Rightarrow>
   (exn + process_outcome \<times> json option) list \<times> ('d, 'ds, 'th) world" where
  "run_messages deps [] w = ([], w)"
| "run_messages deps ((clock, message) # ms) w =
     (case processOrderMessage deps clock message w of (v, w1) \<Rightarrow>
        (case run_messages deps ms w1 of (vs, w2) \<Rightarrow> (v # vs, w2)))"

definition processings :: "string \<Rightarrow> (exn + process_outcome \<times> json option) list \<Rightarrow> nat" where
  "processings i vs = length (filter (\<lambda>v. v = Inr (Processed, Some (JStr i))) vs)"

definition is_processed :: "tables \<Rightarrow> string \<Rightarrow> bool" where
  "is_processed T i \<longleftrightarrow> (\<exists>r. t_orders T i = Some r \<and> o_status r = PROCESSED)"

lemma process_effect_processed:
  assumes "process_effect T message at_ms v T'"
  shows "is_processed T i \<Longrightarrow> is_processed T' i \<and> v \<noteq> Inr (Processed, Some (JStr i))"
    and "v = Inr (Processed, Some (JStr i)) \<Longrightarrow> is_processed T' i"
proof -
  consider e where "v = Inl e" | oid where "v = Inr (Processed, oid)"
    | oid where "v = Inr (AlreadyProcessed, oid)" | oid where "v = Inr (Deduplicated, oid)"
  proof (cases v)
    case (Inr q)
    with that show ?thesis by (cases q; cases "fst q") auto
  qed (use that in blast)
  then have "(is_processed T i \<longrightarrow> is_processed T' i \<and> v \<noteq> Inr (Processed, Some (JStr i))) \<and>
      (v = Inr (Processed, Some (JStr i)) \<longrightarrow> is_processed T' i)"
    using assms by cases (auto simp: process_effect_def is_processed_def)
  then show "is_processed T i \<Longrightarrow> is_processed T' i \<and> v \<noteq> Inr (Processed, Some (JStr i))"
    and "v = Inr (Processed, Some (JStr i)) \<Longrightarrow> is_processed T' i" by blast+
qed

lemma run_messages_once:
  assumes rel: "relational_store (dep_db deps) tabs tx"
  shows "run_messages deps ms w = (vs, w') \<Longrightarrow> tx (w_db w) = Idle \<Longrightarrow> schema_ok (tabs (w_db w)) \<Longrightarrow>
    processings i vs \<le> (if is_processed (tabs (w_db w)) i then 0 else 1)"
proof (induction ms arbitrary: w vs)
  case Nil
  then show ?case by (simp add: processings_def)
next
  case (Cons cm ms)
  obtain clock message where cm: "cm = (clock, message)" by fastforce
  obtain v w1 where one: "processOrderMessage deps clock message w = (v, w1)" by fastforce
  obtain vs' where rest: "run_messages deps ms w1 = (vs', w')" and vs: "vs = v # vs'"
    using Cons.prems(1) cm one by (auto split: prod.splits)
  from process_run [OF rel Cons.prems(2,3) one] have
    w1: "tx (w_db w1) = Idle" and
    eff: "process_effect (tabs (w_db w)) message (now_processedAt clock) v (tabs (w_db w1))" by simp_all
  from Cons.IH [OF rest w1 process_effect_schema [OF eff Cons.prems(3)]] have
    IH: "processings i vs' \<le> (if is_processed (tabs (w_db w1)) i then 0 else 1)" .
  show ?case
  proof (cases "v = Inr (Processed, Some (JStr i))")
    case True
    with process_effect_processed [OF eff, of i] IH vs show ?thesis
      by (auto simp: processings_def)
  next
    case False
    with process_effect_processed(1) [OF eff, of i] IH vs show ?thesis
      by (auto simp: processings_def split: if_splits)
  qed
qed

section \<open>Properties\<close>

definition demo_message :: "string \<Rightarrow> string \<Rightarrow> json" where
  "demo_message m i = JObj [(''messageId'', JStr m), (''orderId'', JStr i), (''attempt'', JNum (Fin 0))]"

lemma demo_message_ids [simp]:
  "property (demo_message m i) ''messageId'' = Some (JStr m)"
  "property (demo_message m i) ''orderId'' = Some (JStr i)"
  by (simp_all add: demo_message_def)

definition demo_clock :: clock where
  "demo_clock = \<lparr>now_processedAt = 1, now_version = 2, now_ts = 3\<rparr>"

text \<open>
  C16. What processing a message does, by outcome: a thrown exception leaves the tables alone;
  a deduplicated message was recorded before and changes nothing; otherwise the message is
  recorded together with its effect in one commit, and the order becomes \<open>PROCESSED\<close> exactly
  when it was not. A status event with the order's new state is pushed exactly for the
  outcome processed, after the commit, and the broker is not called.
\<close>

theorem process_effects:
  assumes "relational_store (dep_db deps) tabs tx"
    and "tx (w_db w) = Idle" and "schema_ok (tabs (w_db w))"
    and "processOrderMessage deps clock message w = (v, w')"
  shows "process_effect (tabs (w_db w)) message (now_processedAt clock) v (tabs (w_db w')) \<and>
    tx (w_db w') = Idle \<and> schema_ok (tabs (w_db w')) \<and> w_rabbit w' = w_rabbit w \<and>
    (if \<exists>x. v = Inr (Processed, x)
     then \<exists>i r. v = Inr (Processed, Some (JStr i)) \<and> t_orders (tabs (w_db w')) i = Some r \<and>
       w_events w' = publishStatusChanged (dep_rx deps) (event_of clock r) (w_events w)
     else w_events w' = w_events w)"
  using process_run [OF assms] process_effect_schema [OF _ assms(3)] by blast

theorem process_effects_witness:
  "\<exists>v w'. processOrderMessage demo_deps demo_clock (demo_message ''m1'' ''o1'')
     (demo_world [demo_order None]) = (v, w') \<and>
     process_effect (ref_tabs (demo_db [demo_order None])) (demo_message ''m1'' ''o1'') 1 v
       (ref_tabs (w_db w'))"
proof -
  obtain v w' where run: "processOrderMessage demo_deps demo_clock (demo_message ''m1'' ''o1'')
      (demo_world [demo_order None]) = (v, w')" by fastforce
  from process_effects [OF _ _ _ run, of ref_tabs ref_tx] ref.relational_store_axioms demo_db_ok run
  show ?thesis by (auto simp: demo_clock_def)
qed

text \<open>
  C12. No sequence of messages, with any redeliveries and whatever fails on the way, processes
  an order twice.
\<close>

theorem order_processed_once:
  assumes "relational_store (dep_db deps) tabs tx"
    and "tx (w_db w) = Idle" and "schema_ok (tabs (w_db w))"
  shows "processings i (fst (run_messages deps ms w)) \<le> 1"
  using run_messages_once [OF assms(1) _ assms(2,3), of ms, OF surjective_pairing, of i]
  by (simp split: if_splits)

theorem order_processed_once_witness:
  "processings ''o1'' (fst (run_messages demo_deps
     [(demo_clock, demo_message ''m1'' ''o1''), (demo_clock, demo_message ''m1'' ''o1''),
      (demo_clock, demo_message ''m2'' ''o1'')] (demo_world [demo_order None]))) \<le> 1"
  by (rule order_processed_once [where tabs = ref_tabs and tx = ref_tx])
    (use ref.relational_store_axioms demo_db_ok in simp_all)

lemma process_outcome:
  assumes "reliable_store (dep_db deps) tabs tx fits"
    and "tx (w_db w) = Idle" and "schema_ok (tabs (w_db w))"
    and "property message ''messageId'' = Some (JStr m)"
    and "property message ''orderId'' = Some (JStr i)"
    and "v = fst (processOrderMessage deps clock message w)"
  shows "if t_processed (tabs (w_db w)) m \<noteq> None then v = Inr (Deduplicated, Some (JStr i))
    else case t_orders (tabs (w_db w)) i of
        None \<Rightarrow> \<exists>e. v = Inl (DbError (Some ''23503'') e)
      | Some r \<Rightarrow> v = Inr (if o_status r = PROCESSED then AlreadyProcessed else Processed, Some (JStr i))"
proof -
  let ?body = "process_in_transaction (dep_db deps) (now_processedAt clock) message"
  obtain s1 where s1: "opened tabs tx (w_db w) s1"
    and fst: "fst (ds_transaction (dep_db deps) ?body (w_db w)) = fst (?body s1)"
    using reliable_store.transaction_runs [OF assms(1,2)] by blast
  then have act: "tabs s1 = tabs (w_db w)" "tx s1 = Active (tabs s1)" by (simp_all add: opened_def)
  note decides = reliable_store.process_tx_decides [OF assms(1) act(2) _ assms(4,5),
      of "now_processedAt clock", unfolded act(1), OF assms(3)]
  obtain u d where tr: "ds_transaction (dep_db deps) ?body (w_db w) = (u, d)" by fastforce
  with fst have u: "fst (?body s1) = u" by simp
  show ?thesis
  proof (cases "t_processed (tabs (w_db w)) m")
    case (Some pm)
    with decides u tr assms(5,6) show ?thesis
      by (auto simp: processOrderMessage_def await_def on_db_run async_simps)
  next
    case new: None
    show ?thesis
    proof (cases "t_orders (tabs (w_db w)) i")
      case None
      with decides new u tr assms(6) show ?thesis
        by (auto simp: processOrderMessage_def await_def on_db_run async_simps)
    next
      case (Some r)
      with decides new u tr assms(5,6) show ?thesis
        by (auto simp: processOrderMessage_def await_def on_db_run async_simps publish_event_def)
    qed
  qed
qed

text \<open>
  On a database that fails only on constraints, the tables decide the outcome: a recorded
  message is deduplicated, a message for an order that is not there fails with the foreign
  key violation (never with \<open>Order not found\<close>), and otherwise the order is processed or was
  already.
\<close>

theorem process_decides:
  assumes "reliable_store (dep_db deps) tabs tx fits"
    and "tx (w_db w) = Idle" and "schema_ok (tabs (w_db w))"
    and "property message ''messageId'' = Some (JStr m)"
    and "property message ''orderId'' = Some (JStr i)"
    and "v = fst (processOrderMessage deps clock message w)"
  shows "if t_processed (tabs (w_db w)) m \<noteq> None then v = Inr (Deduplicated, Some (JStr i))
    else case t_orders (tabs (w_db w)) i of
        None \<Rightarrow> \<exists>e. v = Inl (DbError (Some ''23503'') e)
      | Some r \<Rightarrow> v = Inr (if o_status r = PROCESSED then AlreadyProcessed else Processed, Some (JStr i))"
  by (rule process_outcome [OF assms])

theorem process_decides_witness:
  "fst (processOrderMessage demo_deps demo_clock (demo_message ''m1'' ''o1'') (demo_world [demo_order None])) =
     Inr (Processed, Some (JStr ''o1'')) \<and>
   (\<exists>e. fst (processOrderMessage demo_deps demo_clock (demo_message ''m1'' ''o9'') (demo_world [])) =
     Inl (DbError (Some ''23503'') e))"
  using process_decides [of demo_deps ref_tabs ref_tx "\<lambda>q. True" "demo_world [demo_order None]"
      "demo_message ''m1'' ''o1''" "''m1''" "''o1''" _ demo_clock, OF _ _ _ _ _ refl]
    process_decides [of demo_deps ref_tabs ref_tx "\<lambda>q. True" "demo_world []"
      "demo_message ''m1'' ''o9''" "''m1''" "''o9''" _ demo_clock, OF _ _ _ _ _ refl]
    ref.reliable_store_axioms demo_db_ok
  by simp

end
