(* ===== verification/Worker.thy ===== *)
theory Worker
  imports ProcessOrder Backoff
begin

text \<open>
  The worker (\<^verbatim>\<open>src/orders-worker/orders-worker.service.ts\<close>): a delivery of the main queue is
  processed, or sent on to the retry queue with a delay or to the dead letter queue, and then
  acknowledged. Its world is the orders service's world and the lines it logs. The clock
  readings of one delivery are arguments.
\<close>

section \<open>Configuration\<close>

record worker_config =
  wc_maxAttempts :: int
  wc_retryBaseDelayMs :: int
  wc_retryMaxDelayMs :: int

definition parsePositiveInt :: "string option \<Rightarrow> int \<Rightarrow> int" where
  "parsePositiveInt v fallback =
     (let parsed = js_Number_opt v in
      if isInteger parsed \<and> js_pos parsed then js_floor parsed else fallback)"

definition worker_config_of :: "settings \<Rightarrow> worker_config" where
  "worker_config_of config =
     \<lparr>wc_maxAttempts = parsePositiveInt (config ''ORDERS_MAX_ATTEMPTS'') 3,
      wc_retryBaseDelayMs = parsePositiveInt (config ''ORDERS_RETRY_BASE_DELAY_MS'') 1000,
      wc_retryMaxDelayMs = parsePositiveInt (config ''ORDERS_RETRY_MAX_DELAY_MS'') 30000\<rparr>"

definition computeRetryDelayMs :: "worker_config \<Rightarrow> int \<Rightarrow> int" where
  "computeRetryDelayMs cfg nextAttempt =
     min (wc_retryBaseDelayMs cfg * 2 ^ nat (max 0 (nextAttempt - 1))) (wc_retryMaxDelayMs cfg)"

text \<open>The first line of the error's message, at most 160 characters of it.\<close>

definition getShortErrorReason :: "exn \<Rightarrow> string" where
  "getShortErrorReason e = take 160 (takeWhile (\<lambda>c. c \<noteq> CHR 0x0A) (exn_message e))"

section \<open>The world of the worker\<close>

datatype delivery_result = ResultSuccess | ResultDedup | ResultRetry | ResultDlq

record delivery_log =
  lg_messageId :: json
  lg_orderId :: json
  lg_attempt :: int
  lg_result :: delivery_result
  lg_reason :: string

record ('d, 'ds, 'th) worker_world =
  ww_world :: "('d, 'ds, 'th) world"
  ww_log :: "delivery_log list"

definition in_world :: "(('d, 'ds, 'th) world, 'a) async \<Rightarrow> (('d, 'ds, 'th) worker_world, 'a) async" where
  "in_world = on_part ww_world (\<lambda>w ww. ww\<lparr>ww_world := w\<rparr>)"

definition in_rabbit :: "(rabbit_state, 'a) async \<Rightarrow> (('d, 'ds, 'th) worker_world, 'a) async" where
  "in_rabbit m = in_world (on_rabbit m)"

definition logDeliveryResult :: "delivery_log \<Rightarrow> (('d, 'ds, 'th) worker_world, unit) async" where
  "logDeliveryResult l = modify (\<lambda>ww. ww\<lparr>ww_log := ww_log ww @ [l]\<rparr>)"

section \<open>Handling a delivery\<close>

text \<open>\<open>v ?? '(missing)'\<close>\<close>

definition or_missing :: "json option \<Rightarrow> json" where
  "or_missing v = (case v of None \<Rightarrow> JStr ''(missing)'' | Some JNull \<Rightarrow> JStr ''(missing)'' | Some x \<Rightarrow> x)"

definition attempt_of :: "json option \<Rightarrow> int" where
  "attempt_of v =
     (case v of Some (JNum x) \<Rightarrow> if isInteger x \<and> js_nonneg x then js_floor x else 0 | _ \<Rightarrow> 0)"

record delivery_clock =
  dc_process :: clock
  dc_now :: int

definition raw_base64 :: "content \<Rightarrow> string" where
  "raw_base64 c = (case c of OtherBytes bs \<Rightarrow> base64 bs | JsonText v \<Rightarrow> [])"

text \<open>\<open>publishToQueue\<close>, with the check of its answer.\<close>

definition publish_or_throw ::
  "amqp \<Rightarrow> string \<Rightarrow> json \<Rightarrow> publish_options \<Rightarrow> (('d, 'ds, 'th) worker_world, unit) async" where
  "publish_or_throw amqp queue payload options =
     await (in_rabbit (publishToQueue amqp queue payload options)) (\<lambda>published.
       if published then resolve () else throw (JsError (''Failed to publish message to '' @ queue)))"

definition of_result :: "exn + 'a \<Rightarrow> ('s, 'a) async" where
  "of_result v = (case v of Inl e \<Rightarrow> throw e | Inr x \<Rightarrow> resolve x)"

text \<open>A body that is no JSON text goes to the dead letter queue.\<close>

definition handle_invalid ::
  "amqp \<Rightarrow> delivery \<Rightarrow> (('d, 'ds, 'th) worker_world, unit) async" where
  "handle_invalid amqp message =
     await (publish_or_throw amqp dlqQueue
       (JObj [(''reason'', JStr ''invalid_json''), (''raw'', JStr (raw_base64 (d_content message)))])
       no_options) (\<lambda>_.
     await (logDeliveryResult
       \<lparr>lg_messageId = JStr ''(invalid_json)'', lg_orderId = JStr ''(invalid_json)'',
        lg_attempt = 0, lg_result = ResultDlq, lg_reason = ''invalid_json''\<rparr>) (\<lambda>_.
     in_rabbit (channel_ack amqp message)))"

text \<open>The body of the \<open>try\<close>: process, log by outcome, acknowledge.\<close>

definition outcome_log :: "process_outcome \<Rightarrow> delivery_result \<times> string" where
  "outcome_log outcome =
     (case outcome of
        Deduplicated \<Rightarrow> (ResultDedup, ''duplicate_message_id'')
      | AlreadyProcessed \<Rightarrow> (ResultSuccess, ''already_processed'')
      | Processed \<Rightarrow> (ResultSuccess, ''processed''))"

definition handle_processing ::
  "('d, 'ds, 'th) deps \<Rightarrow> delivery_clock \<Rightarrow> json \<Rightarrow> int \<Rightarrow> delivery \<Rightarrow>
   (('d, 'ds, 'th) worker_world, unit) async" where
  "handle_processing deps clock payload attempt message =
     await (in_world (processOrderMessage deps (dc_process clock)
       (JObj (obj_set (spread payload) ''attempt'' (JNum (Fin (of_int attempt))))))) (\<lambda>(outcome, oid).
     await (logDeliveryResult
       \<lparr>lg_messageId = or_missing (property payload ''messageId''),
        lg_orderId = or_missing (property payload ''orderId''), lg_attempt = attempt,
        lg_result = fst (outcome_log outcome), lg_reason = snd (outcome_log outcome)\<rparr>) (\<lambda>_.
     in_rabbit (channel_ack (dep_amqp deps) message)))"

text \<open>The \<open>catch\<close>: to the dead letter queue after the last attempt, else to the retry queue.\<close>

definition handle_failure ::
  "amqp \<Rightarrow> worker_config \<Rightarrow> delivery_clock \<Rightarrow> json \<Rightarrow> int \<Rightarrow> delivery \<Rightarrow> exn \<Rightarrow>
   (('d, 'ds, 'th) worker_world, unit) async" where
  "handle_failure amqp cfg clock payload attempt message error =
     (let messageId = or_missing (property payload ''messageId'');
          orderId = or_missing (property payload ''orderId'');
          errorReason = getShortErrorReason error in
      if attempt \<ge> wc_maxAttempts cfg - 1 then
        await (of_result (toISOString (dc_now clock))) (\<lambda>failedAt.
        await (publish_or_throw amqp dlqQueue
          (JObj (obj_assign (spread payload)
            [(''attempt'', JNum (Fin (of_int attempt))), (''failedAt'', JStr failedAt),
             (''errorReason'', JStr errorReason)]))
          \<lparr>po_messageId = property payload ''messageId'',
           po_correlationId = property payload ''correlationId'',
           po_timestamp = None, po_expiration = None\<rparr>) (\<lambda>_.
        await (logDeliveryResult
          \<lparr>lg_messageId = messageId, lg_orderId = orderId, lg_attempt = attempt,
           lg_result = ResultDlq, lg_reason = errorReason\<rparr>) (\<lambda>_.
        in_rabbit (channel_ack amqp message))))
      else
        (let nextAttempt = attempt + 1; delayMs = computeRetryDelayMs cfg nextAttempt in
         await (of_result (toISOString (dc_now clock + delayMs))) (\<lambda>retryAt.
         await (publish_or_throw amqp retryQueue
           (JObj (obj_assign (spread payload)
             [(''attempt'', JNum (Fin (of_int nextAttempt))), (''retryAt'', JStr retryAt),
              (''errorReason'', JStr errorReason)]))
           \<lparr>po_messageId = property payload ''messageId'',
            po_correlationId = property payload ''correlationId'',
            po_timestamp = None, po_expiration = Some (string_of_int delayMs)\<rparr>) (\<lambda>_.
         await (logDeliveryResult
           \<lparr>lg_messageId = messageId, lg_orderId = orderId, lg_attempt = attempt,
            lg_result = ResultRetry,
            lg_reason = errorReason @ ''; nextAttempt='' @ string_of_int nextAttempt @
              ''; delayMs='' @ string_of_int delayMs\<rparr>) (\<lambda>_.
         in_rabbit (channel_ack amqp message))))))"

definition handleMessage ::
  "('d, 'ds, 'th) deps \<Rightarrow> worker_config \<Rightarrow> delivery_clock \<Rightarrow> delivery \<Rightarrow>
   (('d, 'ds, 'th) worker_world, unit) async" where
  "handleMessage deps cfg clock message =
     (case parse (d_content message) of
        None \<Rightarrow> handle_invalid (dep_amqp deps) message
      | Some payload \<Rightarrow>
          await (of_result (get_property payload ''attempt'')) (\<lambda>given.
            let attempt = attempt_of given in
            try_catch (handle_processing deps clock payload attempt message)
              (handle_failure (dep_amqp deps) cfg clock payload attempt message)))"

text \<open>Registration, and what the broker then calls for a delivery.\<close>

definition onApplicationBootstrap :: "amqp \<Rightarrow> (rabbit_state, unit) async" where
  "onApplicationBootstrap amqp = consume amqp processQueue"

definition worker_delivery ::
  "('d, 'ds, 'th) deps \<Rightarrow> worker_config \<Rightarrow> delivery_clock \<Rightarrow> delivery option \<Rightarrow>
   (('d, 'ds, 'th) worker_world, unit) async" where
  "worker_delivery deps cfg clock message =
     consumer_callback in_rabbit (dep_amqp deps) (handleMessage deps cfg clock) message"

section \<open>Configured values\<close>

lemma parsePositiveInt_pos: "0 < fallback \<Longrightarrow> 0 < parsePositiveInt v fallback"
proof -
  assume "0 < fallback"
  moreover have "isInteger x \<Longrightarrow> js_pos x \<Longrightarrow> 0 < js_floor x" for x
    by (cases x) (auto simp: less_le floor_less_iff order.strict_iff_order)
  ultimately show ?thesis by (simp add: parsePositiveInt_def Let_def)
qed

lemma worker_config_pos [simp]:
  "0 < wc_maxAttempts (worker_config_of config)"
  "0 < wc_retryBaseDelayMs (worker_config_of config)"
  "0 < wc_retryMaxDelayMs (worker_config_of config)"
  by (simp_all add: worker_config_of_def parsePositiveInt_pos)

interpretation worker_backoff: capped_backoff
  "wc_retryBaseDelayMs (worker_config_of config)" "wc_retryMaxDelayMs (worker_config_of config)"
  "\<lambda>n. computeRetryDelayMs (worker_config_of config) (int n + 1)"
  for config
  by unfold_locales (simp_all add: computeRetryDelayMs_def)

end
