(* ===== verification/WorkerFacts.thy ===== *)
theory WorkerFacts
  imports Worker
begin

text \<open>
  What the worker does with a delivery: the calls it makes to the broker, on every branch, that
  it never acknowledges a message it has neither processed nor sent on, and how the attempts
  of a failing message end.
\<close>

section \<open>Calls of a delivery\<close>

definition calls :: "('d, 'ds, 'th) worker_world \<Rightarrow> amqp_call list" where
  "calls ww = rb_calls (w_rabbit (ww_world ww))"

definition wready :: "('d, 'ds, 'th) worker_world \<Rightarrow> bool" where
  "wready ww = ready (w_rabbit (ww_world ww))"

definition after :: "amqp_call \<Rightarrow> ('d, 'ds, 'th) worker_world \<Rightarrow> ('d, 'ds, 'th) worker_world" where
  "after c ww = ww\<lparr>ww_world := (ww_world ww)\<lparr>w_rabbit := called c (w_rabbit (ww_world ww))\<rparr>\<rparr>"

definition logged :: "delivery_log \<Rightarrow> ('d, 'ds, 'th) worker_world \<Rightarrow> ('d, 'ds, 'th) worker_world" where
  "logged l ww = ww\<lparr>ww_log := ww_log ww @ [l]\<rparr>"

lemma after_simps [simp]:
  "calls (after c ww) = calls ww @ [c]" "wready (after c ww) = wready ww"
  "ww_log (after c ww) = ww_log ww"
  "w_db (ww_world (after c ww)) = w_db (ww_world ww)"
  "w_events (ww_world (after c ww)) = w_events (ww_world ww)"
  by (simp_all add: calls_def wready_def after_def)

lemma logged_simps [simp]:
  "calls (logged l ww) = calls ww" "wready (logged l ww) = wready ww"
  "ww_log (logged l ww) = ww_log ww @ [l]" "ww_world (logged l ww) = ww_world ww"
  by (simp_all add: calls_def wready_def logged_def)

lemma log_run: "logDeliveryResult l ww = (Inr (), logged l ww)"
  by (simp add: logDeliveryResult_def logged_def async_simps)

lemma in_rabbit_run:
  "m (w_rabbit (ww_world ww)) = (r, b) \<Longrightarrow>
   in_rabbit m ww = (r, ww\<lparr>ww_world := (ww_world ww)\<lparr>w_rabbit := b\<rparr>\<rparr>)"
  by (simp add: in_rabbit_def in_world_def on_part_def on_rabbit_def)

lemma in_rabbit_ack:
  "in_rabbit (channel_ack amqp m) ww =
     (map_sum id (\<lambda>_. ()) (amqp (calls ww @ [Ack m])), after (Ack m) ww)"
  by (subst in_rabbit_run [OF ack_run]) (simp add: calls_def after_def)

lemma in_rabbit_nack:
  "wready ww \<Longrightarrow> in_rabbit (channel_nack amqp m a r) ww =
     (map_sum id (\<lambda>_. ()) (amqp (calls ww @ [Nack m a r])), after (Nack m a r) ww)"
  by (subst in_rabbit_run [OF nack_run]) (simp_all add: calls_def after_def wready_def ready_def)

lemma in_rabbit_nack_calls:
  "calls (snd (in_rabbit (channel_nack amqp m a r) ww)) \<in> {calls ww, calls ww @ [Nack m a r]}"
proof (cases "rb_channel (w_rabbit (ww_world ww))")
  case True
  then show ?thesis by (subst in_rabbit_run [OF nack_run]) (simp_all add: calls_def)
next
  case False
  then have "channel_nack amqp m a r (w_rabbit (ww_world ww)) = (Inr (), w_rabbit (ww_world ww))"
    by (simp add: channel_nack_def await_def async_simps)
  then show ?thesis by (simp add: in_rabbit_run calls_def)
qed

text \<open>The call a publication makes, and its three ways to end.\<close>

definition send :: "string \<Rightarrow> json \<Rightarrow> publish_options \<Rightarrow> amqp_call" where
  "send q payload options = SendToQueue q (stringify payload) (sent options)"

lemma publish_or_throw_ready:
  assumes "wready ww"
  shows "publish_or_throw amqp q payload options ww =
    (case amqp (calls ww @ [send q payload options]) of
       Inl e \<Rightarrow> Inl e
     | Inr accepted \<Rightarrow> if accepted then Inr () else Inl (JsError (''Failed to publish message to '' @ q)),
     after (send q payload options) ww)"
proof -
  have "in_rabbit (publishToQueue amqp q payload options) ww =
      (amqp (calls ww @ [send q payload options]), after (send q payload options) ww)"
    using assms
    by (subst in_rabbit_run [OF publish_ready]) (simp_all add: wready_def calls_def after_def send_def)
  then show ?thesis
    by (simp add: publish_or_throw_def await_def async_simps split: sum.split)
qed

lemma publish_or_throw_not_ready:
  assumes "\<not> wready ww"
  shows "publish_or_throw amqp q payload options ww =
    (Inl (JsError (''Failed to publish message to '' @ q)), ww)"
proof -
  have "in_rabbit (publishToQueue amqp q payload options) ww = (Inr False, ww)"
    using assms by (subst in_rabbit_run [OF publish_not_ready]) (simp_all add: wready_def)
  then show ?thesis by (simp add: publish_or_throw_def await_def async_simps)
qed

text \<open>Publish, log, acknowledge.\<close>

definition forward ::
  "amqp \<Rightarrow> string \<Rightarrow> json \<Rightarrow> publish_options \<Rightarrow> delivery_log \<Rightarrow> delivery \<Rightarrow>
   (('d, 'ds, 'th) worker_world, unit) async" where
  "forward amqp q payload options l m =
     await (publish_or_throw amqp q payload options) (\<lambda>_.
     await (logDeliveryResult l) (\<lambda>_. in_rabbit (channel_ack amqp m)))"

lemma forward_accepted:
  assumes "wready ww" and "amqp (calls ww @ [send q payload options]) = Inr True"
  shows "forward amqp q payload options l m ww =
    (map_sum id (\<lambda>_. ()) (amqp (calls ww @ [send q payload options, Ack m])),
     after (Ack m) (logged l (after (send q payload options) ww)))"
  using assms
  by (simp add: forward_def await_def publish_or_throw_ready log_run in_rabbit_ack)

lemma forward_refused:
  assumes "\<not> wready ww \<or> amqp (calls ww @ [send q payload options]) \<noteq> Inr True"
  obtains e ww' where "forward amqp q payload options l m ww = (Inl e, ww')"
    "calls ww' \<in> {calls ww, calls ww @ [send q payload options]}" "wready ww' = wready ww"
proof (cases "wready ww")
  case False
  then show ?thesis
    using that by (simp add: forward_def await_def publish_or_throw_not_ready)
next
  case True
  with assms have refused: "amqp (calls ww @ [send q payload options]) \<noteq> Inr True" by simp
  then obtain e where "(case amqp (calls ww @ [send q payload options]) of
       Inl e \<Rightarrow> Inl e
     | Inr accepted \<Rightarrow> if accepted then Inr () else Inl (JsError (''Failed to publish message to '' @ q))) = Inl e"
    by (cases "amqp (calls ww @ [send q payload options])") auto
  with True that show ?thesis
    by (simp add: forward_def await_def publish_or_throw_ready)
qed

text \<open>An acknowledgement among the calls of a forward means the broker took the message on.\<close>

lemma forward_calls:
  assumes "forward amqp q payload options l m ww = (v, ww')"
  shows "calls ww' \<in> {calls ww, calls ww @ [send q payload options]} \<and> (\<exists>e. v = Inl e) \<or>
    wready ww \<and> amqp (calls ww @ [send q payload options]) = Inr True \<and>
    calls ww' = calls ww @ [send q payload options, Ack m]"
proof (cases "wready ww \<and> amqp (calls ww @ [send q payload options]) = Inr True")
  case True
  with assms forward_accepted [of ww amqp q payload options l m] show ?thesis by auto
next
  case False
  then have "\<not> wready ww \<or> amqp (calls ww @ [send q payload options]) \<noteq> Inr True" by blast
  then obtain e ww2 where "forward amqp q payload options l m ww = (Inl e, ww2)"
    "calls ww2 \<in> {calls ww, calls ww @ [send q payload options]}" by (rule forward_refused)
  with assms show ?thesis by auto
qed

section \<open>The branches\<close>

definition final_payload :: "json \<Rightarrow> int \<Rightarrow> string \<Rightarrow> exn \<Rightarrow> json" where
  "final_payload payload attempt failedAt e =
     JObj (obj_assign (spread payload)
       [(''attempt'', JNum (Fin (of_int attempt))), (''failedAt'', JStr failedAt),
        (''errorReason'', JStr (getShortErrorReason e))])"

definition retry_payload :: "json \<Rightarrow> int \<Rightarrow> string \<Rightarrow> exn \<Rightarrow> json" where
  "retry_payload payload attempt retryAt e =
     JObj (obj_assign (spread payload)
       [(''attempt'', JNum (Fin (of_int (attempt + 1)))), (''retryAt'', JStr retryAt),
        (''errorReason'', JStr (getShortErrorReason e))])"

definition options_of :: "json \<Rightarrow> string option \<Rightarrow> publish_options" where
  "options_of payload expiration =
     \<lparr>po_messageId = property payload ''messageId'', po_correlationId = property payload ''correlationId'',
      po_timestamp = None, po_expiration = expiration\<rparr>"

lemma handle_invalid_forward:
  "handle_invalid amqp m =
     forward amqp dlqQueue
       (JObj [(''reason'', JStr ''invalid_json''), (''raw'', JStr (raw_base64 (d_content m)))]) no_options
       \<lparr>lg_messageId = JStr ''(invalid_json)'', lg_orderId = JStr ''(invalid_json)'',
        lg_attempt = 0, lg_result = ResultDlq, lg_reason = ''invalid_json''\<rparr> m"
  by (simp add: handle_invalid_def forward_def)

lemma handle_failure_last:
  assumes "wc_maxAttempts cfg - 1 \<le> attempt"
  shows "\<exists>l. \<forall>ww. handle_failure amqp cfg clock payload attempt m e ww =
    (case toISOString (dc_now clock) of
       Inl x \<Rightarrow> (Inl x, ww)
     | Inr failedAt \<Rightarrow>
         forward amqp dlqQueue (final_payload payload attempt failedAt e) (options_of payload None) l m ww) \<and>
    lg_result l = ResultDlq"
  by (rule exI [of _ "\<lparr>lg_messageId = or_missing (property payload ''messageId''),
      lg_orderId = or_missing (property payload ''orderId''), lg_attempt = attempt,
      lg_result = ResultDlq, lg_reason = getShortErrorReason e\<rparr>"])
    (use assms in \<open>auto simp: handle_failure_def Let_def of_result_def await_def async_simps forward_def
      final_payload_def options_of_def split: sum.split\<close>)

lemma handle_failure_retry:
  assumes "attempt < wc_maxAttempts cfg - 1"
  shows "\<exists>l. \<forall>ww. handle_failure amqp cfg clock payload attempt m e ww =
    (case toISOString (dc_now clock + computeRetryDelayMs cfg (attempt + 1)) of
       Inl x \<Rightarrow> (Inl x, ww)
     | Inr retryAt \<Rightarrow>
         forward amqp retryQueue (retry_payload payload attempt retryAt e)
           (options_of payload (Some (string_of_int (computeRetryDelayMs cfg (attempt + 1))))) l m ww) \<and>
    lg_result l = ResultRetry"
  by (rule exI [of _ "\<lparr>lg_messageId = or_missing (property payload ''messageId''),
      lg_orderId = or_missing (property payload ''orderId''), lg_attempt = attempt,
      lg_result = ResultRetry,
      lg_reason = getShortErrorReason e @ ''; nextAttempt='' @ string_of_int (attempt + 1) @
        ''; delayMs='' @ string_of_int (computeRetryDelayMs cfg (attempt + 1))\<rparr>"])
    (use assms in \<open>auto simp: handle_failure_def Let_def of_result_def await_def async_simps forward_def
      retry_payload_def options_of_def split: sum.split\<close>)

text \<open>A failed attempt: nothing acknowledged, or the message is on the retry or the dead letter queue.\<close>

definition forwarded :: "amqp \<Rightarrow> amqp_call list \<Rightarrow> delivery \<Rightarrow> amqp_call list \<Rightarrow> bool" where
  "forwarded amqp before m cs \<longleftrightarrow>
     (\<exists>q payload options. q \<in> {retryQueue, dlqQueue} \<and> cs = before @ [send q payload options, Ack m] \<and>
        amqp (before @ [send q payload options]) = Inr True)"

definition not_acked :: "amqp_call list \<Rightarrow> delivery \<Rightarrow> amqp_call list \<Rightarrow> bool" where
  "not_acked before m cs \<longleftrightarrow> (\<exists>new. cs = before @ new \<and> Ack m \<notin> set new)"

lemma forward_safe:
  assumes "forward amqp q payload options l m ww = (v, ww')" and "q \<in> {retryQueue, dlqQueue}"
  shows "not_acked (calls ww) m (calls ww') \<and> (\<exists>e. v = Inl e) \<or> forwarded amqp (calls ww) m (calls ww')"
  using forward_calls [OF assms(1)] assms(2)
  unfolding not_acked_def forwarded_def send_def by force

lemma handle_failure_safe:
  assumes "handle_failure amqp cfg clock payload attempt m e ww = (v, ww')"
  shows "not_acked (calls ww) m (calls ww') \<and> (\<exists>e. v = Inl e) \<or> forwarded amqp (calls ww) m (calls ww')"
proof -
  have here: "not_acked (calls ww) m (calls ww)" by (simp add: not_acked_def)
  show ?thesis
  proof (cases "attempt < wc_maxAttempts cfg - 1")
    case True
    from handle_failure_retry [OF this, of amqp clock payload m e] obtain l where
      run: "handle_failure amqp cfg clock payload attempt m e ww =
        (case toISOString (dc_now clock + computeRetryDelayMs cfg (attempt + 1)) of
           Inl x \<Rightarrow> (Inl x, ww)
         | Inr retryAt \<Rightarrow>
             forward amqp retryQueue (retry_payload payload attempt retryAt e)
               (options_of payload (Some (string_of_int (computeRetryDelayMs cfg (attempt + 1))))) l m ww)"
      by blast
    show ?thesis
      using assms run here forward_safe
      by (cases "toISOString (dc_now clock + computeRetryDelayMs cfg (attempt + 1))") fastforce+
  next
    case False
    then have "wc_maxAttempts cfg - 1 \<le> attempt" by simp
    from handle_failure_last [OF this, of amqp clock payload m e] obtain l where
      run: "handle_failure amqp cfg clock payload attempt m e ww =
        (case toISOString (dc_now clock) of
           Inl x \<Rightarrow> (Inl x, ww)
         | Inr failedAt \<Rightarrow>
             forward amqp dlqQueue (final_payload payload attempt failedAt e) (options_of payload None) l m ww)"
      by blast
    show ?thesis
      using assms run here forward_safe by (cases "toISOString (dc_now clock)") fastforce+
  qed
qed

end
