(* ===== verification/WorkerProperties.thy ===== *)
theory WorkerProperties
  imports WorkerFacts
begin

text \<open>
  Properties of the worker: what it tells the broker about a delivery on every branch, that it
  acknowledges nothing it has neither processed nor sent on, how the attempts of a message
  end, and what becomes of a body that is the JSON text \<open>null\<close>.
\<close>

section \<open>The body of the try\<close>

lemma process_rabbit: "w_rabbit (snd (processOrderMessage deps clock message w)) = w_rabbit w"
  by (simp add: processOrderMessage_def on_db_def on_part_def publish_event_def await_def async_simps
      split: prod.split sum.split option.split)

definition process_input :: "json \<Rightarrow> int \<Rightarrow> json" where
  "process_input payload attempt =
     JObj (obj_set (spread payload) ''attempt'' (JNum (Fin (of_int attempt))))"

definition processing ::
  "('d, 'ds, 'th) deps \<Rightarrow> delivery_clock \<Rightarrow> json \<Rightarrow> int \<Rightarrow> ('d, 'ds, 'th) worker_world \<Rightarrow>
   exn + process_outcome \<times> json option" where
  "processing deps clock payload attempt ww =
     fst (processOrderMessage deps (dc_process clock) (process_input payload attempt) (ww_world ww))"

lemma handle_processing_run:
  obtains w l where
    "\<And>e. processing deps clock payload attempt ww = Inl e \<Longrightarrow>
      handle_processing deps clock payload attempt m ww = (Inl e, w)"
    "\<And>x. processing deps clock payload attempt ww = Inr x \<Longrightarrow>
      handle_processing deps clock payload attempt m ww =
        (map_sum id (\<lambda>_. ()) (dep_amqp deps (calls ww @ [Ack m])), after (Ack m) (logged l w))"
    "calls w = calls ww" "wready w = wready ww"
    "w_db (ww_world w) = w_db (snd (processOrderMessage deps (dc_process clock)
       (process_input payload attempt) (ww_world ww)))"
proof -
  obtain v w1 where run: "processOrderMessage deps (dc_process clock) (process_input payload attempt)
      (ww_world ww) = (v, w1)" by fastforce
  let ?w = "ww\<lparr>ww_world := w1\<rparr>"
  have same: "w_rabbit w1 = w_rabbit (ww_world ww)"
    using process_rabbit [of deps "dc_process clock" "process_input payload attempt" "ww_world ww"] run
    by simp
  have in_w: "in_world (processOrderMessage deps (dc_process clock) (process_input payload attempt)) ww =
      (v, ?w)" using run by (simp add: in_world_def on_part_def)
  show ?thesis
  proof (rule that [where w = ?w and l = "\<lparr>lg_messageId = or_missing (property payload ''messageId''),
        lg_orderId = or_missing (property payload ''orderId''), lg_attempt = attempt,
        lg_result = fst (outcome_log (fst (projr v))), lg_reason = snd (outcome_log (fst (projr v)))\<rparr>"])
    show "calls ?w = calls ww" "wready ?w = wready ww"
      using same by (simp_all add: calls_def wready_def)
    then show "handle_processing deps clock payload attempt m ww =
        (map_sum id (\<lambda>_. ()) (dep_amqp deps (calls ww @ [Ack m])), after (Ack m) (logged
          \<lparr>lg_messageId = or_missing (property payload ''messageId''),
          lg_orderId = or_missing (property payload ''orderId''), lg_attempt = attempt,
          lg_result = fst (outcome_log (fst (projr v))), lg_reason = snd (outcome_log (fst (projr v)))\<rparr> ?w))"
      if "processing deps clock payload attempt ww = Inr x" for x
      using that run in_w
      by (cases x) (simp add: processing_def handle_processing_def await_def log_run in_rabbit_ack
          flip: process_input_def)
    show "handle_processing deps clock payload attempt m ww = (Inl e, ?w)"
      if "processing deps clock payload attempt ww = Inl e" for e
      using that run in_w
      by (simp add: processing_def handle_processing_def await_def flip: process_input_def)
    show "w_db (ww_world ?w) = w_db (snd (processOrderMessage deps (dc_process clock)
       (process_input payload attempt) (ww_world ww)))" using run by simp
  qed
qed

section \<open>One delivery\<close>

lemma handle_null:
  "parse (d_content m) = Some JNull \<Longrightarrow> \<exists>e. handleMessage deps cfg clock m ww = (Inl e, ww)"
  by (simp add: handleMessage_def get_property_def of_result_def await_def async_simps)

lemma handle_value:
  "parse (d_content m) = Some payload \<Longrightarrow> payload \<noteq> JNull \<Longrightarrow>
   handleMessage deps cfg clock m =
     try_catch (handle_processing deps clock payload (attempt_of (property payload ''attempt'')) m)
       (handle_failure (dep_amqp deps) cfg clock payload (attempt_of (property payload ''attempt'')) m)"
  by (simp add: handleMessage_def of_result_def Let_def)

lemma delivery_resolved:
  "handleMessage deps cfg clock m ww = (Inr x, ww') \<Longrightarrow>
   worker_delivery deps cfg clock (Some m) ww = (Inr (), ww')"
  by (simp add: worker_delivery_def consumer_callback_def try_catch_def)

lemma delivery_thrown:
  "handleMessage deps cfg clock m ww = (Inl e, ww') \<Longrightarrow>
   worker_delivery deps cfg clock (Some m) ww = in_rabbit (channel_nack (dep_amqp deps) m False True) ww'"
  by (simp add: worker_delivery_def consumer_callback_def try_catch_def)

lemma not_acked_nack:
  assumes "not_acked before m cs" and "cs' \<in> {cs, cs @ [Nack m a r]}"
  shows "not_acked before m cs'"
  using assms unfolding not_acked_def by force

text \<open>What is left of a thrown error: no acknowledgement, or the message was sent on before.\<close>

lemma thrown_calls:
  assumes "handleMessage deps cfg clock m ww = (Inl e, w2)"
    and "worker_delivery deps cfg clock (Some m) ww = (v, ww')"
  shows "calls ww' \<in> {calls w2, calls w2 @ [Nack m False True]}"
  using delivery_thrown [OF assms(1)] assms(2)
    in_rabbit_nack_calls [of "dep_amqp deps" m False True w2] by (metis snd_conv)

lemma thrown_safe:
  assumes "handleMessage deps cfg clock m ww = (Inl e, w2)"
    and "not_acked (calls ww) m (calls w2) \<or> forwarded amqp (calls ww) m (calls w2)"
    and "worker_delivery deps cfg clock (Some m) ww = (v, ww')"
  shows "\<exists>new. calls ww' = calls ww @ new \<and>
    (Ack m \<in> set new \<longrightarrow> (\<exists>q p opts rest. q \<in> {retryQueue, dlqQueue} \<and>
       new = send q p opts # rest \<and> amqp (calls ww @ [send q p opts]) = Inr True))"
proof -
  have w': "calls ww' \<in> {calls w2, calls w2 @ [Nack m False True]}"
    using thrown_calls [OF assms(1,3)] .
  show ?thesis
  proof (cases "not_acked (calls ww) m (calls w2)")
    case True
    from not_acked_nack [OF this w'] show ?thesis unfolding not_acked_def by blast
  next
    case False
    with assms(2) obtain q p opts where sent: "q \<in> {retryQueue, dlqQueue}"
      "calls w2 = calls ww @ [send q p opts, Ack m]" "amqp (calls ww @ [send q p opts]) = Inr True"
      unfolding forwarded_def by blast
    with w' have "\<exists>rest. calls ww' = calls ww @ send q p opts # rest" by auto
    with sent show ?thesis by blast
  qed
qed

lemma resolved_safe:
  assumes "handleMessage deps cfg clock m ww = (Inr x, w2)"
    and "forwarded amqp (calls ww) m (calls w2)"
    and "worker_delivery deps cfg clock (Some m) ww = (v, ww')"
  shows "\<exists>new. calls ww' = calls ww @ new \<and>
    (Ack m \<in> set new \<longrightarrow> (\<exists>q p opts rest. q \<in> {retryQueue, dlqQueue} \<and>
       new = send q p opts # rest \<and> amqp (calls ww @ [send q p opts]) = Inr True))"
  using delivery_resolved [OF assms(1)] assms(2,3) unfolding forwarded_def by fastforce

lemma delivery_safe:
  assumes "handleMessage deps cfg clock m ww = (u, w2)"
    and "not_acked (calls ww) m (calls w2) \<and> (\<exists>e. u = Inl e) \<or> forwarded amqp (calls ww) m (calls w2)"
    and "worker_delivery deps cfg clock (Some m) ww = (v, ww')"
  shows "\<exists>new. calls ww' = calls ww @ new \<and>
    (Ack m \<in> set new \<longrightarrow> (\<exists>q p opts rest. q \<in> {retryQueue, dlqQueue} \<and>
       new = send q p opts # rest \<and> amqp (calls ww @ [send q p opts]) = Inr True))"
proof (cases u)
  case (Inl e)
  from thrown_safe [OF assms(1) [unfolded Inl] _ assms(3)] assms(2) show ?thesis by blast
next
  case (Inr x)
  with assms(2) have "forwarded amqp (calls ww) m (calls w2)" by simp
  from resolved_safe [OF assms(1) [unfolded Inr] this assms(3)] show ?thesis .
qed

lemma invalid_safe:
  assumes "parse (d_content m) = None" and "worker_delivery deps cfg clock (Some m) ww = (v, ww')"
  shows "\<exists>new. calls ww' = calls ww @ new \<and>
    (Ack m \<in> set new \<longrightarrow> (\<exists>q p opts rest. q \<in> {retryQueue, dlqQueue} \<and>
       new = send q p opts # rest \<and> dep_amqp deps (calls ww @ [send q p opts]) = Inr True))"
proof -
  obtain u w2 where hm: "handleMessage deps cfg clock m ww = (u, w2)" by fastforce
  with assms(1) have "handle_invalid (dep_amqp deps) m ww = (u, w2)" by (simp add: handleMessage_def)
  from forward_safe [OF this [unfolded handle_invalid_forward]]
  have "not_acked (calls ww) m (calls w2) \<and> (\<exists>e. u = Inl e) \<or> forwarded (dep_amqp deps) (calls ww) m (calls w2)"
    by simp
  from delivery_safe [OF hm this assms(2)] show ?thesis .
qed

lemma null_safe:
  assumes "parse (d_content m) = Some JNull" and "worker_delivery deps cfg clock (Some m) ww = (v, ww')"
  shows "calls ww' \<in> {calls ww, calls ww @ [Nack m False True]}"
  using handle_null [OF assms(1), of deps cfg clock ww] thrown_calls [OF _ assms(2)] by blast

lemma failure_safe:
  assumes payload: "parse (d_content m) = Some payload" "payload \<noteq> JNull"
    and failed: "processing deps clock payload (attempt_of (property payload ''attempt'')) ww = Inl e"
    and run: "worker_delivery deps cfg clock (Some m) ww = (v, ww')"
  shows "\<exists>new. calls ww' = calls ww @ new \<and>
    (Ack m \<in> set new \<longrightarrow> (\<exists>q p opts rest. q \<in> {retryQueue, dlqQueue} \<and>
       new = send q p opts # rest \<and> dep_amqp deps (calls ww @ [send q p opts]) = Inr True))"
proof -
  let ?attempt = "attempt_of (property payload ''attempt'')"
  obtain u w2 where hm: "handleMessage deps cfg clock m ww = (u, w2)" by fastforce
  obtain w where proc: "handle_processing deps clock payload ?attempt m ww = (Inl e, w)"
    and same: "calls w = calls ww"
    using handle_processing_run [of deps clock payload ?attempt ww m] failed by metis
  have "handle_failure (dep_amqp deps) cfg clock payload ?attempt m e w = (u, w2)"
    using proc hm by (simp add: handle_value [OF payload] try_catch_def)
  from delivery_safe [OF hm handle_failure_safe [OF this, unfolded same] run] show ?thesis .
qed

lemma success_extends:
  assumes payload: "parse (d_content m) = Some payload" "payload \<noteq> JNull"
    and ok: "processing deps clock payload (attempt_of (property payload ''attempt'')) ww = Inr x"
    and run: "worker_delivery deps cfg clock (Some m) ww = (v, ww')"
  shows "\<exists>new. calls ww' = calls ww @ new"
proof -
  let ?attempt = "attempt_of (property payload ''attempt'')"
  obtain u w2 where hm: "handleMessage deps cfg clock m ww = (u, w2)" by fastforce
  obtain w l where proc: "handle_processing deps clock payload ?attempt m ww =
      (map_sum id (\<lambda>_. ()) (dep_amqp deps (calls ww @ [Ack m])), after (Ack m) (logged l w))"
    and same: "calls w = calls ww"
    using handle_processing_run [of deps clock payload ?attempt ww m] ok by metis
  have "\<exists>new. calls w2 = calls ww @ new"
  proof (cases "dep_amqp deps (calls ww @ [Ack m])")
    case (Inl e)
    with proc hm have
      "handle_failure (dep_amqp deps) cfg clock payload ?attempt m e (after (Ack m) (logged l w)) = (u, w2)"
      by (simp add: handle_value [OF payload] try_catch_def)
    from handle_failure_safe [OF this] same show ?thesis by (auto simp: not_acked_def forwarded_def)
  next
    case (Inr b)
    with proc hm same show ?thesis by (auto simp: handle_value [OF payload] try_catch_def)
  qed
  moreover have "\<exists>new. calls ww' = calls w2 @ new"
  proof (cases u)
    case (Inl e)
    from thrown_calls [OF hm [unfolded Inl] run] show ?thesis by auto
  next
    case (Inr y)
    with delivery_resolved [OF hm [unfolded Inr]] run show ?thesis by auto
  qed
  ultimately show ?thesis by auto
qed

text \<open>
  C1. Whatever the broker and the database answer, a delivery that is acknowledged has been
  processed (or was already), or the broker had accepted the message for the retry or the
  dead letter queue before.
\<close>

theorem worker_no_loss:
  assumes run: "worker_delivery deps cfg clock (Some m) ww = (v, ww')"
  shows "\<exists>new. calls ww' = calls ww @ new \<and>
    (Ack m \<in> set new \<longrightarrow>
      (\<exists>payload x. parse (d_content m) = Some payload \<and>
        processing deps clock payload (attempt_of (property payload ''attempt'')) ww = Inr x) \<or>
      (\<exists>q p opts rest. q \<in> {retryQueue, dlqQueue} \<and> new = send q p opts # rest \<and>
        dep_amqp deps (calls ww @ [send q p opts]) = Inr True))"
proof (cases "parse (d_content m)")
  case None
  from invalid_safe [OF this run] show ?thesis by blast
next
  case (Some payload)
  show ?thesis
  proof (cases "payload = JNull")
    case True
    from null_safe [OF Some [unfolded True] run] show ?thesis by auto
  next
    case False
    show ?thesis
    proof (cases "processing deps clock payload (attempt_of (property payload ''attempt'')) ww")
      case (Inl e)
      from failure_safe [OF Some False Inl run] show ?thesis by blast
    next
      case (Inr x)
      from success_extends [OF Some False Inr run] Some Inr show ?thesis by blast
    qed
  qed
qed

section \<open>A broker that takes everything\<close>

definition accepting :: "amqp \<Rightarrow> bool" where
  "accepting amqp \<longleftrightarrow> (\<forall>cs. amqp cs = Inr True)"

definition iso_text :: "int \<Rightarrow> string" where
  "iso_text t = (case toISOString t of Inl e \<Rightarrow> [] | Inr s \<Rightarrow> s)"

text \<open>Both dates a delivery may write are in the range of dates.\<close>

definition dates_ok :: "worker_config \<Rightarrow> delivery_clock \<Rightarrow> bool" where
  "dates_ok cfg clock \<longleftrightarrow> 0 \<le> dc_now clock \<and> dc_now clock + wc_retryMaxDelayMs cfg \<le> 8640000000000000"

lemma iso_text_ok: "\<bar>t\<bar> \<le> 8640000000000000 \<Longrightarrow> toISOString t = Inr (iso_text t)"
  using toISOString_ok [of t] by (auto simp: iso_text_def)

lemma delay_bounds:
  "0 < computeRetryDelayMs (worker_config_of config) n"
  "computeRetryDelayMs (worker_config_of config) n \<le> wc_retryMaxDelayMs (worker_config_of config)"
  by (simp_all add: computeRetryDelayMs_def)

lemma dates_okD:
  assumes "dates_ok (worker_config_of config) clock"
  shows "toISOString (dc_now clock) = Inr (iso_text (dc_now clock))"
    and "toISOString (dc_now clock + computeRetryDelayMs (worker_config_of config) n) =
      Inr (iso_text (dc_now clock + computeRetryDelayMs (worker_config_of config) n))"
  using assms delay_bounds [of config n] worker_config_pos(3) [of config]
  by (auto simp: dates_ok_def intro!: iso_text_ok)

lemma forward_accepting:
  "accepting amqp \<Longrightarrow> wready ww \<Longrightarrow> forward amqp q payload options l m ww =
     (Inr (), after (Ack m) (logged l (after (send q payload options) ww)))"
  by (simp add: forward_accepted accepting_def)

text \<open>What a delivery ends as, branch by branch: the world after it, up to the logs.\<close>

definition invalid_send :: "delivery \<Rightarrow> amqp_call" where
  "invalid_send m = send dlqQueue
     (JObj [(''reason'', JStr ''invalid_json''), (''raw'', JStr (raw_base64 (d_content m)))]) no_options"

definition retry_send :: "worker_config \<Rightarrow> delivery_clock \<Rightarrow> json \<Rightarrow> int \<Rightarrow> exn \<Rightarrow> amqp_call" where
  "retry_send cfg clock payload attempt e =
     (let delay = computeRetryDelayMs cfg (attempt + 1) in
      send retryQueue (retry_payload payload attempt (iso_text (dc_now clock + delay)) e)
        (options_of payload (Some (string_of_int delay))))"

definition final_send :: "delivery_clock \<Rightarrow> json \<Rightarrow> int \<Rightarrow> exn \<Rightarrow> amqp_call" where
  "final_send clock payload attempt e =
     send dlqQueue (final_payload payload attempt (iso_text (dc_now clock)) e) (options_of payload None)"

definition after_process ::
  "('d, 'ds, 'th) deps \<Rightarrow> delivery_clock \<Rightarrow> json \<Rightarrow> int \<Rightarrow> ('d, 'ds, 'th) worker_world \<Rightarrow> 'd" where
  "after_process deps clock payload attempt ww =
     w_db (snd (processOrderMessage deps (dc_process clock) (process_input payload attempt) (ww_world ww)))"

lemma settle_invalid:
  assumes "accepting (dep_amqp deps)" and "wready ww" and "parse (d_content m) = None"
  shows "\<exists>ww'. worker_delivery deps cfg clock (Some m) ww = (Inr (), ww') \<and> wready ww' \<and>
    calls ww' = calls ww @ [invalid_send m, Ack m]"
proof -
  have "\<exists>ww'. handleMessage deps cfg clock m ww = (Inr (), ww') \<and> wready ww' \<and>
      calls ww' = calls ww @ [invalid_send m, Ack m]"
    using assms by (simp add: handleMessage_def handle_invalid_forward forward_accepting invalid_send_def)
  then show ?thesis using delivery_resolved by blast
qed

lemma settle_null:
  assumes "wready ww" and "parse (d_content m) = Some JNull"
  shows "worker_delivery deps cfg clock (Some m) ww =
    (map_sum id (\<lambda>_. ()) (dep_amqp deps (calls ww @ [Nack m False True])), after (Nack m False True) ww)"
  using handle_null [OF assms(2), of deps cfg clock ww] delivery_thrown in_rabbit_nack [OF assms(1)] by metis

lemma settle_processed:
  assumes "accepting (dep_amqp deps)" and "wready ww"
    and "parse (d_content m) = Some payload" and "payload \<noteq> JNull"
    and a: "a = attempt_of (property payload ''attempt'')"
    and "processing deps clock payload a ww = Inr x"
  shows "\<exists>ww'. worker_delivery deps cfg clock (Some m) ww = (Inr (), ww') \<and> wready ww' \<and>
    calls ww' = calls ww @ [Ack m] \<and> w_db (ww_world ww') = after_process deps clock payload a ww"
proof -
  obtain w l where "handle_processing deps clock payload a m ww =
      (map_sum id (\<lambda>_. ()) (dep_amqp deps (calls ww @ [Ack m])), after (Ack m) (logged l w))"
    "calls w = calls ww" "wready w = wready ww"
    "w_db (ww_world w) = after_process deps clock payload a ww"
    unfolding after_process_def
    using handle_processing_run [of deps clock payload a ww m] assms(6) by metis
  then have "\<exists>ww'. handleMessage deps cfg clock m ww = (Inr (), ww') \<and> wready ww' \<and>
    calls ww' = calls ww @ [Ack m] \<and> w_db (ww_world ww') = after_process deps clock payload a ww"
    using assms(1,2) by (simp add: handle_value [OF assms(3,4)] try_catch_def accepting_def flip: a)
  then show ?thesis using delivery_resolved by blast
qed

lemma settle_failed:
  assumes "accepting (dep_amqp deps)" and "wready ww" and "dates_ok cfg clock"
    and cfg: "cfg = worker_config_of config"
    and "parse (d_content m) = Some payload" and "payload \<noteq> JNull"
    and a: "a = attempt_of (property payload ''attempt'')"
    and "processing deps clock payload a ww = Inl e"
  shows "\<exists>ww'. worker_delivery deps cfg clock (Some m) ww = (Inr (), ww') \<and> wready ww' \<and>
    calls ww' = calls ww @ [if a < wc_maxAttempts cfg - 1 then retry_send cfg clock payload a e
      else final_send clock payload a e, Ack m] \<and>
    w_db (ww_world ww') = after_process deps clock payload a ww"
proof -
  obtain w where proc: "handle_processing deps clock payload a m ww = (Inl e, w)"
    "calls w = calls ww" "wready w" "w_db (ww_world w) = after_process deps clock payload a ww"
    unfolding after_process_def
    using handle_processing_run [of deps clock payload a ww m] assms(2,8) by metis
  note dates = dates_okD [OF assms(3) [unfolded cfg], folded cfg]
  have "\<exists>ww'. handle_failure (dep_amqp deps) cfg clock payload a m e w = (Inr (), ww') \<and> wready ww' \<and>
    calls ww' = calls ww @ [if a < wc_maxAttempts cfg - 1 then retry_send cfg clock payload a e
      else final_send clock payload a e, Ack m] \<and>
    w_db (ww_world ww') = after_process deps clock payload a ww"
  proof (cases "a < wc_maxAttempts cfg - 1")
    case True
    from handle_failure_retry [OF this, of "dep_amqp deps" clock payload m e] dates(2) [of "a + 1"]
    obtain l where "handle_failure (dep_amqp deps) cfg clock payload a m e w =
        forward (dep_amqp deps) retryQueue
          (retry_payload payload a (iso_text (dc_now clock + computeRetryDelayMs cfg (a + 1))) e)
          (options_of payload (Some (string_of_int (computeRetryDelayMs cfg (a + 1))))) l m w" by auto
    with True proc assms(1) show ?thesis by (simp add: forward_accepting retry_send_def Let_def)
  next
    case False
    then have "wc_maxAttempts cfg - 1 \<le> a" by simp
    from handle_failure_last [OF this, of "dep_amqp deps" clock payload m e] dates(1)
    obtain l where "handle_failure (dep_amqp deps) cfg clock payload a m e w =
        forward (dep_amqp deps) dlqQueue (final_payload payload a (iso_text (dc_now clock)) e)
          (options_of payload None) l m w" by auto
    with False proc assms(1) show ?thesis by (simp add: forward_accepting final_send_def)
  qed
  with proc(1) have "\<exists>ww'. handleMessage deps cfg clock m ww = (Inr (), ww') \<and> wready ww' \<and>
    calls ww' = calls ww @ [if a < wc_maxAttempts cfg - 1 then retry_send cfg clock payload a e
      else final_send clock payload a e, Ack m] \<and>
    w_db (ww_world ww') = after_process deps clock payload a ww"
    by (simp add: handle_value [OF assms(5,6)] try_catch_def flip: a)
  then show ?thesis using delivery_resolved by blast
qed

section \<open>Retries\<close>

lemma attempt_of_nonneg: "0 \<le> attempt_of v"
proof -
  have "isInteger x \<Longrightarrow> js_nonneg x \<Longrightarrow> 0 \<le> js_floor x" for x
    by (cases x) auto
  then show ?thesis by (auto simp: attempt_of_def split: option.split json.split)
qed

text \<open>The retry keeps the message: an object with the same identifiers, the attempt counted up.\<close>

definition same_message :: "json \<Rightarrow> json \<Rightarrow> bool" where
  "same_message p q \<longleftrightarrow> (\<exists>ps. p = JObj ps) \<and> (\<exists>qs. q = JObj qs) \<and>
     (\<forall>k. k \<in> {''messageId'', ''orderId'', ''correlationId''} \<longrightarrow>
        map_option json_written (property p k) = map_option json_written (property q k))"

lemma same_message_refl: "same_message (JObj ps) (JObj ps)"
  by (simp add: same_message_def)

lemma same_message_trans: "same_message p q \<Longrightarrow> same_message q r \<Longrightarrow> same_message p r"
  by (simp add: same_message_def)

lemma same_message_not_null: "same_message p q \<Longrightarrow> q \<noteq> JNull"
  by (auto simp: same_message_def)

lemma retry_same_message:
  "same_message (JObj ps) (json_written (retry_payload (JObj ps) a t e))"
proof -
  have "\<exists>qs. json_written (retry_payload (JObj ps) a t e) = JObj qs" by (simp add: retry_payload_def)
  moreover have "map_option json_written (property (json_written (retry_payload (JObj ps) a t e)) k) =
      map_option json_written (property (JObj ps) k)"
    if "k \<in> {''messageId'', ''orderId'', ''correlationId''}" for k
    using that unfolding property_written
    by (cases "map_of ps k") (auto simp: retry_payload_def spread_def)
  ultimately show ?thesis by (simp add: same_message_def)
qed

lemma retry_attempt:
  assumes "0 \<le> a"
  shows "attempt_of (property (json_written (retry_payload (JObj ps) a t e)) ''attempt'') = a + 1"
proof -
  have "property (json_written (retry_payload (JObj ps) a t e)) ''attempt'' =
      Some (JNum (Fin (of_int (a + 1))))"
    unfolding property_written by (simp add: retry_payload_def spread_def)
  then show ?thesis
    using assms by (simp only: attempt_of_def option.case json.case) simp
qed

text \<open>
  The broker's side of a retry: a message on the retry queue comes back, as a new delivery of
  the main queue. One clock per delivery; \<open>None\<close> when they run out before the message is
  settled.
\<close>

definition next_delivery :: "amqp_call list \<Rightarrow> delivery \<Rightarrow> delivery option" where
  "next_delivery cs m =
     (case [c. SendToQueue q c opts \<leftarrow> cs, q = retryQueue] of
        [] \<Rightarrow> None
      | c # _ \<Rightarrow> Some \<lparr>d_tag = Suc (d_tag m), d_content = c\<rparr>)"

fun redeliver ::
  "('d, 'ds, 'th) deps \<Rightarrow> worker_config \<Rightarrow> delivery_clock list \<Rightarrow> delivery \<Rightarrow>
   ('d, 'ds, 'th) worker_world \<Rightarrow> (delivery \<times> ('d, 'ds, 'th) worker_world) option" where
  "redeliver deps cfg [] m ww = None"
| "redeliver deps cfg (clock # clocks) m ww =
     (let ww' = snd (worker_delivery deps cfg clock (Some m) ww) in
      case next_delivery (drop (length (calls ww)) (calls ww')) m of
        None \<Rightarrow> Some (m, ww')
      | Some m' \<Rightarrow> redeliver deps cfg clocks m' ww')"

lemma next_delivery_simps [simp]:
  "next_delivery [Ack m] m' = None"
  "next_delivery [final_send clock p a e, Ack m] m' = None"
  "next_delivery [retry_send cfg clock p a e, Ack m] m' =
     Some \<lparr>d_tag = Suc (d_tag m'), d_content = stringify (retry_payload p a
       (iso_text (dc_now clock + computeRetryDelayMs cfg (a + 1))) e)\<rparr>"
  by (simp_all add: next_delivery_def final_send_def retry_send_def send_def Let_def
      retryQueue_def dlqQueue_def)

text \<open>How a message ends: processed, or on the dead letter queue after its last attempt.\<close>

definition settled ::
  "('d, 'ds, 'th) deps \<Rightarrow> worker_config \<Rightarrow> json \<Rightarrow> delivery \<Rightarrow> ('d, 'ds, 'th) worker_world \<Rightarrow> bool" where
  "settled deps cfg payload m ww \<longleftrightarrow>
     (\<exists>before clock payload' a ww0. same_message payload payload' \<and>
        ((\<exists>x. processing deps clock payload' a ww0 = Inr x) \<and> calls ww = before @ [Ack m] \<or>
         (\<exists>e. processing deps clock payload' a ww0 = Inl e \<and> wc_maxAttempts cfg - 1 \<le> a \<and>
            calls ww = before @ [final_send clock payload' a e, Ack m])))"

lemma settled_trans: "same_message p q \<Longrightarrow> settled deps cfg q m ww \<Longrightarrow> settled deps cfg p m ww"
  unfolding settled_def by (meson same_message_trans)

lemma redeliver_settles:
  assumes "accepting (dep_amqp deps)" and "wready ww" and cfg: "cfg = worker_config_of config"
    and "\<forall>c\<in>set clocks. dates_ok cfg c"
    and "parse (d_content m) = Some (JObj ps)" and "a = attempt_of (property (JObj ps) ''attempt'')"
    and "1 \<le> length clocks" and "wc_maxAttempts cfg - a \<le> int (length clocks)"
  shows "\<exists>m' ww'. redeliver deps cfg clocks m ww = Some (m', ww') \<and> settled deps cfg (JObj ps) m' ww' \<and>
    int (d_tag m') \<le> int (d_tag m) + max 0 (wc_maxAttempts cfg - 1 - a)"
  using assms(2,4-8)
proof (induction clocks arbitrary: m ww ps a)
  case Nil
  then show ?case by simp
next
  case (Cons clock clocks)
  let ?p = "JObj ps"
  have payload: "parse (d_content m) = Some ?p" "?p \<noteq> JNull" using Cons.prems(3) by simp_all
  have date: "dates_ok cfg clock" using Cons.prems(2) by simp
  have one: "same_message ?p ?p" by (rule same_message_refl)
  show ?case
  proof (cases "processing deps clock ?p a ww")
    case (Inr x)
    from settle_processed [OF assms(1) Cons.prems(1) payload Cons.prems(4) Inr, of cfg] obtain ww' where
      ww': "worker_delivery deps cfg clock (Some m) ww = (Inr (), ww')"
      "calls ww' = calls ww @ [Ack m]" by blast
    with one Inr have "settled deps cfg ?p m ww'" unfolding settled_def by blast
    with ww' show ?thesis by simp
  next
    case (Inl e)
    from settle_failed [OF assms(1) Cons.prems(1) date cfg payload Cons.prems(4) Inl] obtain ww' where
      ww': "worker_delivery deps cfg clock (Some m) ww = (Inr (), ww')" "wready ww'"
      "calls ww' = calls ww @ [if a < wc_maxAttempts cfg - 1 then retry_send cfg clock ?p a e
        else final_send clock ?p a e, Ack m]" by blast
    show ?thesis
    proof (cases "a < wc_maxAttempts cfg - 1")
      case False
      then have "calls ww' = calls ww @ [final_send clock ?p a e, Ack m]" "wc_maxAttempts cfg - 1 \<le> a"
        using ww'(3) by simp_all
      with one Inl have "settled deps cfg ?p m ww'" unfolding settled_def by blast
      with ww' False show ?thesis by simp
    next
      case True
      define q where "q = retry_payload ?p a (iso_text (dc_now clock + computeRetryDelayMs cfg (a + 1))) e"
      obtain qs where qs: "json_written q = JObj qs"
        using retry_same_message unfolding q_def same_message_def by blast
      let ?m = "\<lparr>d_tag = Suc (d_tag m), d_content = stringify q\<rparr>"
      have a: "a + 1 = attempt_of (property (JObj qs) ''attempt'')"
        unfolding qs [symmetric] q_def using retry_attempt [OF attempt_of_nonneg] Cons.prems(4) by simp
      have "parse (d_content ?m) = Some (JObj qs)" using qs by simp
      moreover have "1 \<le> length clocks" "wc_maxAttempts cfg - (a + 1) \<le> int (length clocks)"
        using True Cons.prems(6) by simp_all
      ultimately obtain m' ww2 where r: "redeliver deps cfg clocks ?m ww' = Some (m', ww2)"
        "settled deps cfg (JObj qs) m' ww2"
        "int (d_tag m') \<le> int (d_tag ?m) + max 0 (wc_maxAttempts cfg - 1 - (a + 1))"
        using Cons.IH [OF ww'(2) _ _ a, of ?m] Cons.prems(2) by (metis list.set_intros(2))
      moreover have "redeliver deps cfg (clock # clocks) m ww = redeliver deps cfg clocks ?m ww'"
        using ww' True by (simp add: q_def)
      moreover have "settled deps cfg ?p m' ww2"
        using settled_trans [OF _ r(2)] retry_same_message [of ps a] qs unfolding q_def by metis
      moreover have "int (d_tag m') \<le> int (d_tag m) + max 0 (wc_maxAttempts cfg - 1 - a)"
        using r(3) True by simp
      ultimately show ?thesis by simp
    qed
  qed
qed

section \<open>Properties\<close>

definition demo_worker ::
  "order_row list \<Rightarrow> (ref_db, status_event option, bool \<times> status_event option) worker_world" where
  "demo_worker orders = \<lparr>ww_world = demo_world orders, ww_log = []\<rparr>"

definition demo_delivery :: "content \<Rightarrow> delivery" where
  "demo_delivery c = \<lparr>d_tag = 1, d_content = c\<rparr>"

definition demo_dclock :: delivery_clock where
  "demo_dclock = \<lparr>dc_process = demo_clock, dc_now = 1000\<rparr>"

definition demo_config :: worker_config where
  "demo_config = worker_config_of (\<lambda>k. None)"

lemma demo_config_simps [simp]:
  "wc_maxAttempts demo_config = 3" "wc_retryMaxDelayMs demo_config = 30000"
  by (simp_all add: demo_config_def worker_config_of_def parsePositiveInt_def js_Number_opt_def)

lemma demo_worker_simps [simp]:
  "wready (demo_worker orders)" "calls (demo_worker orders) = []"
  "ww_world (demo_worker orders) = demo_world orders"
  "d_content (demo_delivery c) = c" "d_tag (demo_delivery c) = 1"
  by (simp_all add: demo_worker_def wready_def calls_def demo_world_def ready_def demo_delivery_def)

lemma demo_accepting: "accepting (dep_amqp demo_deps)"
  by (simp add: accepting_def)

lemma demo_dates: "dates_ok demo_config demo_dclock"
  by (simp add: dates_ok_def demo_dclock_def)

text \<open>
  C18. With a broker that takes everything, a delivery makes exactly these calls: a body that
  is no JSON text goes to the dead letter queue and is acknowledged; \<open>null\<close> is returned to
  the main queue; a processed message is acknowledged; a failed one goes to the retry queue,
  with the attempt counted up and the delay as its expiration, or on the last attempt to the
  dead letter queue, and is acknowledged.
\<close>

theorem worker_settles:
  assumes "accepting (dep_amqp deps)" and "wready ww"
    and "cfg = worker_config_of config" and "dates_ok cfg clock"
  shows "calls (snd (worker_delivery deps cfg clock (Some m) ww)) = calls ww @
    (case parse (d_content m) of
       None \<Rightarrow> [invalid_send m, Ack m]
     | Some payload \<Rightarrow>
         if payload = JNull then [Nack m False True]
         else
           (let a = attempt_of (property payload ''attempt'') in
            case processing deps clock payload a ww of
              Inr x \<Rightarrow> [Ack m]
            | Inl e \<Rightarrow>
                if a < wc_maxAttempts cfg - 1 then [retry_send cfg clock payload a e, Ack m]
                else [final_send clock payload a e, Ack m]))"
proof (cases "parse (d_content m)")
  case None
  with settle_invalid [OF assms(1,2) None, of cfg clock] show ?thesis by auto
next
  case (Some payload)
  show ?thesis
  proof (cases "payload = JNull")
    case True
    with Some show ?thesis by (simp add: settle_null [OF assms(2)])
  next
    case False
    show ?thesis
    proof (cases "processing deps clock payload (attempt_of (property payload ''attempt'')) ww")
      case (Inl e)
      from settle_failed [OF assms(1,2,4,3) Some False refl Inl] Some False Inl show ?thesis
        by (auto simp: Let_def)
    next
      case (Inr x)
      from settle_processed [OF assms(1,2) Some False refl Inr, of cfg] Some False Inr show ?thesis
        by (auto simp: Let_def)
    qed
  qed
qed

theorem worker_settles_witness:
  "calls (snd (worker_delivery demo_deps demo_config demo_dclock
     (Some (demo_delivery (OtherBytes ''hello''))) (demo_worker []))) =
   [SendToQueue ''orders.dlq''
      (JsonText (JObj [(''reason'', JStr ''invalid_json''), (''raw'', JStr ''aGVsbG8='')]))
      (sent no_options),
    Ack (demo_delivery (OtherBytes ''hello''))]"
  unfolding worker_settles [OF demo_accepting demo_worker_simps(1) demo_config_def demo_dates]
  by (simp add: parse_def invalid_send_def send_def dlqQueue_def raw_base64_def base64_digit_def
      stringify_def Let_def char_of_def bit_0)

text \<open>
  A message whose body parses to \<open>null\<close> is never sent to the dead letter queue:
  however often it is delivered, each delivery returns it to the main queue and nothing else.
\<close>

theorem worker_null_requeued:
  assumes "\<And>cs. dep_amqp deps cs = Inr True" and "wready ww" and "d_content m = JsonText JNull"
  shows "let ww' = ((\<lambda>w. snd (worker_delivery deps cfg clock (Some m) w)) ^^ n) ww in
    calls ww' = calls ww @ replicate n (Nack m False True) \<and> ww_log ww' = ww_log ww"
proof -
  have body: "parse (d_content m) = Some JNull" using assms(3) by (simp add: parse_def)
  have "calls (((\<lambda>w. snd (worker_delivery deps cfg clock (Some m) w)) ^^ n) ww) =
      calls ww @ replicate n (Nack m False True) \<and>
    ww_log (((\<lambda>w. snd (worker_delivery deps cfg clock (Some m) w)) ^^ n) ww) = ww_log ww \<and>
    wready (((\<lambda>w. snd (worker_delivery deps cfg clock (Some m) w)) ^^ n) ww)"
    by (induction n) (simp_all add: assms(2) settle_null [OF _ body] replicate_append_same)
  then show ?thesis by (simp add: Let_def)
qed

theorem worker_null_requeued_witness:
  "calls (((\<lambda>w. snd (worker_delivery demo_deps demo_config demo_dclock
     (Some (demo_delivery (JsonText JNull))) w)) ^^ 3) (demo_worker [])) =
   replicate 3 (Nack (demo_delivery (JsonText JNull)) False True)"
  using worker_null_requeued [of demo_deps "demo_worker []" "demo_delivery (JsonText JNull)",
      where cfg = demo_config and clock = demo_dclock and n = 3] by (simp add: Let_def)

text \<open>
  C19. A message is delivered at most \<open>maxAttempts\<close> times, however often it fails: as many
  deliveries as attempts are left settle it, processed or sent to the dead letter queue after
  its last attempt, with the identifiers it came with.
\<close>

theorem retries_bounded:
  assumes "accepting (dep_amqp deps)" and "wready ww" and "cfg = worker_config_of config"
    and "\<forall>c\<in>set clocks. dates_ok cfg c"
    and "parse (d_content m) = Some (JObj ps)"
    and "a = attempt_of (property (JObj ps) ''attempt'')"
    and "max 1 (wc_maxAttempts cfg - a) \<le> int (length clocks)"
  shows "\<exists>m' ww'. redeliver deps cfg clocks m ww = Some (m', ww') \<and> settled deps cfg (JObj ps) m' ww' \<and>
    int (d_tag m') \<le> int (d_tag m) + max 0 (wc_maxAttempts cfg - 1 - a)"
proof -
  have "1 \<le> length clocks" "wc_maxAttempts cfg - a \<le> int (length clocks)" using assms(7) by auto
  from redeliver_settles [OF assms(1-6) this] show ?thesis .
qed

theorem retries_bounded_witness:
  "\<exists>m' ww'. redeliver demo_deps demo_config [demo_dclock, demo_dclock, demo_dclock]
      (demo_delivery (stringify (demo_message ''m1'' ''o9''))) (demo_worker []) = Some (m', ww') \<and>
    settled demo_deps demo_config (demo_message ''m1'' ''o9'') m' ww' \<and> d_tag m' \<le> 3"
proof -
  obtain ps where ps: "demo_message ''m1'' ''o9'' = JObj ps"
    "parse (stringify (demo_message ''m1'' ''o9'')) = Some (JObj ps)"
    "attempt_of (property (JObj ps) ''attempt'') = 0"
    by (simp add: demo_message_def attempt_of_def)
  from retries_bounded [OF demo_accepting demo_worker_simps(1) demo_config_def, of
      "[demo_dclock, demo_dclock, demo_dclock]" "demo_delivery (stringify (demo_message ''m1'' ''o9''))" ps 0]
    ps demo_dates show ?thesis by auto
qed

text \<open>The acknowledged delivery of the demonstration was processed.\<close>

theorem worker_no_loss_witness:
  "let m = demo_delivery (stringify (demo_message ''m1'' ''o1'')) in
   \<exists>new. calls (snd (worker_delivery demo_deps demo_config demo_dclock (Some m) (demo_worker [demo_order None]))) = new \<and>
    (Ack m \<in> set new \<longrightarrow>
      (\<exists>payload x. parse (d_content m) = Some payload \<and>
        processing demo_deps demo_dclock payload (attempt_of (property payload ''attempt''))
          (demo_worker [demo_order None]) = Inr x) \<or>
      (\<exists>q p opts rest. q \<in> {retryQueue, dlqQueue} \<and> new = send q p opts # rest))"
  using worker_no_loss [OF surjective_pairing, of demo_deps demo_config demo_dclock
      "demo_delivery (stringify (demo_message ''m1'' ''o1''))" "demo_worker [demo_order None]"]
  by (auto simp: Let_def)

end
