(* ===== verification/OrderQueries.thy ===== *)
theory OrderQueries
  imports ProcessOrder
begin

text \<open>
  The other operations of the orders service: pages of orders, update with its status event,
  deletion and access; and the constraints every sequence of operations keeps.
\<close>

section \<open>Pages\<close>

text \<open>How many of \<open>n\<close> rows a page of the given limit holds.\<close>

definition page_size :: "int js_input \<Rightarrow> nat \<Rightarrow> nat" where
  "page_size v n = (case v of Value k \<Rightarrow> min (nat k) n | _ \<Rightarrow> n)"

lemma page_of_length:
  "length (page_of q xs) = page_size (q_take q) (length xs - nat (input_or (q_skip q) 0))"
  by (simp add: page_of_def page_size_def min.commute split: js_input.split)

lemma order_page_total:
  assumes "order_page q T nodes"
  shows "length nodes = page_size (q_take q) (card (matching q T) - nat (input_or (q_skip q) 0))"
proof -
  from assms obtain xs where xs: "nodes = page_of q xs" "distinct (map o_id xs)"
    "order_row.truncate ` set xs = matching q T" unfolding order_page_def by blast
  have "inj_on order_row.truncate (set xs)"
    using xs(2) by (auto simp: inj_on_def distinct_map) (metis truncate_simps(1))
  then have "card (matching q T) = length xs"
    using xs(2,3) by (metis card_image distinct_card distinct_map)
  then show ?thesis by (simp add: xs(1) page_of_length)
qed

lemma matching_page_free [simp]:
  "matching (orders_query f a b) T = matching (orders_query f c e) T"
  by (simp add: matching_def query_matches_def orders_query_def)

text \<open>What a valid request asks for: the offset and, where one is given, the limit.\<close>

definition page_offset :: "orders_pagination option \<Rightarrow> int" where
  "page_offset p = (case p of None \<Rightarrow> 0 | Some x \<Rightarrow> input_or (pg_offset x) 0)"

definition page_limit :: "orders_pagination option \<Rightarrow> int option" where
  "page_limit p = (case p of None \<Rightarrow> None
     | Some x \<Rightarrow> (case pg_limit x of Value n \<Rightarrow> Some n | _ \<Rightarrow> None))"

definition limit_or :: "orders_pagination option \<Rightarrow> int \<Rightarrow> int" where
  "limit_or p n = (case page_limit p of None \<Rightarrow> n | Some k \<Rightarrow> k)"

lemma valid_page:
  assumes "validatePagination p = None"
  shows "0 \<le> page_offset p" and "\<And>n. page_limit p = Some n \<Longrightarrow> 0 < n"
    and "p = Some x \<Longrightarrow> pg_limit x \<noteq> Null"
  using assms
  by (auto simp: validatePagination_def page_offset_def page_limit_def input_or_def
      split: option.splits js_input.splits if_splits)

lemma connection_run:
  assumes rel: "relational_store db tabs tx" and idle: "tx d = Idle"
    and run: "getAllConnection db f p d = (Inr c, t)"
  shows "validateFilters f = None \<and> validatePagination p = None \<and> tabs t = tabs d \<and> tx t = Idle \<and>
    cn_totalCount c = card (matching (orders_query f Undefined Undefined) (tabs d)) \<and>
    order_page (orders_query f (case p of None \<Rightarrow> Undefined | Some x \<Rightarrow> pg_limit x)
      (case p of None \<Rightarrow> Undefined | Some x \<Rightarrow> pg_offset x)) (tabs d) (cn_nodes c) \<and>
    cn_hasNextPage c =
      (page_offset p + limit_or p (int (cn_totalCount c)) < int (cn_totalCount c)) \<and>
    cn_hasPreviousPage c = (0 < page_offset p)"
proof -
  let ?lim = "case p of None \<Rightarrow> Undefined | Some x \<Rightarrow> pg_limit x"
  let ?off = "case p of None \<Rightarrow> Undefined | Some x \<Rightarrow> pg_offset x"
  have valid: "validateFilters f = None" "validatePagination p = None"
    using run by (auto simp: getAllConnection_def Let_def check_def async_simps await_def split: option.splits)
  from run obtain n s1 nodes where
    count: "repo_getCount db (orders_query f Undefined Undefined) d = (Inr n, s1)" and
    many: "repo_getMany db (orders_query f ?lim ?off) s1 = (Inr nodes, t)" and
    c: "c = \<lparr>cn_nodes = nodes, cn_totalCount = n,
      cn_hasNextPage = input_or ?off 0 + input_or ?lim (int n) < int n,
      cn_hasPreviousPage = input_or ?off 0 > 0\<rparr>"
    by (auto simp: getAllConnection_def Let_def valid check_def async_simps try_catch_def throw_def
        await_Inr_iff split: prod.splits sum.splits)
  from op_spec_Inr [OF relational_store.getCount [OF rel] _ count] idle have
    s1: "tabs s1 = tabs d" "tx s1 = Idle" "n = card (matching (orders_query f Undefined Undefined) (tabs d))"
    by simp_all
  from op_spec_Inr [OF relational_store.getMany [OF rel] _ many] s1 have
    t: "tabs t = tabs d" "tx t = Idle" "order_page (orders_query f ?lim ?off) (tabs d) nodes"
    by simp_all
  have "input_or ?off 0 = page_offset p"
    by (simp add: page_offset_def input_or_def split: option.split)
  moreover have "input_or ?lim (int n) = limit_or p (int n)"
    by (simp add: limit_or_def page_limit_def input_or_def split: option.split js_input.split)
  ultimately show ?thesis using valid s1 t by (simp add: c)
qed

text \<open>
  A page of orders: the total is the number of orders the filter matches, the page holds
  as many of them as the limit allows from the offset on, and \<open>hasNextPage\<close> and
  \<open>hasPreviousPage\<close> say exactly whether matching orders follow or precede the page. Reading
  changes nothing.
\<close>

theorem page_info_exact:
  assumes "relational_store db tabs tx" and "tx d = Idle"
    and "getAllConnection db f p d = (Inr c, t)"
  shows "tabs t = tabs d \<and>
    cn_totalCount c = card (matching (orders_query f Undefined Undefined) (tabs d)) \<and>
    int (length (cn_nodes c)) =
      (let rest = max 0 (int (cn_totalCount c) - page_offset p)
       in case page_limit p of None \<Rightarrow> rest | Some n \<Rightarrow> min n rest) \<and>
    (cn_hasNextPage c \<longleftrightarrow> page_offset p + int (length (cn_nodes c)) < int (cn_totalCount c)) \<and>
    (cn_hasPreviousPage c \<longleftrightarrow> 0 < page_offset p)"
proof -
  note run = connection_run [OF assms]
  let ?lim = "case p of None \<Rightarrow> Undefined | Some x \<Rightarrow> pg_limit x"
  let ?off = "case p of None \<Rightarrow> Undefined | Some x \<Rightarrow> pg_offset x"
  have valid: "0 \<le> page_offset p" "\<And>n. page_limit p = Some n \<Longrightarrow> 0 < n"
    using valid_page run by blast+
  have off: "input_or ?off 0 = page_offset p"
    by (simp add: page_offset_def input_or_def split: option.split)
  have lim: "page_size ?lim n = (case page_limit p of None \<Rightarrow> n | Some k \<Rightarrow> min (nat k) n)" for n
    by (simp add: page_limit_def page_size_def split: option.split js_input.split)
  have "matching (orders_query f ?lim ?off) (tabs d) =
      matching (orders_query f Undefined Undefined) (tabs d)" by (rule matching_page_free)
  with order_page_total [of "orders_query f ?lim ?off" "tabs d" "cn_nodes c"] run off
  have len: "length (cn_nodes c) = page_size ?lim (cn_totalCount c - nat (page_offset p))"
    by (simp add: orders_query_def)
  show ?thesis
  proof (cases "page_limit p")
    case None
    with len lim run valid show ?thesis by (auto simp: Let_def limit_or_def)
  next
    case (Some n)
    with len lim run valid(1) valid(2) [OF Some] show ?thesis by (auto simp: Let_def limit_or_def)
  qed
qed

theorem page_info_exact_witness:
  "\<exists>c t. getAllConnection ref_store None (Some \<lparr>pg_limit = Value 1, pg_offset = Null\<rparr>)
     (demo_db [demo_order None]) = (Inr c, t) \<and>
     int (length (cn_nodes c)) = min 1 (max 0 (int (cn_totalCount c)))"
proof -
  let ?p = "Some \<lparr>pg_limit = Value 1, pg_offset = Null\<rparr>"
  have "\<exists>c t. getAllConnection ref_store None ?p (demo_db [demo_order None]) = (Inr c, t)"
    by (simp add: getAllConnection_def Let_def validateFilters_def validatePagination_def check_def
        ref_store_def async_simps await_def try_catch_def)
  then obtain c t where run: "getAllConnection ref_store None ?p (demo_db [demo_order None]) = (Inr c, t)"
    by blast
  from page_info_exact [OF ref.relational_store_axioms _ run] have
    "int (length (cn_nodes c)) = min 1 (max 0 (int (cn_totalCount c)))"
    by (simp add: page_offset_def page_limit_def input_or_def Let_def)
  with run show ?thesis by blast
qed

section \<open>Updating\<close>

lemma await_on_db:
  assumes "m (w_db w) = (u, d)"
  shows "await (on_db m) k w =
    (case u of Inl e \<Rightarrow> (Inl e, w\<lparr>w_db := d\<rparr>) | Inr x \<Rightarrow> k x (w\<lparr>w_db := d\<rparr>))"
  using on_db_run [of m, OF assms] by (simp add: await_def)

lemma update_run:
  assumes rel: "relational_store (dep_db deps) tabs tx"
    and idle: "tx (w_db w) = Idle" and ok: "schema_ok (tabs (w_db w))"
    and run: "updateOrder deps clock oid ups w = (v, w')"
  shows "tx (w_db w') = Idle \<and> w_rabbit w' = w_rabbit w \<and>
    (case v of
       Inl e \<Rightarrow> tabs (w_db w') = tabs (w_db w) \<and> w_events w' = w_events w
     | Inr saved \<Rightarrow>
         \<exists>r u. t_orders (tabs (w_db w)) oid = Some r \<and>
           saved = (assign_updates ups r)\<lparr>o_updatedAt := u\<rparr> \<and>
           key_free (tabs (w_db w)) (o_idempotencyKey saved) oid \<and>
           tabs (w_db w') = (tabs (w_db w))\<lparr>t_orders := (t_orders (tabs (w_db w)))(oid \<mapsto> saved)\<rparr> \<and>
           w_events w' =
             (if o_status saved = o_status r then w_events w
              else publishStatusChanged (dep_rx deps) (event_of clock saved) (w_events w)))"
proof -
  obtain u d where find: "repo_findOrderRow (dep_db deps) oid (w_db w) = (u, d)" by fastforce
  have d: "tabs d = tabs (w_db w) \<and> tx d = Idle \<and> (\<forall>x. u = Inr x \<longrightarrow> x = t_orders (tabs (w_db w)) oid)"
  proof (cases u)
    case (Inl e)
    with op_spec_Inl [OF relational_store.findOrderRow [OF rel], of "w_db w" oid e d] find idle
    show ?thesis by simp
  next
    case (Inr x)
    with op_spec_Inr [OF relational_store.findOrderRow [OF rel], of "w_db w" oid x d] find idle
    show ?thesis by simp
  qed
  note step = run [unfolded updateOrder_def await_on_db [of "repo_findOrderRow (dep_db deps) oid", OF find]]
  show ?thesis
  proof (cases "\<exists>r. u = Inr (Some r)")
    case False
    have "(\<exists>e. v = Inl e) \<and> w' = w\<lparr>w_db := d\<rparr>"
    proof (cases u)
      case (Inl e)
      with step show ?thesis by auto
    next
      case (Inr x)
      with False step show ?thesis by (cases x) (auto simp: async_simps)
    qed
    with d show ?thesis by auto
  next
    case True
    then obtain r where u: "u = Inr (Some r)" by blast
    with d have r: "t_orders (tabs (w_db w)) oid = Some r" by auto
    have own: "o_id r = oid" using own_ids_order [OF ok r] .
    let ?a = "assign_updates ups r"
    obtain s d2 where save: "repo_saveOrder (dep_db deps) ?a d = (s, d2)" by fastforce
    have there: "repo_saveOrder (dep_db deps) ?a (w_db (w\<lparr>w_db := d\<rparr>)) = (s, d2)" using save by simp
    have step: "(case s of Inl e \<Rightarrow> (Inl e, w\<lparr>w_db := d2\<rparr>)
      | Inr saved \<Rightarrow> (if up_status ups \<noteq> None \<and> up_status ups \<noteq> Some (o_status r)
          then await (publish_event deps (event_of clock saved)) (\<lambda>_. resolve saved)
          else resolve saved) (w\<lparr>w_db := d2\<rparr>)) = (v, w')"
      using step [unfolded u sum.case option.case Let_def await_on_db [of "repo_saveOrder (dep_db deps) ?a", OF there]]
      by (cases s) auto
    have a: "o_id ?a = oid" by (simp add: assign_updates_def own)
    show ?thesis
    proof (cases s)
      case (Inl e)
      with save have "repo_saveOrder (dep_db deps) ?a d = (Inl e, d2)" by simp
      from op_spec_Inl [OF relational_store.saveOrder [OF rel] _ this] d have
        "tabs d2 = tabs (w_db w)" "tx d2 = Idle" by simp_all
      moreover from step Inl have "v = Inl e" "w' = w\<lparr>w_db := d2\<rparr>" by simp_all
      ultimately show ?thesis by simp
    next
      case (Inr saved)
      with save have saved: "repo_saveOrder (dep_db deps) ?a d = (Inr saved, d2)" by simp
      from op_spec_Inr [OF relational_store.saveOrder [OF rel] _ saved] d have
        "order_saved ?a (tabs (w_db w)) saved (tabs d2)" "tx d2 = Idle" by simp_all
      with r a obtain u' where s: "saved = ?a\<lparr>o_updatedAt := u'\<rparr>"
        "key_free (tabs (w_db w)) (o_idempotencyKey ?a) oid"
        "tabs d2 = (tabs (w_db w))\<lparr>t_orders := (t_orders (tabs (w_db w)))(oid \<mapsto> saved)\<rparr>"
        "tx d2 = Idle" by (auto simp: order_saved_def)
      have changed: "up_status ups \<noteq> None \<and> up_status ups \<noteq> Some (o_status r) \<longleftrightarrow>
          o_status saved \<noteq> o_status r"
        by (auto simp: s(1) assign_updates_def split: option.splits)
      have "v = Inr saved \<and> w' = (if o_status saved = o_status r then w\<lparr>w_db := d2\<rparr>
          else w\<lparr>w_db := d2, w_events :=
            publishStatusChanged (dep_rx deps) (event_of clock saved) (w_events w)\<rparr>)"
        using step Inr changed by (auto simp: await_def async_simps publish_event_def)
      with s r show ?thesis
        by (intro conjI) (simp_all add: s(1) assign_updates_def, blast)
    qed
  qed
qed

text \<open>
  An update saves the given fields on the row that is there and nothing else, and emits a
  status event, with the saved state, exactly when the saved status differs from the one
  before; when it throws, no table and no event has changed.
\<close>

theorem update_effects:
  assumes "relational_store (dep_db deps) tabs tx"
    and "tx (w_db w) = Idle" and "schema_ok (tabs (w_db w))"
    and "updateOrder deps clock oid ups w = (v, w')"
  shows "case v of
      Inl e \<Rightarrow> tabs (w_db w') = tabs (w_db w) \<and> w_events w' = w_events w
    | Inr saved \<Rightarrow>
        \<exists>r u. t_orders (tabs (w_db w)) oid = Some r \<and>
          saved = (assign_updates ups r)\<lparr>o_updatedAt := u\<rparr> \<and>
          tabs (w_db w') = (tabs (w_db w))\<lparr>t_orders := (t_orders (tabs (w_db w)))(oid \<mapsto> saved)\<rparr> \<and>
          w_events w' =
            (if o_status saved = o_status r then w_events w
             else publishStatusChanged (dep_rx deps) (event_of clock saved) (w_events w))"
  using update_run [OF assms] by (cases v) auto

theorem update_effects_witness:
  "\<exists>saved w'. updateOrder demo_deps demo_clock ''o1''
     \<lparr>up_status = Some PAID, up_idempotencyKey = Undefined\<rparr> (demo_world [demo_order None]) = (Inr saved, w') \<and>
     o_status saved = PAID \<and>
     w_events w' = publishStatusChanged ref_rx (event_of demo_clock saved) (subscribe events_init)"
proof -
  let ?ups = "\<lparr>up_status = Some PAID, up_idempotencyKey = Undefined\<rparr>"
  have "\<exists>saved w'. updateOrder demo_deps demo_clock ''o1'' ?ups (demo_world [demo_order None]) = (Inr saved, w')"
    by (simp add: updateOrder_def await_def on_db_def on_part_def ref_store_def async_simps demo_db_def
        ref_saveOrder_def assign_updates_def Let_def demo_order_def publish_event_def)
  then obtain saved w' where run: "updateOrder demo_deps demo_clock ''o1'' ?ups
      (demo_world [demo_order None]) = (Inr saved, w')" by blast
  from update_effects [OF _ _ _ run, of ref_tabs ref_tx] ref.relational_store_axioms demo_db_ok run
  show ?thesis by (auto simp: assign_updates_def demo_world_def)
qed

section \<open>Deleting\<close>

lemma without_order_schema:
  assumes "schema_ok T"
  shows "schema_ok (without_order oid T)"
proof -
  let ?U = "without_order oid T"
  have orders: "t_orders ?U i = Some r \<Longrightarrow> t_orders T i = Some r" for i r
    by (simp add: without_order_def split: if_splits)
  have items: "t_items ?U i = Some it \<Longrightarrow> t_items T i = Some it \<and> oi_orderId it \<noteq> oid" for i it
    by (auto simp: without_order_def split: option.splits if_splits)
  have pms: "t_processed ?U i = Some pm \<Longrightarrow> t_processed T i = Some pm \<and> pm_orderId pm \<noteq> oid" for i pm
    by (auto simp: without_order_def split: option.splits if_splits)
  have rest: "t_users ?U = t_users T" "t_products ?U = t_products T"
    "\<And>i. i \<noteq> oid \<Longrightarrow> t_orders ?U i = t_orders T i"
    by (simp_all add: without_order_def)
  have "own_ids ?U"
    using assms orders items rest(2) by (auto simp: schema_ok_def own_ids_def)
  moreover have "unique_keys ?U"
    using assms orders unfolding schema_ok_def unique_keys_def by blast
  moreover have "foreign_keys ?U"
    using assms orders items pms rest unfolding schema_ok_def foreign_keys_def by metis
  ultimately show ?thesis by (simp add: schema_ok_def)
qed

lemma relational_delete:
  assumes "relational_store db tabs tx" and "tx d = Idle" and "schema_ok (tabs d)"
    and "deleteOrder db oid d = (v, t)"
  shows "schema_ok (tabs t) \<and> (\<forall>pid. stock (tabs t) pid = stock (tabs d) pid) \<and>
    (if v = Inr () then t_orders (tabs d) oid \<noteq> None \<and> tabs t = without_order oid (tabs d) \<and>
       items_of (tabs t) oid = {}
     else tabs t = tabs d)"
proof -
  obtain u s1 where del: "repo_deleteOrder db oid d = (u, s1)" by fastforce
  have t: "t = s1" using assms(4) del
    by (cases u) (auto simp: deleteOrder_def await_run async_simps split: if_splits)
  have none: "items_of (without_order oid T) oid = {}" for T
    by (auto simp: items_of_def without_order_def ran_def split: option.splits if_splits)
  have same: "stock (without_order oid T) pid = stock T pid" for T pid
    by (simp add: stock_def without_order_def)
  show ?thesis
  proof (cases u)
    case (Inl e)
    with del have "repo_deleteOrder db oid d = (Inl e, s1)" by simp
    from op_spec_Inl [OF relational_store.deleteOrder [OF assms(1)] _ this] assms(2) have
      "tabs s1 = tabs d" by simp
    moreover have "v = Inl e" using assms(4) del Inl by (simp add: deleteOrder_def await_run)
    ultimately show ?thesis using t assms(3) by simp
  next
    case (Inr n)
    with del have "repo_deleteOrder db oid d = (Inr n, s1)" by simp
    from op_spec_Inr [OF relational_store.deleteOrder [OF assms(1)] _ this] assms(2) have
      "order_deleted oid (tabs d) n (tabs s1)" by simp
    moreover have "v = (if n = Some 0 then Inl (NotFoundException ''Order not found'') else Inr ())"
      using assms(4) del Inr by (auto simp: deleteOrder_def await_run async_simps split: if_splits)
    ultimately show ?thesis
      using t assms(3) none same without_order_schema [OF assms(3), of oid]
      by (auto simp: order_deleted_def split: if_splits)
  qed
qed

text \<open>
  Deleting an order removes it with its items and its processed messages and nothing
  else, keeps the schema's constraints, and gives no stock back; for an order that is not
  there it throws \<open>Order not found\<close>, and whenever it throws the tables are unchanged.
\<close>

theorem delete_effects:
  assumes "relational_store db tabs tx" and "tx d = Idle" and "schema_ok (tabs d)"
    and "deleteOrder db oid d = (v, t)"
  shows "schema_ok (tabs t) \<and> (\<forall>pid. stock (tabs t) pid = stock (tabs d) pid) \<and>
    (if v = Inr () then t_orders (tabs d) oid \<noteq> None \<and> tabs t = without_order oid (tabs d) \<and>
       items_of (tabs t) oid = {}
     else tabs t = tabs d)"
  by (rule relational_delete [OF assms])

theorem delete_effects_witness:
  "\<exists>t. deleteOrder ref_store ''o1'' (demo_db [demo_order None]) = (Inr (), t) \<and>
     ref_tabs t = without_order ''o1'' (ref_tabs (demo_db [demo_order None]))"
proof -
  have "\<exists>t. deleteOrder ref_store ''o1'' (demo_db [demo_order None]) = (Inr (), t)"
    by (simp add: deleteOrder_def await_def ref_store_def ref_deleteOrder_def demo_db_def async_simps)
  then obtain t where run: "deleteOrder ref_store ''o1'' (demo_db [demo_order None]) = (Inr (), t)" by blast
  with delete_effects [OF ref.relational_store_axioms _ _ run] demo_db_ok show ?thesis by auto
qed

section \<open>Access\<close>

text \<open>
  A user may subscribe to an order exactly when the order exists and is the user's own, or
  the user has one of the roles admin, operator and support; otherwise the call throws
  \<open>Order not found\<close> or \<open>Access denied\<close>.
\<close>

theorem subscribe_access:
  assumes "reliable_store db tabs tx fits" and "tx d = Idle"
  shows "fst (canSubscribeToOrder db oid user d) =
    (case t_orders (tabs d) oid of
       None \<Rightarrow> Inl (NotFoundException ''Order not found'')
     | Some r \<Rightarrow>
         if o_userId r = au_sub user \<or> set (au_roles user) \<inter> {''admin'', ''operator'', ''support''} \<noteq> {}
         then Inr () else Inl (ForbiddenException ''Access denied''))"
proof -
  have rel: "relational_store db tabs tx" using assms(1) by (rule reliable_store.axioms(1))
  obtain v s1 where find: "repo_findOrderRow db oid d = (Inr v, s1)"
    using reliable_store.works_findOrderRow [OF assms, of oid] by (auto simp: works_def)
  from op_spec_Inr [OF relational_store.findOrderRow [OF rel] _ find] assms(2) have
    "v = t_orders (tabs d) oid" by simp
  with find show ?thesis
    by (auto simp: canSubscribeToOrder_def await_run async_simps check_def assertCanAccessOrder_def
        isStaff_def split: option.split)
qed

theorem subscribe_access_witness:
  "fst (canSubscribeToOrder ref_store ''o1''
     \<lparr>au_sub = ''u2'', au_email = [], au_roles = [''user''], au_scopes = []\<rparr> (demo_db [demo_order None])) =
   Inl (ForbiddenException ''Access denied'')"
  using subscribe_access [OF ref.reliable_store_axioms, of "demo_db [demo_order None]" "''o1''"
      "\<lparr>au_sub = ''u2'', au_email = [], au_roles = [''user''], au_scopes = []\<rparr>"]
  by simp

section \<open>Every sequence of operations\<close>

text \<open>One operation of the service that writes, with any inputs.\<close>

inductive orders_next ::
  "('d, 'ds, 'th) deps \<Rightarrow> ('d, 'ds, 'th) world \<Rightarrow> ('d, 'ds, 'th) world \<Rightarrow> bool"
  for deps :: "('d, 'ds, 'th) deps" where
  do_create: "orders_next deps w (snd (create deps messageId dto ik w))"
| do_process: "orders_next deps w (snd (processOrderMessage deps clock message w))"
| do_update: "orders_next deps w (snd (updateOrder deps clock oid ups w))"
| do_delete: "orders_next deps w (snd (on_db (deleteOrder (dep_db deps) oid) w))"

lemma delete_idle:
  assumes "relational_store db tabs tx" and "tx d = Idle" and "deleteOrder db oid d = (v, t)"
  shows "tx t = Idle"
proof -
  obtain u s1 where del: "repo_deleteOrder db oid d = (u, s1)" by fastforce
  have "t = s1" using assms(3) del
    by (cases u) (auto simp: deleteOrder_def await_run async_simps split: if_splits)
  with del assms(2) show ?thesis
    using op_spec_Inl [OF relational_store.deleteOrder [OF assms(1)], of d oid _ s1]
      op_spec_Inr [OF relational_store.deleteOrder [OF assms(1)], of d oid _ s1]
    by (cases u) auto
qed

lemma saved_schema:
  assumes "schema_ok T" and "t_orders T oid = Some r" and "o_id q = oid" "o_userId q = o_userId r"
    and "key_free T (o_idempotencyKey q) oid"
  shows "schema_ok (T\<lparr>t_orders := (t_orders T)(oid \<mapsto> q)\<rparr>)"
proof -
  have "unique_keys (T\<lparr>t_orders := (t_orders T)(oid \<mapsto> q)\<rparr>)"
    using assms(1,5) unfolding schema_ok_def unique_keys_def key_free_def
    by (auto split: if_splits)
  then show ?thesis
    using assms by (auto simp: schema_ok_def own_ids_def foreign_keys_def)
qed

lemma orders_next_ok:
  assumes rel: "relational_store (dep_db deps) tabs tx" and step: "orders_next deps w w'"
    and pre: "tx (w_db w) = Idle" "schema_ok (tabs (w_db w))" "stock_ok (tabs (w_db w))"
  shows "tx (w_db w') = Idle \<and> schema_ok (tabs (w_db w')) \<and> stock_ok (tabs (w_db w'))"
  using step
proof cases
  case (do_create messageId dto ik)
  obtain u d where stored: "create_stored (dep_db deps) dto ik (w_db w) = (u, d)" by fastforce
  from relational_store.create_stored_run [OF rel pre(1,2) refl stored] have
    eff: "tx d = Idle" "create_effect (tabs (w_db w)) dto (nullish ik (co_idempotencyKey dto)) u (tabs d)"
    by simp_all
  have "w_db w' = d"
    using do_create create_run [OF stored, of messageId] by (simp split: sum.splits prod.splits)
  with create_effect_schema [OF eff(2) pre(2)] create_effect_stock [OF eff(2) pre(3)] eff(1)
  show ?thesis by simp
next
  case (do_process clock message)
  obtain v where run: "processOrderMessage deps clock message w = (v, w')"
    using do_process by (cases "processOrderMessage deps clock message w") simp
  from process_run [OF rel pre(1,2) run] have
    eff: "process_effect (tabs (w_db w)) message (now_processedAt clock) v (tabs (w_db w'))"
    "tx (w_db w') = Idle" by simp_all
  have "t_products (tabs (w_db w')) = t_products (tabs (w_db w))"
    using eff(1) by (rule process_effect_products)
  with pre(3) have "stock_ok (tabs (w_db w'))" by (simp add: stock_ok_def)
  with process_effect_schema [OF eff(1) pre(2)] eff(2) show ?thesis by simp
next
  case (do_update clock oid ups)
  obtain v where run: "updateOrder deps clock oid ups w = (v, w')"
    using do_update by (cases "updateOrder deps clock oid ups w") simp
  note eff = update_run [OF rel pre(1,2) run]
  show ?thesis
  proof (cases v)
    case (Inl e)
    with eff pre show ?thesis by simp
  next
    case (Inr saved)
    with eff obtain r u where r: "t_orders (tabs (w_db w)) oid = Some r"
      "saved = (assign_updates ups r)\<lparr>o_updatedAt := u\<rparr>"
      "key_free (tabs (w_db w)) (o_idempotencyKey saved) oid"
      "tabs (w_db w') = (tabs (w_db w))\<lparr>t_orders := (t_orders (tabs (w_db w)))(oid \<mapsto> saved)\<rparr>" by auto
    have "schema_ok (tabs (w_db w'))"
      unfolding r(4)
      by (rule saved_schema [OF pre(2) r(1) _ _ r(3)])
        (use own_ids_order [OF pre(2) r(1)] in \<open>simp_all add: r(2) assign_updates_def\<close>)
    moreover have "stock_ok (tabs (w_db w'))" using pre(3) by (simp add: r(4) stock_ok_def)
    ultimately show ?thesis using eff by simp
  qed
next
  case (do_delete oid)
  obtain v d where run: "deleteOrder (dep_db deps) oid (w_db w) = (v, d)" by fastforce
  with do_delete have w': "w_db w' = d"
    using on_db_run [of "deleteOrder (dep_db deps) oid" w v d] by simp
  have "t_products (tabs d) = t_products (tabs (w_db w))"
  proof (cases "v = Inr ()")
    case True
    then show ?thesis
      using relational_delete [OF rel pre(1,2) run] by (simp add: without_order_def)
  next
    case False
    then show ?thesis using relational_delete [OF rel pre(1,2) run] by simp
  qed
  with pre(3) have "stock_ok (tabs d)" by (simp add: stock_ok_def)
  with relational_delete [OF rel pre(1,2) run] delete_idle [OF rel pre(1) run] w' show ?thesis by simp
qed

text \<open>
  C20. However creates, messages, updates and deletions follow each other, and whatever fails
  in between, no transaction stays open, the constraints of the schema hold and no stock is
  negative.
\<close>

theorem orders_invariant:
  assumes "relational_store (dep_db deps) tabs tx" and "(orders_next deps)\<^sup>*\<^sup>* w w'"
    and "tx (w_db w) = Idle" and "schema_ok (tabs (w_db w))" and "stock_ok (tabs (w_db w))"
  shows "tx (w_db w') = Idle \<and> schema_ok (tabs (w_db w')) \<and> stock_ok (tabs (w_db w'))"
  using assms(2)
proof (induction rule: rtranclp_induct)
  case base
  then show ?case using assms(3-5) by simp
next
  case (step y z)
  then show ?case using orders_next_ok [OF assms(1) step(2)] by simp
qed

theorem orders_invariant_witness:
  "schema_ok (ref_tabs (w_db (snd (processOrderMessage demo_deps demo_clock (demo_message ''m1'' ''o1'')
     (snd (create demo_deps ''m1'' (demo_dto 2) None (demo_world [])))))))"
proof -
  have "(orders_next demo_deps)\<^sup>*\<^sup>* (demo_world []) (snd (processOrderMessage demo_deps demo_clock
      (demo_message ''m1'' ''o1'') (snd (create demo_deps ''m1'' (demo_dto 2) None (demo_world [])))))"
    by (rule converse_rtranclp_into_rtranclp [OF do_create r_into_rtranclp [of "orders_next demo_deps", OF do_process]])
  from orders_invariant [OF _ this, of ref_tabs ref_tx] ref.relational_store_axioms demo_db_ok demo_stock_ok
  show ?thesis by simp
qed

end
