(* ===== verification/Migrations.thy ===== *)
theory Migrations
  imports Prelude
begin

text \<open>
  The migrations (\<^verbatim>\<open>src/migrations/\<close>) as lists of the statements they execute, and what these
  statements do to a database schema. A statement fails where PostgreSQL refuses it; a
  migration runs in a transaction, unless it says otherwise, and a failed transaction leaves
  the schema as it was. The entities are the columns, unique indexes and relations that the
  decorators declare.
\<close>

section \<open>Schemas\<close>

datatype column_type =
    Uuid | Varchar nat | Text | TextArray | Numeric nat nat | IntegerT | BooleanT | Timestamptz
  | EnumT string

record column =
  cl_name :: string
  cl_type :: column_type
  cl_nullable :: bool
  cl_default :: "string option"

datatype on_delete = Cascade | SetNull | Restrict | NoAction

record foreign_key =
  fk_name :: string
  fk_column :: string
  fk_references :: string
  fk_onDelete :: on_delete

record table =
  tb_name :: string
  tb_columns :: "column list"
  tb_primary :: string
  tb_unique :: "(string \<times> string) list"
  tb_foreign_keys :: "foreign_key list"

record index =
  ix_name :: string
  ix_table :: string
  ix_columns :: "string list"
  ix_unique :: bool

text \<open>\<open>sc_fresh\<close> are the enum values added by the transaction that is running.\<close>

record db_schema =
  sc_types :: "(string \<times> string list) list"
  sc_tables :: "table list"
  sc_indexes :: "index list"
  sc_fresh :: "(string \<times> string) list"

definition empty_schema :: db_schema where
  "empty_schema = \<lparr>sc_types = [], sc_tables = [], sc_indexes = [], sc_fresh = []\<rparr>"

datatype ddl =
    CreateTable bool table
  | DropTable bool string
  | CreateIndex bool index
  | DropIndex bool string
  | AddColumn bool string column
  | DropColumn bool string string
  | AddForeignKey bool string foreign_key
  | DropConstraint bool string string
  | CreateType bool string "string list"
  | DropType bool string
  | AddValue string string
  | SetDefault string string string

text \<open>The first flag of a statement is its \<open>IF EXISTS\<close> or \<open>IF NOT EXISTS\<close>.\<close>

definition find_table :: "string \<Rightarrow> db_schema \<Rightarrow> table option" where
  "find_table t s = find (\<lambda>tb. tb_name tb = t) (sc_tables s)"

definition has_index :: "string \<Rightarrow> db_schema \<Rightarrow> bool" where
  "has_index n s \<longleftrightarrow> (\<exists>ix \<in> set (sc_indexes s). ix_name ix = n)"

definition has_column :: "string \<Rightarrow> table \<Rightarrow> bool" where
  "has_column c tb \<longleftrightarrow> (\<exists>cl \<in> set (tb_columns tb). cl_name cl = c)"

definition has_constraint :: "string \<Rightarrow> table \<Rightarrow> bool" where
  "has_constraint n tb \<longleftrightarrow>
     n \<in> fst ` set (tb_unique tb) \<or> (\<exists>fk \<in> set (tb_foreign_keys tb). fk_name fk = n)"

definition type_known :: "column_type \<Rightarrow> db_schema \<Rightarrow> bool" where
  "type_known ty s = (case ty of EnumT e \<Rightarrow> e \<in> fst ` set (sc_types s) | _ \<Rightarrow> True)"

definition update_table :: "string \<Rightarrow> (table \<Rightarrow> table) \<Rightarrow> db_schema \<Rightarrow> db_schema" where
  "update_table t f s =
     s\<lparr>sc_tables := map (\<lambda>tb. if tb_name tb = t then f tb else tb) (sc_tables s)\<rparr>"

definition refuse_ddl :: "string \<Rightarrow> string \<Rightarrow> (db_schema, unit) async" where
  "refuse_ddl code what = throw (DbError (Some code) what)"

text \<open>Statements on one table, which has to be there.\<close>

definition on_table ::
  "string \<Rightarrow> (table \<Rightarrow> db_schema \<Rightarrow> (exn + unit) \<times> db_schema) \<Rightarrow> (db_schema, unit) async" where
  "on_table t m =
     (\<lambda>s. case find_table t s of
        None \<Rightarrow> refuse_ddl ''42P01'' ''undefined table'' s
      | Some tb \<Rightarrow> m tb s)"

fun exec :: "ddl \<Rightarrow> (db_schema, unit) async" where
  "exec (CreateTable ine tb) s =
     (if find_table (tb_name tb) s \<noteq> None then
        (if ine then resolve () s else refuse_ddl ''42P07'' ''duplicate table'' s)
      else if \<not> list_all (\<lambda>cl. type_known (cl_type cl) s) (tb_columns tb) then
        refuse_ddl ''42704'' ''undefined type'' s
      else if \<not> list_all (\<lambda>fk. find_table (fk_references fk) s \<noteq> None) (tb_foreign_keys tb) then
        refuse_ddl ''42P01'' ''undefined table'' s
      else (Inr (), s\<lparr>sc_tables := sc_tables s @ [tb]\<rparr>))"
| "exec (DropTable ie t) s =
     (if find_table t s = None then
        (if ie then resolve () s else refuse_ddl ''42P01'' ''undefined table'' s)
      else if list_ex (\<lambda>tb. tb_name tb \<noteq> t \<and> list_ex (\<lambda>fk. fk_references fk = t) (tb_foreign_keys tb))
          (sc_tables s) then
        refuse_ddl ''2BP01'' ''other objects depend on the table'' s
      else (Inr (), s\<lparr>sc_tables := filter (\<lambda>tb. tb_name tb \<noteq> t) (sc_tables s),
                     sc_indexes := filter (\<lambda>ix. ix_table ix \<noteq> t) (sc_indexes s)\<rparr>))"
| "exec (CreateIndex ine ix) s =
     (if has_index (ix_name ix) s then
        (if ine then resolve () s else refuse_ddl ''42P07'' ''duplicate index'' s)
      else
        on_table (ix_table ix) (\<lambda>tb s.
          if \<not> list_all (\<lambda>c. has_column c tb) (ix_columns ix) then
            refuse_ddl ''42703'' ''undefined column'' s
          else (Inr (), s\<lparr>sc_indexes := sc_indexes s @ [ix]\<rparr>)) s)"
| "exec (DropIndex ie n) s =
     (if \<not> has_index n s then
        (if ie then resolve () s else refuse_ddl ''42704'' ''undefined index'' s)
      else (Inr (), s\<lparr>sc_indexes := filter (\<lambda>ix. ix_name ix \<noteq> n) (sc_indexes s)\<rparr>))"
| "exec (AddColumn ine t cl) s =
     on_table t (\<lambda>tb s.
       if has_column (cl_name cl) tb then
         (if ine then resolve () s else refuse_ddl ''42701'' ''duplicate column'' s)
       else if \<not> type_known (cl_type cl) s then refuse_ddl ''42704'' ''undefined type'' s
       else (Inr (), update_table t (\<lambda>tb. tb\<lparr>tb_columns := tb_columns tb @ [cl]\<rparr>) s)) s"
| "exec (DropColumn ie t c) s =
     on_table t (\<lambda>tb s.
       if \<not> has_column c tb then
         (if ie then resolve () s else refuse_ddl ''42703'' ''undefined column'' s)
       else (Inr (), (update_table t
          (\<lambda>tb. tb\<lparr>tb_columns := filter (\<lambda>cl. cl_name cl \<noteq> c) (tb_columns tb),
                  tb_unique := filter (\<lambda>u. snd u \<noteq> c) (tb_unique tb),
                  tb_foreign_keys := filter (\<lambda>fk. fk_column fk \<noteq> c) (tb_foreign_keys tb)\<rparr>) s)
          \<lparr>sc_indexes := filter (\<lambda>ix. \<not> (ix_table ix = t \<and> c \<in> set (ix_columns ix))) (sc_indexes s)\<rparr>)) s"
| "exec (AddForeignKey ine t fk) s =
     (if ine \<and> list_ex (has_constraint (fk_name fk)) (sc_tables s) then resolve () s
      else
        on_table t (\<lambda>tb s.
          if has_constraint (fk_name fk) tb then refuse_ddl ''42710'' ''duplicate constraint'' s
          else if \<not> has_column (fk_column fk) tb then refuse_ddl ''42703'' ''undefined column'' s
          else if find_table (fk_references fk) s = None then
            refuse_ddl ''42P01'' ''undefined table'' s
          else (Inr (), update_table t
            (\<lambda>tb. tb\<lparr>tb_foreign_keys := tb_foreign_keys tb @ [fk]\<rparr>) s)) s)"
| "exec (DropConstraint ie t n) s =
     on_table t (\<lambda>tb s.
       if \<not> has_constraint n tb then
         (if ie then resolve () s else refuse_ddl ''42704'' ''undefined constraint'' s)
       else (Inr (), update_table t
          (\<lambda>tb. tb\<lparr>tb_unique := filter (\<lambda>u. fst u \<noteq> n) (tb_unique tb),
                  tb_foreign_keys := filter (\<lambda>fk. fk_name fk \<noteq> n) (tb_foreign_keys tb)\<rparr>) s)) s"
| "exec (CreateType ine e vs) s =
     (if e \<in> fst ` set (sc_types s) then
        (if ine then resolve () s else refuse_ddl ''42710'' ''duplicate type'' s)
      else (Inr (), s\<lparr>sc_types := sc_types s @ [(e, vs)]\<rparr>))"
| "exec (DropType ie e) s =
     (if e \<notin> fst ` set (sc_types s) then
        (if ie then resolve () s else refuse_ddl ''42704'' ''undefined type'' s)
      else if list_ex (\<lambda>tb. list_ex (\<lambda>cl. cl_type cl = EnumT e) (tb_columns tb)) (sc_tables s) then
        refuse_ddl ''2BP01'' ''other objects depend on the type'' s
      else (Inr (), s\<lparr>sc_types := filter (\<lambda>p. fst p \<noteq> e) (sc_types s)\<rparr>))"
| "exec (AddValue e v) s =
     (case map_of (sc_types s) e of
        None \<Rightarrow> refuse_ddl ''42704'' ''undefined type'' s
      | Some vs \<Rightarrow>
          if v \<in> set vs then resolve () s
          else (Inr (), s\<lparr>sc_types := map (\<lambda>(e', vs). (e', if e' = e then vs @ [v] else vs)) (sc_types s),
                         sc_fresh := (e, v) # sc_fresh s\<rparr>))"
| "exec (SetDefault t c d) s =
     on_table t (\<lambda>tb s.
       case find (\<lambda>cl. cl_name cl = c) (tb_columns tb) of
         None \<Rightarrow> refuse_ddl ''42703'' ''undefined column'' s
       | Some cl \<Rightarrow>
           (case cl_type cl of
              EnumT e \<Rightarrow>
                if d \<notin> set (case map_of (sc_types s) e of None \<Rightarrow> [] | Some vs \<Rightarrow> vs) then
                  refuse_ddl ''22P02'' ''invalid value of an enum'' s
                else if (e, d) \<in> set (sc_fresh s) then
                  refuse_ddl ''55P04'' ''unsafe use of a new value of an enum'' s
                else (Inr (), update_table t (\<lambda>tb. tb\<lparr>tb_columns :=
                  map (\<lambda>cl. if cl_name cl = c then cl\<lparr>cl_default := Some d\<rparr> else cl) (tb_columns tb)\<rparr>) s)
            | _ \<Rightarrow> (Inr (), update_table t (\<lambda>tb. tb\<lparr>tb_columns :=
                  map (\<lambda>cl. if cl_name cl = c then cl\<lparr>cl_default := Some d\<rparr> else cl) (tb_columns tb)\<rparr>) s))) s"

section \<open>The migrations\<close>

record migration =
  mg_name :: string
  mg_transaction :: bool
  mg_up :: "ddl list"
  mg_down :: "ddl list"

definition col :: "string \<Rightarrow> column_type \<Rightarrow> column" where
  "col n ty = \<lparr>cl_name = n, cl_type = ty, cl_nullable = False, cl_default = None\<rparr>"

definition null_col :: "string \<Rightarrow> column_type \<Rightarrow> column" where
  "null_col n ty = \<lparr>cl_name = n, cl_type = ty, cl_nullable = True, cl_default = None\<rparr>"

definition with_default :: "column \<Rightarrow> string \<Rightarrow> column" where
  "with_default cl d = cl\<lparr>cl_default := Some d\<rparr>"

definition id_col :: column where
  "id_col = with_default (col ''id'' Uuid) ''uuid_generate_v4()''"

definition now_col :: "string \<Rightarrow> column" where
  "now_col n = with_default (col n Timestamptz) ''now()''"

definition plain_index :: "string \<Rightarrow> string \<Rightarrow> string list \<Rightarrow> index" where
  "plain_index n t cs = \<lparr>ix_name = n, ix_table = t, ix_columns = cs, ix_unique = False\<rparr>"

definition unique_index :: "string \<Rightarrow> string \<Rightarrow> string list \<Rightarrow> index" where
  "unique_index n t cs = \<lparr>ix_name = n, ix_table = t, ix_columns = cs, ix_unique = True\<rparr>"

definition new_table :: "string \<Rightarrow> string \<Rightarrow> column list \<Rightarrow> table" where
  "new_table t pk cs =
     \<lparr>tb_name = t, tb_columns = cs, tb_primary = pk, tb_unique = [], tb_foreign_keys = []\<rparr>"

definition fk_items_order :: foreign_key where
  "fk_items_order = \<lparr>fk_name = ''FK_145532db85752b29c57d2b7b1f1'', fk_column = ''order_id'',
     fk_references = ''orders'', fk_onDelete = Cascade\<rparr>"

definition fk_orders_user :: foreign_key where
  "fk_orders_user = \<lparr>fk_name = ''FK_a922b820eeef29ac1c6800e826a'', fk_column = ''user_id'',
     fk_references = ''users'', fk_onDelete = Cascade\<rparr>"

definition Init_migration :: migration where
  "Init_migration = \<lparr>mg_name = ''Init1770372915082'', mg_transaction = True,
     mg_up =
       [CreateTable False (new_table ''users'' ''id''
          [id_col, col ''email'' (Varchar 320), now_col ''created_at'', now_col ''updated_at'']),
        CreateIndex False (unique_index ''IDX_users_email_unique'' ''users'' [''email'']),
        CreateTable False (new_table ''order_items'' ''id''
          [id_col, col ''order_id'' Uuid, col ''product_id'' Uuid, col ''quantity'' IntegerT,
           col ''price_snapshot'' (Numeric 12 2), now_col ''created_at'', now_col ''updated_at'']),
        CreateIndex False (plain_index ''IDX_order_items_product_id'' ''order_items'' [''product_id'']),
        CreateIndex False (plain_index ''IDX_order_items_order_id'' ''order_items'' [''order_id'']),
        CreateType False ''orders_status_enum'' [''CREATED'', ''PAID'', ''CANCELLED''],
        CreateTable False (new_table ''orders'' ''id''
          [id_col, col ''user_id'' Uuid,
           with_default (col ''status'' (EnumT ''orders_status_enum'')) ''CREATED'',
           null_col ''idempotency_key'' (Varchar 120), now_col ''created_at'', now_col ''updated_at'']),
        CreateIndex False (plain_index ''IDX_orders_created_at'' ''orders'' [''created_at'']),
        CreateIndex False (plain_index ''IDX_orders_user_id'' ''orders'' [''user_id'']),
        CreateTable False (new_table ''products'' ''id''
          [id_col, col ''name'' (Varchar 200), col ''sku'' (Varchar 64), null_col ''description'' Text,
           col ''price'' (Numeric 12 2), with_default (col ''stock'' IntegerT) ''0'',
           with_default (col ''is_active'' BooleanT) ''true'', now_col ''created_at'',
           now_col ''updated_at'']),
        CreateIndex False (plain_index ''IDX_products_created_at'' ''products'' [''created_at'']),
        CreateIndex False (unique_index ''IDX_products_sku_unique'' ''products'' [''sku'']),
        AddForeignKey False ''order_items'' fk_items_order,
        AddForeignKey False ''orders'' fk_orders_user],
     mg_down =
       [DropConstraint False ''orders'' ''FK_a922b820eeef29ac1c6800e826a'',
        DropConstraint False ''order_items'' ''FK_145532db85752b29c57d2b7b1f1'',
        DropIndex False ''IDX_products_sku_unique'', DropIndex False ''IDX_products_created_at'',
        DropTable False ''products'', DropIndex False ''IDX_orders_user_id'',
        DropIndex False ''IDX_orders_created_at'', DropTable False ''orders'',
        DropType False ''orders_status_enum'', DropIndex False ''IDX_order_items_order_id'',
        DropIndex False ''IDX_order_items_product_id'', DropTable False ''order_items'',
        DropIndex False ''IDX_users_email_unique'', DropTable False ''users'']\<rparr>"

definition AddIndexes_migration :: migration where
  "AddIndexes_migration = \<lparr>mg_name = ''AddIndexes1770390000000'', mg_transaction = True,
     mg_up =
       [CreateIndex True (unique_index ''IDX_orders_idempotency_key_unique'' ''orders'' [''idempotency_key'']),
        CreateIndex True (plain_index ''idx_orders_status_created_at'' ''orders'' [''status'', ''created_at''])],
     mg_down =
       [DropIndex True ''idx_orders_status_created_at'',
        DropIndex True ''IDX_orders_idempotency_key_unique'']\<rparr>"

definition AddUserAuthColumns_migration :: migration where
  "AddUserAuthColumns_migration = \<lparr>mg_name = ''AddUserAuthColumns1770405000000'', mg_transaction = True,
     mg_up =
       [AddColumn True ''users'' (null_col ''password_hash'' (Varchar 255)),
        AddColumn True ''users'' (with_default (col ''roles'' TextArray) ''ARRAY[]::text[]''),
        AddColumn True ''users'' (with_default (col ''scopes'' TextArray) ''ARRAY[]::text[]'')],
     mg_down =
       [DropColumn True ''users'' ''scopes'', DropColumn True ''users'' ''roles'',
        DropColumn True ''users'' ''password_hash'']\<rparr>"

definition AddFileRecordTable_migration :: migration where
  "AddFileRecordTable_migration = \<lparr>mg_name = ''AddFileRecordTable1770409000000'', mg_transaction = True,
     mg_up =
       [CreateType True ''files_status_enum'' [''pending'', ''ready''],
        CreateType True ''files_visibility_enum'' [''private'', ''public''],
        CreateTable True \<lparr>tb_name = ''files'',
          tb_columns =
            [id_col, col ''owner_id'' Uuid, null_col ''entity_id'' Uuid, col ''key'' (Varchar 512),
             col ''content_type'' (Varchar 120), col ''size'' IntegerT,
             with_default (col ''status'' (EnumT ''files_status_enum'')) ''pending'',
             with_default (col ''visibility'' (EnumT ''files_visibility_enum'')) ''private'',
             now_col ''created_at'', now_col ''updated_at''],
          tb_primary = ''id'', tb_unique = [(''UQ_files_key'', ''key'')],
          tb_foreign_keys = [\<lparr>fk_name = ''FK_files_owner'', fk_column = ''owner_id'',
            fk_references = ''users'', fk_onDelete = Cascade\<rparr>]\<rparr>,
        CreateIndex True (plain_index ''IDX_files_owner_id'' ''files'' [''owner_id'']),
        CreateIndex True (plain_index ''IDX_files_entity_id'' ''files'' [''entity_id'']),
        CreateIndex True (plain_index ''IDX_files_status'' ''files'' [''status'']),
        CreateIndex True (plain_index ''IDX_files_visibility'' ''files'' [''visibility''])],
     mg_down =
       [DropTable True ''files'', DropType True ''files_visibility_enum'',
        DropType True ''files_status_enum'']\<rparr>"

definition AddDomainFileLinks_migration :: migration where
  "AddDomainFileLinks_migration = \<lparr>mg_name = ''AddDomainFileLinks1770413000000'', mg_transaction = True,
     mg_up =
       [AddColumn True ''users'' (null_col ''avatar_file_id'' Uuid),
        AddColumn True ''products'' (null_col ''image_file_id'' Uuid),
        CreateIndex True (plain_index ''IDX_users_avatar_file_id'' ''users'' [''avatar_file_id'']),
        CreateIndex True (plain_index ''IDX_products_image_file_id'' ''products'' [''image_file_id'']),
        AddForeignKey True ''users'' \<lparr>fk_name = ''FK_users_avatar_file'', fk_column = ''avatar_file_id'',
          fk_references = ''files'', fk_onDelete = SetNull\<rparr>,
        AddForeignKey True ''products'' \<lparr>fk_name = ''FK_products_image_file'', fk_column = ''image_file_id'',
          fk_references = ''files'', fk_onDelete = SetNull\<rparr>],
     mg_down =
       [DropConstraint True ''products'' ''FK_products_image_file'',
        DropConstraint True ''users'' ''FK_users_avatar_file'',
        DropIndex True ''IDX_products_image_file_id'', DropIndex True ''IDX_users_avatar_file_id'',
        DropColumn True ''products'' ''image_file_id'', DropColumn True ''users'' ''avatar_file_id'']\<rparr>"

definition AddPendingOrderStatus_migration :: migration where
  "AddPendingOrderStatus_migration = \<lparr>mg_name = ''AddPendingOrderStatus1770414000000'',
     mg_transaction = False,
     mg_up = [AddValue ''orders_status_enum'' ''PENDING'', SetDefault ''orders'' ''status'' ''PENDING''],
     mg_down = [SetDefault ''orders'' ''status'' ''CREATED'']\<rparr>"

definition AddProcessedStatus_migration :: migration where
  "AddProcessedStatus_migration = \<lparr>mg_name = ''AddProcessedStatusAndProcessedAt1770415000000'',
     mg_transaction = True,
     mg_up =
       [AddValue ''orders_status_enum'' ''PROCESSED'',
        AddColumn True ''orders'' (null_col ''processed_at'' Timestamptz)],
     mg_down = [DropColumn True ''orders'' ''processed_at'']\<rparr>"

definition AddProcessedMessages_migration :: migration where
  "AddProcessedMessages_migration = \<lparr>mg_name = ''AddProcessedMessagesTable1770416000000'',
     mg_transaction = True,
     mg_up =
       [CreateTable False (new_table ''processed_messages'' ''message_id''
          [col ''message_id'' Uuid, col ''order_id'' Uuid, null_col ''handler'' (Varchar 120),
           now_col ''processed_at'']),
        CreateIndex False (plain_index ''IDX_processed_messages_processed_at'' ''processed_messages''
          [''processed_at'']),
        AddForeignKey False ''processed_messages'' \<lparr>fk_name = ''FK_processed_messages_order_id'',
          fk_column = ''order_id'', fk_references = ''orders'', fk_onDelete = Cascade\<rparr>],
     mg_down =
       [DropConstraint False ''processed_messages'' ''FK_processed_messages_order_id'',
        DropIndex False ''IDX_processed_messages_processed_at'',
        DropTable False ''processed_messages'']\<rparr>"

definition migrations :: "migration list" where
  "migrations =
     [Init_migration, AddIndexes_migration, AddUserAuthColumns_migration,
      AddFileRecordTable_migration, AddDomainFileLinks_migration, AddPendingOrderStatus_migration,
      AddProcessedStatus_migration, AddProcessedMessages_migration]"

section \<open>Running them\<close>

fun exec_all :: "ddl list \<Rightarrow> (db_schema, unit) async" where
  "exec_all [] = resolve ()"
| "exec_all (d # ds) = await (exec d) (\<lambda>_. exec_all ds)"

definition settle :: "db_schema \<Rightarrow> db_schema" where
  "settle s = s\<lparr>sc_fresh := []\<rparr>"

text \<open>Each statement its own transaction, or all of them one.\<close>

fun exec_each :: "ddl list \<Rightarrow> (db_schema, unit) async" where
  "exec_each [] = resolve ()"
| "exec_each (d # ds) = await (exec d) (\<lambda>_. await (modify settle) (\<lambda>_. exec_each ds))"

definition in_transaction :: "(db_schema, unit) async \<Rightarrow> (db_schema, unit) async" where
  "in_transaction m =
     (\<lambda>s. case m s of (Inl e, t) \<Rightarrow> (Inl e, s) | (Inr u, t) \<Rightarrow> (Inr u, settle t))"

definition run_statements :: "bool \<Rightarrow> ddl list \<Rightarrow> (db_schema, unit) async" where
  "run_statements transaction ds = (if transaction then in_transaction (exec_all ds) else exec_each ds)"

definition migrate_up :: "migration \<Rightarrow> (db_schema, unit) async" where
  "migrate_up m = run_statements (mg_transaction m) (mg_up m)"

definition migrate_down :: "migration \<Rightarrow> (db_schema, unit) async" where
  "migrate_down m = run_statements (mg_transaction m) (mg_down m)"

fun migrate_all :: "migration list \<Rightarrow> (db_schema, unit) async" where
  "migrate_all [] = resolve ()"
| "migrate_all (m # ms) = await (migrate_up m) (\<lambda>_. migrate_all ms)"

fun revert_all :: "migration list \<Rightarrow> (db_schema, unit) async" where
  "revert_all [] = resolve ()"
| "revert_all (m # ms) = await (migrate_down m) (\<lambda>_. revert_all ms)"

section \<open>What the entities declare\<close>

record entity =
  en_table :: string
  en_primary :: string
  en_columns :: "column list"
  en_indexes :: "index list"
  en_relations :: "(string \<times> string \<times> on_delete) list"

definition User_entity :: entity where
  "User_entity = \<lparr>en_table = ''users'', en_primary = ''id'',
     en_columns =
       [id_col, col ''email'' (Varchar 320), null_col ''password_hash'' (Varchar 255),
        with_default (col ''roles'' TextArray) ''ARRAY[]::text[]'',
        with_default (col ''scopes'' TextArray) ''ARRAY[]::text[]'', null_col ''avatar_file_id'' Uuid,
        now_col ''created_at'', now_col ''updated_at''],
     en_indexes =
       [unique_index ''IDX_users_email_unique'' ''users'' [''email''],
        plain_index ''IDX_users_avatar_file_id'' ''users'' [''avatar_file_id'']],
     en_relations = []\<rparr>"

definition Product_entity :: entity where
  "Product_entity = \<lparr>en_table = ''products'', en_primary = ''id'',
     en_columns =
       [id_col, col ''name'' (Varchar 200), col ''sku'' (Varchar 64), null_col ''description'' Text,
        col ''price'' (Numeric 12 2), with_default (col ''stock'' IntegerT) ''0'',
        with_default (col ''is_active'' BooleanT) ''true'', null_col ''image_file_id'' Uuid,
        now_col ''created_at'', now_col ''updated_at''],
     en_indexes =
       [unique_index ''IDX_products_sku_unique'' ''products'' [''sku''],
        plain_index ''IDX_products_created_at'' ''products'' [''created_at''],
        plain_index ''IDX_products_image_file_id'' ''products'' [''image_file_id'']],
     en_relations = []\<rparr>"

definition Order_entity :: entity where
  "Order_entity = \<lparr>en_table = ''orders'', en_primary = ''id'',
     en_columns =
       [id_col, col ''user_id'' Uuid,
        with_default (col ''status'' (EnumT ''orders_status_enum'')) ''PENDING'',
        null_col ''idempotency_key'' (Varchar 120), now_col ''created_at'', now_col ''updated_at'',
        null_col ''processed_at'' Timestamptz],
     en_indexes =
       [plain_index ''IDX_orders_user_id'' ''orders'' [''user_id''],
        plain_index ''IDX_orders_created_at'' ''orders'' [''created_at''],
        unique_index ''IDX_orders_idempotency_key_unique'' ''orders'' [''idempotency_key'']],
     en_relations = [(''user_id'', ''users'', Cascade)]\<rparr>"

definition OrderItem_entity :: entity where
  "OrderItem_entity = \<lparr>en_table = ''order_items'', en_primary = ''id'',
     en_columns =
       [id_col, col ''order_id'' Uuid, col ''product_id'' Uuid, col ''quantity'' IntegerT,
        col ''price_snapshot'' (Numeric 12 2), now_col ''created_at'', now_col ''updated_at''],
     en_indexes =
       [plain_index ''IDX_order_items_order_id'' ''order_items'' [''order_id''],
        plain_index ''IDX_order_items_product_id'' ''order_items'' [''product_id'']],
     en_relations = [(''order_id'', ''orders'', Cascade), (''product_id'', ''products'', Restrict)]\<rparr>"

definition ProcessedMessage_entity :: entity where
  "ProcessedMessage_entity = \<lparr>en_table = ''processed_messages'', en_primary = ''message_id'',
     en_columns =
       [col ''message_id'' Uuid, col ''order_id'' Uuid, null_col ''handler'' (Varchar 120),
        now_col ''processed_at''],
     en_indexes = [plain_index ''IDX_processed_messages_processed_at'' ''processed_messages'' [''processed_at'']],
     en_relations = []\<rparr>"

definition FileRecord_entity :: entity where
  "FileRecord_entity = \<lparr>en_table = ''files'', en_primary = ''id'',
     en_columns =
       [id_col, col ''owner_id'' Uuid, null_col ''entity_id'' Uuid, col ''key'' (Varchar 512),
        col ''content_type'' (Varchar 120), col ''size'' IntegerT,
        with_default (col ''status'' (EnumT ''files_status_enum'')) ''pending'',
        with_default (col ''visibility'' (EnumT ''files_visibility_enum'')) ''private'',
        now_col ''created_at'', now_col ''updated_at''],
     en_indexes =
       [plain_index ''IDX_files_owner_id'' ''files'' [''owner_id''],
        plain_index ''IDX_files_entity_id'' ''files'' [''entity_id''],
        plain_index ''IDX_files_status'' ''files'' [''status''],
        plain_index ''IDX_files_visibility'' ''files'' [''visibility''],
        unique_index ''UQ_files_key'' ''files'' [''key'']],
     en_relations = []\<rparr>"

definition entities :: "entity list" where
  "entities = [User_entity, Product_entity, Order_entity, OrderItem_entity,
     ProcessedMessage_entity, FileRecord_entity]"

text \<open>A unique constraint is an index of its name.\<close>

definition all_indexes :: "db_schema \<Rightarrow> index list" where
  "all_indexes s = sc_indexes s @
     concat (map (\<lambda>tb. map (\<lambda>(n, c). unique_index n (tb_name tb) [c]) (tb_unique tb)) (sc_tables s))"

definition table_matches :: "db_schema \<Rightarrow> entity \<Rightarrow> bool" where
  "table_matches s e =
     (case find_table (en_table e) s of
        None \<Rightarrow> False
      | Some tb \<Rightarrow> tb_primary tb = en_primary e \<and> set (tb_columns tb) = set (en_columns e) \<and>
          length (tb_columns tb) = length (en_columns e) \<and>
          set (en_indexes e) \<subseteq> set (all_indexes s))"

text \<open>The relations that an entity declares and no foreign key enforces.\<close>

definition enforced :: "db_schema \<Rightarrow> string \<Rightarrow> (string \<times> string \<times> on_delete) set" where
  "enforced s t =
     (case find_table t s of
        None \<Rightarrow> {}
      | Some tb \<Rightarrow> set (map (\<lambda>fk. (fk_column fk, fk_references fk, fk_onDelete fk)) (tb_foreign_keys tb)))"

definition unenforced :: "db_schema \<Rightarrow> (string \<times> string) list" where
  "unenforced s = concat (map (\<lambda>e. map (\<lambda>r. (en_table e, fst r))
     (filter (\<lambda>r. r \<notin> enforced s (en_table e)) (en_relations e))) entities)"

section \<open>Reverting\<close>

text \<open>A schema reverted to an earlier one: the same, up to enum values added since.\<close>

definition reverted_to :: "db_schema \<Rightarrow> db_schema \<Rightarrow> bool" where
  "reverted_to s0 s \<longleftrightarrow>
     sc_tables s = sc_tables s0 \<and> sc_indexes s = sc_indexes s0 \<and>
     map fst (sc_types s) = map fst (sc_types s0) \<and>
     list_all (\<lambda>(e, vs). set vs \<subseteq> set (the (map_of (sc_types s) e))) (sc_types s0)"

text \<open>Up, the rest up and down, and down again, with the check on the way back.\<close>

fun there_and_back :: "migration list \<Rightarrow> db_schema \<Rightarrow> bool \<times> db_schema" where
  "there_and_back [] s = (reverted_to s s, s)"
| "there_and_back (m # ms) s =
     (case migrate_up m s of
        (Inl e, t) \<Rightarrow> (False, t)
      | (Inr u, t) \<Rightarrow>
          (case there_and_back ms t of (ok, t') \<Rightarrow>
             (case migrate_down m t' of
                (Inl e, r) \<Rightarrow> (False, r)
              | (Inr u, r) \<Rightarrow> (ok \<and> reverted_to s r, r))))"

lemma revert_all_append:
  "revert_all (ms @ [m]) s = await (revert_all ms) (\<lambda>_. migrate_down m) s"
  by (induction ms arbitrary: s) (simp_all add: await_def split: prod.split sum.split, simp add: resolve_def)

lemma there_and_back:
  assumes "there_and_back ms s = (True, r)"
  shows "\<exists>t. migrate_all ms s = (Inr (), t) \<and> revert_all (rev ms) t = (Inr (), r) \<and>
    (\<forall>i. i \<le> length ms \<longrightarrow> (\<exists>q. revert_all (rev (drop i ms)) t = (Inr (), q) \<and>
       reverted_to (snd (migrate_all (take i ms) s)) q))"
  using assms
proof (induction ms arbitrary: s r)
  case Nil
  then show ?case by (auto simp: resolve_def)
next
  case (Cons m ms)
  from Cons.prems obtain t where up: "migrate_up m s = (Inr (), t)"
    by (auto split: prod.splits sum.splits)
  with Cons.prems obtain t' where ret: "there_and_back ms t = (True, t')"
    and down: "migrate_down m t' = (Inr (), r)" and ok: "reverted_to s r"
    by (auto split: prod.splits sum.splits)
  from Cons.IH [OF ret] obtain u where u: "migrate_all ms t = (Inr (), u)"
    "revert_all (rev ms) u = (Inr (), t')"
    "\<And>i. i \<le> length ms \<Longrightarrow> \<exists>q. revert_all (rev (drop i ms)) u = (Inr (), q) \<and>
       reverted_to (snd (migrate_all (take i ms) t)) q" by blast
  have all: "revert_all (rev ms @ [m]) u = (Inr (), r)"
    using u(2) down by (simp add: revert_all_append await_def)
  have "\<exists>q. revert_all (rev (drop i (m # ms))) u = (Inr (), q) \<and>
      reverted_to (snd (migrate_all (take i (m # ms)) s)) q" if "i \<le> length (m # ms)" for i
    using that all ok u(3) up by (cases i) (simp_all add: async_simps await_def)
  with all u(1) up show ?case by (auto simp: await_def)
qed

section \<open>Properties\<close>


text \<open>
  The relation of an order item to its product, declared with \<open>RESTRICT\<close>, is the only one
  that no foreign key of the database enforces; the others are enforced with the declared
  action on deletion.
\<close>

theorem item_product_unenforced:
  "case migrate_all migrations empty_schema of (r, s) \<Rightarrow>
     unenforced s = [(''order_items'', ''product_id'')] \<and>
     enforced s ''order_items'' = {(''order_id'', ''orders'', Cascade)} \<and>
     enforced s ''orders'' = {(''user_id'', ''users'', Cascade)} \<and>
     enforced s ''processed_messages'' = {(''order_id'', ''orders'', Cascade)} \<and>
     enforced s ''files'' = {(''owner_id'', ''users'', Cascade)} \<and>
     enforced s ''users'' = {(''avatar_file_id'', ''files'', SetNull)} \<and>
     enforced s ''products'' = {(''image_file_id'', ''files'', SetNull)}"
  by code_simp

text \<open>
  C33. Reverting the migrations from the last one back to any earlier point succeeds and brings
  the tables, constraints, defaults and indexes back to what they were at that point, with the
  same enums; an enum may only have kept values added since.
\<close>

theorem migrations_roundtrip:
  assumes "i \<le> length migrations"
  shows "\<exists>s. revert_all (rev (drop i migrations)) (snd (migrate_all migrations empty_schema)) = (Inr (), s) \<and>
    reverted_to (snd (migrate_all (take i migrations) empty_schema)) s"
proof -
  have "fst (there_and_back migrations empty_schema)" by code_simp
  then obtain r where "there_and_back migrations empty_schema = (True, r)" by (metis (full_types) prod.collapse)
  from there_and_back [OF this] assms show ?thesis by auto
qed

theorem migrations_roundtrip_witness:
  "\<exists>s. revert_all (rev (drop 5 migrations)) (snd (migrate_all migrations empty_schema)) = (Inr (), s) \<and>
    reverted_to (snd (migrate_all (take 5 migrations) empty_schema)) s"
  by (rule migrations_roundtrip) (simp add: migrations_def)

text \<open>
  The migration that adds \<open>PENDING\<close> and makes it the default fails in a transaction, and
  then changes nothing; statement by statement, as it is configured, it succeeds.
\<close>

theorem pending_needs_no_transaction:
  "case migrate_all (take 5 migrations) empty_schema of (r, s) \<Rightarrow>
     run_statements True (mg_up AddPendingOrderStatus_migration) s =
       (Inl (DbError (Some ''55P04'') ''unsafe use of a new value of an enum''), s) \<and>
     fst (migrate_up AddPendingOrderStatus_migration s) = Inr ()"
  by code_simp

end
