(* ===== verification/Gateway.thy ===== *)
theory Gateway
  imports OrderQueries
begin

text \<open>
  The realtime gateway (\<^verbatim>\<open>src/realtime/orders.gateway.ts\<close>): connections, subscriptions with
  their rate limit, and the broadcast of status events. Its state is the data kept with each
  socket and the rooms of the socket server. The server's rooms, the verification of tokens
  and the database are arguments; one handler runs at a time.
\<close>

section \<open>What the gateway calls\<close>

record 'r io =
  io_join :: "string \<Rightarrow> string \<Rightarrow> 'r \<Rightarrow> 'r"
  io_leave :: "string \<Rightarrow> string \<Rightarrow> 'r \<Rightarrow> 'r"
  io_disconnect :: "string \<Rightarrow> 'r \<Rightarrow> 'r"
  io_emit :: "string \<Rightarrow> string \<Rightarrow> status_event \<Rightarrow> 'r \<Rightarrow> 'r"

text \<open>
  \<open>members\<close> and \<open>inbox\<close> are what the rooms stand for: the sockets in a room, and what a socket
  has been sent.
\<close>

locale socket_rooms =
  fixes io :: "'r io"
    and members :: "'r \<Rightarrow> string \<Rightarrow> string set"
    and inbox :: "'r \<Rightarrow> string \<Rightarrow> (string \<times> status_event) list"
  assumes join: "members (io_join io c r s) = (members s)(r := insert c (members s r))"
    and leave: "members (io_leave io c r s) = (members s)(r := members s r - {c})"
    and disconnect: "members (io_disconnect io c s) = (\<lambda>r. members s r - {c})"
    and emit_members: "members (io_emit io r n e s) = members s"
    and join_inbox: "inbox (io_join io c r s) = inbox s"
    and leave_inbox: "inbox (io_leave io c r s) = inbox s"
    and disconnect_inbox: "inbox (io_disconnect io c s) = inbox s"
    and emit: "inbox (io_emit io r n e s) =
      (\<lambda>c. if c \<in> members s r then inbox s c @ [(n, e)] else inbox s c)"

text \<open>Signing and verifying tokens, at a time.\<close>

record jwt_service =
  jwt_sign :: "int \<Rightarrow> auth_user \<Rightarrow> exn + string"
  jwt_verify :: "int \<Rightarrow> string \<Rightarrow> exn + auth_user"

section \<open>State\<close>

record handshake =
  hs_auth_token :: "json option"
  hs_authorization :: "string option"
  hs_query_token :: "json option"

record client_data =
  cd_user :: "auth_user option"
  cd_subscribeCalls :: "int list option"

record ('d, 'r) gateway =
  gw_db :: 'd
  gw_data :: "string \<Rightarrow> client_data"
  gw_rooms :: 'r

definition no_data :: client_data where
  "no_data = \<lparr>cd_user = None, cd_subscribeCalls = None\<rparr>"

definition set_data :: "string \<Rightarrow> (client_data \<Rightarrow> client_data) \<Rightarrow> ('d, 'r) gateway \<Rightarrow> ('d, 'r) gateway" where
  "set_data c f s = s\<lparr>gw_data := (gw_data s)(c := f (gw_data s c))\<rparr>"

definition set_rooms :: "('r \<Rightarrow> 'r) \<Rightarrow> ('d, 'r) gateway \<Rightarrow> ('d, 'r) gateway" where
  "set_rooms f s = s\<lparr>gw_rooms := f (gw_rooms s)\<rparr>"

definition gw_on_db :: "('d, 'a) async \<Rightarrow> (('d, 'r) gateway, 'a) async" where
  "gw_on_db = on_part gw_db (\<lambda>d s. s\<lparr>gw_db := d\<rparr>)"

section \<open>Connections\<close>

definition nonempty_string :: "json option \<Rightarrow> string option" where
  "nonempty_string v = (case v of Some (JStr s) \<Rightarrow> if s = [] then None else Some s | _ \<Rightarrow> None)"

definition bearer_token :: "string option \<Rightarrow> string option" where
  "bearer_token header =
     (case header of
        None \<Rightarrow> None
      | Some h \<Rightarrow> if startsWith (map lower_char h) ''bearer '' then Some (js_trim (drop 7 h)) else None)"

definition getTokenFromHandshake :: "handshake \<Rightarrow> string option" where
  "getTokenFromHandshake hs =
     nullish (nonempty_string (hs_auth_token hs))
       (nullish (bearer_token (hs_authorization hs)) (nonempty_string (hs_query_token hs)))"

definition client_disconnect :: "'r io \<Rightarrow> string \<Rightarrow> (('d, 'r) gateway, unit) async" where
  "client_disconnect io c = modify (set_rooms (io_disconnect io c))"

definition handleConnection ::
  "'r io \<Rightarrow> jwt_service \<Rightarrow> int \<Rightarrow> handshake \<Rightarrow> string \<Rightarrow> (('d, 'r) gateway, unit) async" where
  "handleConnection io jwt now hs c =
     (let token = getTokenFromHandshake hs in
      if \<not> truthy token then client_disconnect io c
      else
        (case jwt_verify jwt now (the token) of
           Inr payload \<Rightarrow>
             modify (set_data c (\<lambda>d. d\<lparr>cd_user := Some payload, cd_subscribeCalls := Some []\<rparr>))
         | Inl err \<Rightarrow> client_disconnect io c))"

definition handleDisconnect :: "string \<Rightarrow> (('d, 'r) gateway, unit) async" where
  "handleDisconnect c =
     modify (set_data c (\<lambda>d. d\<lparr>cd_subscribeCalls := map_option (\<lambda>_. []) (cd_subscribeCalls d)\<rparr>))"

section \<open>Subscriptions\<close>

text \<open>The rate limit on the data of one client: refused, or the calls of the window and this one.\<close>

definition windowMs :: int where "windowMs = 3000"

definition maxCalls :: nat where "maxCalls = 5"

definition rate_limit :: "int \<Rightarrow> int list option \<Rightarrow> bool \<times> int list option" where
  "rate_limit now calls =
     (let recent = filter (\<lambda>t. now - t < windowMs) (case calls of None \<Rightarrow> [] | Some ts \<Rightarrow> ts) in
      if length recent \<ge> maxCalls then (False, Some recent) else (True, Some (recent @ [now])))"

definition assertRateLimit :: "int \<Rightarrow> string \<Rightarrow> (('d, 'r) gateway, unit) async" where
  "assertRateLimit now c =
     await (gets (\<lambda>s. rate_limit now (cd_subscribeCalls (gw_data s c)))) (\<lambda>(ok, calls).
     await (modify (set_data c (\<lambda>d. d\<lparr>cd_subscribeCalls := calls\<rparr>))) (\<lambda>_.
       if ok then resolve () else throw (WsException ''Rate limit exceeded'')))"

definition orderRoom :: "string \<Rightarrow> string" where
  "orderRoom orderId = ''order:'' @ orderId"

text \<open>\<open>payload?.orderId\<close>, which has to be a string that is not empty.\<close>

definition payload_orderId :: "json option \<Rightarrow> string option" where
  "payload_orderId payload = nonempty_string (Option.bind payload (\<lambda>p. property p ''orderId''))"

definition subscribeOrder ::
  "'d store \<Rightarrow> 'r io \<Rightarrow> int \<Rightarrow> string \<Rightarrow> json option \<Rightarrow> (('d, 'r) gateway, unit) async" where
  "subscribeOrder db io now c payload =
     await (assertRateLimit now c) (\<lambda>_.
       case payload_orderId payload of
         None \<Rightarrow> throw (WsException ''orderId is required'')
       | Some orderId \<Rightarrow>
           await (gets (\<lambda>s. cd_user (gw_data s c))) (\<lambda>user.
             case user of
               None \<Rightarrow> throw (WsException ''Unauthenticated'')
             | Some u \<Rightarrow>
                 await (try_catch (gw_on_db (canSubscribeToOrder db orderId u))
                   (\<lambda>err. throw (WsException (exn_message err)))) (\<lambda>_.
                 modify (set_rooms (io_join io c (orderRoom orderId))))))"

definition unsubscribeOrder ::
  "'r io \<Rightarrow> string \<Rightarrow> json option \<Rightarrow> (('d, 'r) gateway, unit) async" where
  "unsubscribeOrder io c payload =
     (case payload_orderId payload of
        None \<Rightarrow> throw (WsException ''orderId is required'')
      | Some orderId \<Rightarrow> modify (set_rooms (io_leave io c (orderRoom orderId))))"

definition emitOrderStatus :: "'r io \<Rightarrow> status_event \<Rightarrow> (('d, 'r) gateway, unit) async" where
  "emitOrderStatus io event =
     modify (set_rooms (io_emit io (orderRoom (se_orderId event)) ''order.status'' event))"

section \<open>Sequences of handlers\<close>

text \<open>
  What happens to the gateway: its handlers, an event of the subscription made by
  \<open>onModuleInit\<close>, a socket that goes away, and anything other components do to the database.
\<close>

datatype 'd gateway_action =
    Connection int handshake string
  | Subscribe int string "json option"
  | Unsubscribe string "json option"
  | Gone string
  | OrderEvent status_event
  | Elsewhere "'d \<Rightarrow> 'd"

fun gateway_step ::
  "'d store \<Rightarrow> 'r io \<Rightarrow> jwt_service \<Rightarrow> 'd gateway_action \<Rightarrow> (('d, 'r) gateway, unit) async" where
  "gateway_step db io jwt (Connection now hs c) = handleConnection io jwt now hs c"
| "gateway_step db io jwt (Subscribe now c payload) = subscribeOrder db io now c payload"
| "gateway_step db io jwt (Unsubscribe c payload) = unsubscribeOrder io c payload"
| "gateway_step db io jwt (Gone c) =
     await (modify (set_rooms (io_disconnect io c))) (\<lambda>_. handleDisconnect c)"
| "gateway_step db io jwt (OrderEvent e) = emitOrderStatus io e"
| "gateway_step db io jwt (Elsewhere f) = modify (\<lambda>s. s\<lparr>gw_db := f (gw_db s)\<rparr>)"

fun gateway_run ::
  "'d store \<Rightarrow> 'r io \<Rightarrow> jwt_service \<Rightarrow> 'd gateway_action list \<Rightarrow> ('d, 'r) gateway \<Rightarrow> ('d, 'r) gateway" where
  "gateway_run db io jwt [] s = s"
| "gateway_run db io jwt (a # acts) s = gateway_run db io jwt acts (snd (gateway_step db io jwt a s))"

end
