(* ===== verification/GatewayProperties.thy ===== *)
theory GatewayProperties
  imports Gateway
begin

text \<open>
  Properties of the gateway: the rate limit is a sliding window, a client is sent the events of
  an order only after it was let into the order's room, and what a subscription answers.
\<close>

section \<open>Rooms over lists\<close>

record list_rooms =
  lr_members :: "(string \<times> string) list"
  lr_sent :: "(string \<times> string \<times> status_event) list"

definition ref_io :: "list_rooms io" where
  "ref_io =
     \<lparr>io_join = (\<lambda>c r s. s\<lparr>lr_members := (c, r) # lr_members s\<rparr>),
      io_leave = (\<lambda>c r s. s\<lparr>lr_members := removeAll (c, r) (lr_members s)\<rparr>),
      io_disconnect = (\<lambda>c s. s\<lparr>lr_members := filter (\<lambda>m. fst m \<noteq> c) (lr_members s)\<rparr>),
      io_emit = (\<lambda>r n e s. s\<lparr>lr_sent := lr_sent s @
        map (\<lambda>c. (c, n, e)) (remdups (map fst (filter (\<lambda>m. snd m = r) (lr_members s))))\<rparr>)\<rparr>"

definition ref_members :: "list_rooms \<Rightarrow> string \<Rightarrow> string set" where
  "ref_members s r = {c. (c, r) \<in> set (lr_members s)}"

definition ref_inbox :: "list_rooms \<Rightarrow> string \<Rightarrow> (string \<times> status_event) list" where
  "ref_inbox s c = map snd (filter (\<lambda>m. fst m = c) (lr_sent s))"

lemma filter_distinct_single:
  "distinct cs \<Longrightarrow> map snd (filter (\<lambda>m. fst m = c) (map (\<lambda>c. (c, x)) cs)) = (if c \<in> set cs then [x] else [])"
  by (induction cs) auto

interpretation ref_rooms: socket_rooms ref_io ref_members ref_inbox
proof unfold_locales
  show "ref_inbox (io_emit ref_io r n e s) =
      (\<lambda>c. if c \<in> ref_members s r then ref_inbox s c @ [(n, e)] else ref_inbox s c)" for r n e s
  proof
    fix c
    let ?cs = "remdups (map fst (filter (\<lambda>m. snd m = r) (lr_members s)))"
    have "c \<in> set ?cs \<longleftrightarrow> c \<in> ref_members s r" by (force simp: ref_members_def)
    with filter_distinct_single [of ?cs c "(n, e)"]
    show "ref_inbox (io_emit ref_io r n e s) c =
        (if c \<in> ref_members s r then ref_inbox s c @ [(n, e)] else ref_inbox s c)"
      by (simp add: ref_inbox_def ref_io_def)
  qed
qed (auto simp: ref_io_def ref_members_def ref_inbox_def fun_eq_iff)

section \<open>The rate limit\<close>

text \<open>The specification: the last calls let in decide, however long ago the others were.\<close>

definition in_window :: "int \<Rightarrow> int list \<Rightarrow> nat" where
  "in_window now ts = length (filter (\<lambda>t. now - t < windowMs) ts)"

fun sliding_window :: "int list \<Rightarrow> int list \<Rightarrow> int list" where
  "sliding_window admitted [] = []"
| "sliding_window admitted (t # ts) =
     (if in_window t admitted < maxCalls then t # sliding_window (admitted @ [t]) ts
      else sliding_window admitted ts)"

text \<open>The times at which the code lets the calls of a client through, in a sequence of handlers.\<close>

definition calls_of :: "string \<Rightarrow> 'd gateway_action \<Rightarrow> int list" where
  "calls_of c a = (case a of Subscribe now c' p \<Rightarrow> if c' = c then [now] else [] | _ \<Rightarrow> [])"

definition resets :: "string \<Rightarrow> 'd gateway_action \<Rightarrow> bool" where
  "resets c a = (case a of Connection now hs c' \<Rightarrow> c' = c | Gone c' \<Rightarrow> c' = c | _ \<Rightarrow> False)"

fun admitted ::
  "'d store \<Rightarrow> 'r io \<Rightarrow> jwt_service \<Rightarrow> string \<Rightarrow> 'd gateway_action list \<Rightarrow> ('d, 'r) gateway \<Rightarrow> int list" where
  "admitted db io jwt c [] s = []"
| "admitted db io jwt c (a # acts) s =
     filter (\<lambda>now. fst (assertRateLimit now c s) = Inr ()) (calls_of c a) @
     admitted db io jwt c acts (snd (gateway_step db io jwt a s))"

lemma set_data_simps [simp]:
  "gw_db (set_data c f s) = gw_db s" "gw_rooms (set_data c f s) = gw_rooms s"
  "gw_data (set_data c f s) c' = (if c' = c then f (gw_data s c) else gw_data s c')"
  by (simp_all add: set_data_def)

lemma set_rooms_simps [simp]:
  "gw_db (set_rooms g s) = gw_db s" "gw_rooms (set_rooms g s) = g (gw_rooms s)"
  "gw_data (set_rooms g s) = gw_data s"
  by (simp_all add: set_rooms_def)

lemma rate_limit_run:
  "assertRateLimit now c s =
     (if fst (rate_limit now (cd_subscribeCalls (gw_data s c))) then Inr () else Inl (WsException ''Rate limit exceeded''),
      set_data c (\<lambda>d. d\<lparr>cd_subscribeCalls := snd (rate_limit now (cd_subscribeCalls (gw_data s c)))\<rparr>) s)"
  by (simp add: assertRateLimit_def await_def async_simps split: prod.split)

lemma gw_on_db_run: "m (gw_db s) = (r, d) \<Longrightarrow> gw_on_db m s = (r, s\<lparr>gw_db := d\<rparr>)"
  by (simp add: gw_on_db_def on_part_def)

text \<open>A subscription past its rate limit: nothing more, or into the room.\<close>

lemma subscribe_cases:
  obtains (refused) e where "subscribeOrder db io now c payload s =
      (Inl e, snd (assertRateLimit now c s))"
  | (denied) e oid u e' d where "canSubscribeToOrder db oid u (gw_db s) = (Inl e', d)" "subscribeOrder db io now c payload s =
      (Inl e, (snd (assertRateLimit now c s))\<lparr>gw_db := d\<rparr>)"
  | (joined) oid u d where "fst (assertRateLimit now c s) = Inr ()" "payload_orderId payload = Some oid"
      "cd_user (gw_data s c) = Some u" "canSubscribeToOrder db oid u (gw_db s) = (Inr (), d)"
      "subscribeOrder db io now c payload s =
        (Inr (), set_rooms (io_join io c (orderRoom oid)) ((snd (assertRateLimit now c s))\<lparr>gw_db := d\<rparr>))"
proof -
  obtain r s1 where run: "assertRateLimit now c s = (r, s1)" by fastforce
  then have s1: "snd (assertRateLimit now c s) = s1" by simp
  then have same: "cd_user (gw_data s1 c) = cd_user (gw_data s c)" "gw_db s1 = gw_db s"
    by (auto simp: rate_limit_run)
  show ?thesis
  proof (cases r)
    case (Inl e)
    with run have "subscribeOrder db io now c payload s = (Inl e, s1)"
      by (simp add: subscribeOrder_def await_def)
    then show ?thesis using s1 refused by simp
  next
    case (Inr x)
    then have ok: "fst (assertRateLimit now c s) = Inr ()" using run by (metis fst_conv old.unit.exhaust)
    show ?thesis
    proof (cases "payload_orderId payload")
      case None
      with run Inr have "subscribeOrder db io now c payload s = (Inl (WsException ''orderId is required''), s1)"
        by (simp add: subscribeOrder_def await_def async_simps)
      then show ?thesis using s1 refused by simp
    next
      case oid: (Some oid)
      show ?thesis
      proof (cases "cd_user (gw_data s c)")
        case None
        with run Inr oid same have "subscribeOrder db io now c payload s = (Inl (WsException ''Unauthenticated''), s1)"
          by (simp add: subscribeOrder_def await_def async_simps)
        then show ?thesis using s1 refused by simp
      next
        case user: (Some u)
        obtain v d where can: "canSubscribeToOrder db oid u (gw_db s) = (v, d)" by fastforce
        with same have on: "gw_on_db (canSubscribeToOrder db oid u) s1 = (v, s1\<lparr>gw_db := d\<rparr>)"
          by (simp add: gw_on_db_run)
        show ?thesis
        proof (cases v)
          case (Inl e)
          with run Inr oid user same on have "subscribeOrder db io now c payload s =
              (Inl (WsException (exn_message e)), s1\<lparr>gw_db := d\<rparr>)"
            by (simp add: subscribeOrder_def await_def try_catch_def async_simps)
          then show ?thesis using s1 denied can Inl by simp
        next
          case yes: (Inr y)
          with run Inr oid user same on have "subscribeOrder db io now c payload s =
              (Inr (), set_rooms (io_join io c (orderRoom oid)) (s1\<lparr>gw_db := d\<rparr>))"
            by (simp add: subscribeOrder_def await_def try_catch_def async_simps)
          with ok oid user can yes show ?thesis using s1 joined by simp
        qed
      qed
    qed
  qed
qed

lemma step_calls:
  assumes "\<not> resets c a"
  shows "cd_subscribeCalls (gw_data (snd (gateway_step db io jwt a s)) c) =
    (case calls_of c a of [] \<Rightarrow> cd_subscribeCalls (gw_data s c)
     | now # _ \<Rightarrow> snd (rate_limit now (cd_subscribeCalls (gw_data s c))))"
proof (cases a)
  case (Connection now hs c')
  with assms show ?thesis
    by (auto simp: resets_def calls_of_def handleConnection_def client_disconnect_def Let_def async_simps
        split: sum.split)
next
  case (Subscribe now c' p)
  have "cd_subscribeCalls (gw_data (snd (assertRateLimit now c' s)) c) =
    (if c' = c then snd (rate_limit now (cd_subscribeCalls (gw_data s c))) else cd_subscribeCalls (gw_data s c))"
    by (simp add: rate_limit_run)
  with Subscribe show ?thesis
    by (cases rule: subscribe_cases [of db io now c' p s]) (simp_all add: calls_of_def)
qed (use assms in \<open>auto simp: resets_def calls_of_def unsubscribeOrder_def emitOrderStatus_def handleDisconnect_def
    async_simps
    split: option.split\<close>)

definition call_list :: "int list option \<Rightarrow> int list" where
  "call_list calls = (case calls of None \<Rightarrow> [] | Some ts \<Rightarrow> ts)"

text \<open>From a time on, a list of calls shows the same recent calls as another.\<close>

definition same_recent :: "int \<Rightarrow> int list \<Rightarrow> int list \<Rightarrow> bool" where
  "same_recent lo xs ys \<longleftrightarrow>
     (\<forall>now \<ge> lo. filter (\<lambda>t. now - t < windowMs) xs = filter (\<lambda>t. now - t < windowMs) ys)"

lemma same_recent_refl: "same_recent lo xs xs"
  by (simp add: same_recent_def)

lemma same_recent_filter:
  "same_recent lo xs ys \<Longrightarrow> lo \<le> now \<Longrightarrow>
   same_recent now (filter (\<lambda>t. now - t < windowMs) xs @ zs) (ys @ zs)"
  by (auto simp: same_recent_def intro!: filter_cong)

lemma rate_limit_window:
  assumes "same_recent lo (call_list calls) adm" and "lo \<le> now"
  shows "fst (rate_limit now calls) \<longleftrightarrow> in_window now adm < maxCalls"
    and "same_recent now (call_list (snd (rate_limit now calls)))
      (if in_window now adm < maxCalls then adm @ [now] else adm)"
proof -
  let ?recent = "filter (\<lambda>t. now - t < windowMs) (call_list calls)"
  have recent: "length ?recent = in_window now adm"
    using assms by (simp add: same_recent_def in_window_def)
  have run: "rate_limit now calls =
      (if maxCalls \<le> length ?recent then (False, Some ?recent) else (True, Some (?recent @ [now])))"
    by (simp add: rate_limit_def call_list_def Let_def)
  show "fst (rate_limit now calls) \<longleftrightarrow> in_window now adm < maxCalls"
    using recent run by auto
  show "same_recent now (call_list (snd (rate_limit now calls)))
      (if in_window now adm < maxCalls then adm @ [now] else adm)"
  proof (cases "in_window now adm < maxCalls")
    case True
    with run recent same_recent_filter [OF assms, of "[now]"] show ?thesis
      by (simp add: call_list_def)
  next
    case False
    with run recent same_recent_filter [OF assms, of "[]"] show ?thesis
      by (simp add: call_list_def)
  qed
qed

lemma admitted_window:
  assumes "\<forall>a \<in> set acts. \<not> resets c a"
    and "sorted (lo # concat (map (calls_of c) acts))"
    and "same_recent lo (call_list (cd_subscribeCalls (gw_data s c))) adm"
  shows "admitted db io jwt c acts s = sliding_window adm (concat (map (calls_of c) acts))"
  using assms
proof (induction acts arbitrary: lo s adm)
  case Nil
  then show ?case by simp
next
  case (Cons a acts)
  let ?s = "snd (gateway_step db io jwt a s)"
  have step: "cd_subscribeCalls (gw_data ?s c) =
    (case calls_of c a of [] \<Rightarrow> cd_subscribeCalls (gw_data s c)
     | now # _ \<Rightarrow> snd (rate_limit now (cd_subscribeCalls (gw_data s c))))"
    using Cons.prems(1) by (intro step_calls) simp
  show ?case
  proof (cases "calls_of c a")
    case Nil
    have "admitted db io jwt c acts ?s = sliding_window adm (concat (map (calls_of c) acts))"
      by (rule Cons.IH [of lo]) (use Cons.prems step Nil in auto)
    with Nil show ?thesis by simp
  next
    case (Cons now rest)
    then have one: "calls_of c a = [now]" by (auto simp: calls_of_def split: gateway_action.splits if_splits)
    have lo: "lo \<le> now" and sorted: "sorted (now # concat (map (calls_of c) acts))"
      using Cons.prems(2) one by simp_all
    note window = rate_limit_window [OF Cons.prems(3) lo]
    have "fst (assertRateLimit now c s) = Inr () \<longleftrightarrow> in_window now adm < maxCalls"
      using window(1) by (simp add: rate_limit_run)
    moreover have "admitted db io jwt c acts ?s =
        sliding_window (if in_window now adm < maxCalls then adm @ [now] else adm)
          (concat (map (calls_of c) acts))"
      by (rule Cons.IH [OF _ sorted]) (use Cons.prems(1) window(2) step one in auto)
    ultimately show ?thesis using one by simp
  qed
qed

lemma sliding_window_bound:
  assumes "\<And>a. length (filter (\<lambda>t. a \<le> t \<and> t < a + windowMs) adm) \<le> maxCalls"
  shows "length (filter (\<lambda>t. a \<le> t \<and> t < a + windowMs) (adm @ sliding_window adm ts)) \<le> maxCalls"
  using assms
proof (induction ts arbitrary: adm)
  case Nil
  then show ?case by simp
next
  case (Cons t ts)
  show ?case
  proof (cases "in_window t adm < maxCalls")
    case True
    have "length (filter (\<lambda>x. b \<le> x \<and> x < b + windowMs) (adm @ [t])) \<le> maxCalls" for b
    proof (cases "b \<le> t \<and> t < b + windowMs")
      case inside: True
      then have "filter (\<lambda>x. b \<le> x \<and> x < b + windowMs) adm =
          filter (\<lambda>x. b \<le> x \<and> x < b + windowMs) (filter (\<lambda>x. t - x < windowMs) adm)"
        by (auto intro!: filter_cong)
      then have "length (filter (\<lambda>x. b \<le> x \<and> x < b + windowMs) adm) \<le> in_window t adm"
        unfolding in_window_def by (metis length_filter_le)
      with True inside show ?thesis by simp
    next
      case outside: False
      then have "filter (\<lambda>x. b \<le> x \<and> x < b + windowMs) (adm @ [t]) =
          filter (\<lambda>x. b \<le> x \<and> x < b + windowMs) adm" by auto
      with Cons.prems [of b] show ?thesis by simp
    qed
    from Cons.IH [OF this] True show ?thesis by simp
  qed (use Cons in simp)
qed

lemma admitted_from_start:
  assumes "\<forall>a \<in> set acts. \<not> resets c a" and "sorted (concat (map (calls_of c) acts))"
    and "cd_subscribeCalls (gw_data s c) \<in> {None, Some []}"
  shows "admitted db io jwt c acts s = sliding_window [] (concat (map (calls_of c) acts))"
proof -
  have "\<exists>lo. sorted (lo # xs)" if "sorted xs" for xs :: "int list"
  proof (cases xs)
    case (Cons x ys)
    with that have "sorted (x # xs)" by simp
    then show ?thesis by blast
  qed simp
  then obtain lo where "sorted (lo # concat (map (calls_of c) acts))" using assms(2) by blast
  moreover have "call_list (cd_subscribeCalls (gw_data s c)) = []"
    using assms(3) by (auto simp: call_list_def)
  ultimately show ?thesis
    using admitted_window [OF assms(1)] same_recent_refl by metis
qed

text \<open>
  C34. While a client neither reconnects nor goes away and the clock does not go back, exactly
  those of its subscriptions pass the rate limit that a sliding window over the calls let in
  lets in, whatever other clients, events and the database do in between.
\<close>

theorem rate_limit_is_sliding_window:
  assumes "\<forall>a \<in> set acts. \<not> resets c a" and "sorted (concat (map (calls_of c) acts))"
    and "cd_subscribeCalls (gw_data s c) \<in> {None, Some []}"
  shows "admitted db io jwt c acts s = sliding_window [] (concat (map (calls_of c) acts))"
  by (rule admitted_from_start [OF assms])

text \<open>A client passes the rate limit at most five times in any three seconds.\<close>

theorem rate_limit_bound:
  assumes "\<forall>a \<in> set acts. \<not> resets c a" and "sorted (concat (map (calls_of c) acts))"
    and "cd_subscribeCalls (gw_data s c) \<in> {None, Some []}"
  shows "length (filter (\<lambda>t. from_ms \<le> t \<and> t < from_ms + 3000) (admitted db io jwt c acts s)) \<le> 5"
proof -
  have "admitted db io jwt c acts s = sliding_window [] (concat (map (calls_of c) acts))"
    by (rule admitted_from_start [OF assms])
  then show ?thesis
    using sliding_window_bound [of "[]" from_ms "concat (map (calls_of c) acts)"]
    by (simp add: windowMs_def maxCalls_def)
qed

section \<open>Who is sent an event\<close>

lemma gateway_run_append:
  "gateway_run db io jwt (as @ bs) s = gateway_run db io jwt bs (gateway_run db io jwt as s)"
  by (induction as arbitrary: s) simp_all

text \<open>A token that verified when the client connected.\<close>

definition verified :: "jwt_service \<Rightarrow> 'd gateway_action list \<Rightarrow> string \<Rightarrow> auth_user \<Rightarrow> bool" where
  "verified jwt acts c u \<longleftrightarrow>
     (\<exists>now hs token. Connection now hs c \<in> set acts \<and> getTokenFromHandshake hs = Some token \<and>
        jwt_verify jwt now token = Inr u)"

text \<open>
  A client let into the room of an order: it subscribed, as a user who had verified, when the
  order was there and the user's own, or the user was staff.
\<close>

definition let_in ::
  "'d store \<Rightarrow> 'r io \<Rightarrow> jwt_service \<Rightarrow> ('d \<Rightarrow> tables) \<Rightarrow> 'd gateway_action list \<Rightarrow> ('d, 'r) gateway \<Rightarrow>
   string \<Rightarrow> string \<Rightarrow> bool" where
  "let_in db io jwt tabs acts s c oid \<longleftrightarrow>
     (\<exists>before now payload later u r.
        acts = before @ Subscribe now c payload # later \<and> payload_orderId payload = Some oid \<and>
        verified jwt before c u \<and>
        t_orders (tabs (gw_db (gateway_run db io jwt before s))) oid = Some r \<and>
        (isStaff (au_roles u) \<or> o_userId r = au_sub u))"

lemma let_in_mono: "let_in db io jwt tabs acts s c oid \<Longrightarrow> let_in db io jwt tabs (acts @ [a]) s c oid"
  unfolding let_in_def by (metis append_Cons append_assoc)

lemma verified_mono: "verified jwt acts c u \<Longrightarrow> verified jwt (acts @ [a]) c u"
  by (auto simp: verified_def)

lemma orderRoom_inject [simp]: "orderRoom a = orderRoom b \<longleftrightarrow> a = b"
  by (simp add: orderRoom_def)

lemma can_subscribe_run:
  assumes rel: "relational_store db tabs tx" and idle: "tx d = Idle"
    and run: "canSubscribeToOrder db oid u d = (v, d')"
  shows "tabs d' = tabs d \<and> tx d' = Idle \<and>
    (v = Inr () \<longrightarrow> (\<exists>r. t_orders (tabs d) oid = Some r \<and> (isStaff (au_roles u) \<or> o_userId r = au_sub u)))"
proof -
  obtain x s1 where find: "repo_findOrderRow db oid d = (x, s1)" by fastforce
  show ?thesis
  proof (cases x)
    case (Inl e)
    with op_spec_Inl [OF relational_store.findOrderRow [OF rel], of d oid e s1] find idle run show ?thesis
      by (auto simp: canSubscribeToOrder_def await_run)
  next
    case (Inr y)
    from op_spec_Inr [OF relational_store.findOrderRow [OF rel] _ find [unfolded Inr]] idle have
      row: "y = t_orders (tabs d) oid" "tabs s1 = tabs d" "tx s1 = Idle" by simp_all
    have rest: "(case y of None \<Rightarrow> throw (NotFoundException ''Order not found'')
        | Some r \<Rightarrow> check (assertCanAccessOrder r u)) s1 = (v, d')"
      using run find Inr by (simp add: canSubscribeToOrder_def await_run)
    show ?thesis
    proof (cases y)
      case None
      with rest row show ?thesis by (auto simp: async_simps)
    next
      case (Some r)
      with rest have "check (assertCanAccessOrder r u) s1 = (v, d')" by simp
      with Some row show ?thesis
        by (auto simp: async_simps check_def assertCanAccessOrder_def split: if_splits)
    qed
  qed
qed

definition gateway_inv ::
  "'d store \<Rightarrow> 'r io \<Rightarrow> jwt_service \<Rightarrow> ('d \<Rightarrow> tables) \<Rightarrow> ('d \<Rightarrow> tables txn) \<Rightarrow>
   ('r \<Rightarrow> string \<Rightarrow> string set) \<Rightarrow> ('r \<Rightarrow> string \<Rightarrow> (string \<times> status_event) list) \<Rightarrow>
   'd gateway_action list \<Rightarrow> ('d, 'r) gateway \<Rightarrow> ('d, 'r) gateway \<Rightarrow> bool" where
  "gateway_inv db io jwt tabs tx members inbox acts s s' \<longleftrightarrow>
     tx (gw_db s') = Idle \<and>
     (\<forall>c u. cd_user (gw_data s' c) = Some u \<longrightarrow> verified jwt acts c u) \<and>
     (\<forall>c oid. c \<in> members (gw_rooms s') (orderRoom oid) \<longrightarrow> let_in db io jwt tabs acts s c oid) \<and>
     (\<forall>c n e. (n, e) \<in> set (inbox (gw_rooms s') c) \<longrightarrow>
        n = ''order.status'' \<and> let_in db io jwt tabs acts s c (se_orderId e))"

lemma gateway_inv_rooms:
  assumes "gateway_inv db io jwt tabs tx members inbox acts s s'"
    and "tx (gw_db s2) = Idle" and "\<And>c. cd_user (gw_data s2 c) \<in> {None, cd_user (gw_data s' c)}"
    and "\<And>r. members (gw_rooms s2) r \<subseteq> members (gw_rooms s') r"
    and "inbox (gw_rooms s2) = inbox (gw_rooms s')"
  shows "gateway_inv db io jwt tabs tx members inbox (acts @ [a]) s s2"
proof -
  have "verified jwt (acts @ [a]) c u" if "cd_user (gw_data s2 c) = Some u" for c u
  proof -
    have "cd_user (gw_data s' c) = Some u" using assms(3) [of c] that by auto
    with assms(1) have "verified jwt acts c u" unfolding gateway_inv_def by blast
    then show ?thesis by (rule verified_mono)
  qed
  moreover have "let_in db io jwt tabs (acts @ [a]) s c oid" if "c \<in> members (gw_rooms s2) (orderRoom oid)" for c oid
    using assms(1) assms(4) [of "orderRoom oid"] that let_in_mono unfolding gateway_inv_def by blast
  moreover have "n = ''order.status'' \<and> let_in db io jwt tabs (acts @ [a]) s c (se_orderId e)"
    if "(n, e) \<in> set (inbox (gw_rooms s2) c)" for c n e
    using assms(1,5) that let_in_mono unfolding gateway_inv_def by metis
  ultimately show ?thesis using assms(2) unfolding gateway_inv_def by blast
qed

lemma set_gw_db_simps [simp]:
  "gw_data (s\<lparr>gw_db := d\<rparr>) = gw_data s" "gw_rooms (s\<lparr>gw_db := d\<rparr>) = gw_rooms s"
  by simp_all

lemma rate_limit_same [simp]:
  "gw_db (snd (assertRateLimit now c s)) = gw_db s"
  "gw_rooms (snd (assertRateLimit now c s)) = gw_rooms s"
  "cd_user (gw_data (snd (assertRateLimit now c s)) c') = cd_user (gw_data s c')"
  by (simp_all add: rate_limit_run)

lemma gateway_inv_step:
  assumes rooms: "socket_rooms io members inbox" and rel: "relational_store db tabs tx"
    and inv: "gateway_inv db io jwt tabs tx members inbox acts s (gateway_run db io jwt acts s)"
    and other: "\<And>f d. a = Elsewhere f \<Longrightarrow> tx d = Idle \<Longrightarrow> tx (f d) = Idle"
  shows "gateway_inv db io jwt tabs tx members inbox (acts @ [a]) s
    (snd (gateway_step db io jwt a (gateway_run db io jwt acts s)))"
proof -
  define s' where "s' = gateway_run db io jwt acts s"
  have idle: "tx (gw_db s') = Idle" using inv unfolding s'_def gateway_inv_def by blast
  note frame = gateway_inv_rooms [OF inv [folded s'_def]]
  note io_laws = socket_rooms.leave [OF rooms] socket_rooms.disconnect [OF rooms]
    socket_rooms.leave_inbox [OF rooms] socket_rooms.disconnect_inbox [OF rooms]
  show ?thesis unfolding s'_def [symmetric]
  proof (cases a)
    case (Connection now hs c)
    show "gateway_inv db io jwt tabs tx members inbox (acts @ [a]) s (snd (gateway_step db io jwt a s'))"
    proof (cases "truthy (getTokenFromHandshake hs) \<and>
        (\<exists>u. jwt_verify jwt now (the (getTokenFromHandshake hs)) = Inr u)")
      case False
      then have "snd (gateway_step db io jwt a s') = set_rooms (io_disconnect io c) s'"
        using Connection
        by (auto simp: handleConnection_def client_disconnect_def Let_def async_simps split: sum.split)
      then show ?thesis using idle by (intro frame) (auto simp: io_laws)
    next
      case True
      then obtain token u where ok: "getTokenFromHandshake hs = Some token" "jwt_verify jwt now token = Inr u"
        by (auto elim: truthyE)
      with True have step: "snd (gateway_step db io jwt a s') =
          set_data c (\<lambda>d. d\<lparr>cd_user := Some u, cd_subscribeCalls := Some []\<rparr>) s'"
        using Connection by (auto simp: handleConnection_def Let_def async_simps)
      have "verified jwt (acts @ [a]) c u" using ok Connection by (auto simp: verified_def)
      moreover have "gateway_inv db io jwt tabs tx members inbox (acts @ [a]) s s'"
        using idle by (intro frame) simp_all
      ultimately show ?thesis unfolding step gateway_inv_def by auto
    qed
  next
    case (Subscribe now c payload)
    show "gateway_inv db io jwt tabs tx members inbox (acts @ [a]) s (snd (gateway_step db io jwt a s'))"
    proof (cases rule: subscribe_cases [of db io now c payload s'])
      case (refused e)
      then show ?thesis using Subscribe idle by (intro frame) simp_all
    next
      case (denied e oid u e' d)
      with can_subscribe_run [OF rel idle denied(1)] Subscribe show ?thesis by (intro frame) simp_all
    next
      case (joined oid u d)
      from can_subscribe_run [OF rel idle joined(4)] obtain r where
        r: "tx d = Idle" "t_orders (tabs (gw_db s')) oid = Some r" "isStaff (au_roles u) \<or> o_userId r = au_sub u"
        by auto
      have "verified jwt acts c u" using inv joined(3) unfolding s'_def gateway_inv_def by blast
      with joined(2) r(2,3) Subscribe have
        granted: "let_in db io jwt tabs (acts @ [a]) s c oid" unfolding let_in_def s'_def by blast
      let ?s2 = "(snd (assertRateLimit now c s'))\<lparr>gw_db := d\<rparr>"
      have "gateway_inv db io jwt tabs tx members inbox (acts @ [a]) s ?s2"
        using r(1) by (intro frame) simp_all
      with granted joined(5) Subscribe show ?thesis
        by (auto simp: gateway_inv_def socket_rooms.join [OF rooms] socket_rooms.join_inbox [OF rooms]
            simp del: set_gw_db_simps split: if_splits)
    qed
  next
    case (Unsubscribe c payload)
    then show "gateway_inv db io jwt tabs tx members inbox (acts @ [a]) s (snd (gateway_step db io jwt a s'))"
      using idle by (intro frame) (auto simp: unsubscribeOrder_def async_simps io_laws split: option.split if_splits)
  next
    case (Gone c)
    then show "gateway_inv db io jwt tabs tx members inbox (acts @ [a]) s (snd (gateway_step db io jwt a s'))"
      using idle by (intro frame) (auto simp: handleDisconnect_def async_simps io_laws)
  next
    case (OrderEvent e)
    show "gateway_inv db io jwt tabs tx members inbox (acts @ [a]) s (snd (gateway_step db io jwt a s'))"
    proof -
      have "gateway_inv db io jwt tabs tx members inbox (acts @ [a]) s s'"
        using idle by (intro frame) simp_all
      moreover have "snd (gateway_step db io jwt a s') =
          set_rooms (io_emit io (orderRoom (se_orderId e)) ''order.status'' e) s'"
        using OrderEvent by (simp add: emitOrderStatus_def async_simps)
      ultimately show ?thesis
        by (auto simp: gateway_inv_def socket_rooms.emit [OF rooms] socket_rooms.emit_members [OF rooms]
            split: if_splits)
    qed
  next
    case (Elsewhere f)
    then show "gateway_inv db io jwt tabs tx members inbox (acts @ [a]) s (snd (gateway_step db io jwt a s'))"
      using idle other by (intro frame) (auto simp: async_simps)
  qed
qed

lemma gateway_run_inv:
  assumes "socket_rooms io members inbox" and "relational_store db tabs tx"
    and start: "gateway_inv db io jwt tabs tx members inbox [] s s"
    and other: "\<And>f d. Elsewhere f \<in> set acts \<Longrightarrow> tx d = Idle \<Longrightarrow> tx (f d) = Idle"
  shows "gateway_inv db io jwt tabs tx members inbox acts s (gateway_run db io jwt acts s)"
  using other
proof (induction acts rule: rev_induct)
  case Nil
  with start show ?case by simp
next
  case (snoc a acts)
  then have "gateway_inv db io jwt tabs tx members inbox acts s (gateway_run db io jwt acts s)" by simp
  from gateway_inv_step [OF assms(1,2) this] snoc.prems show ?case
    by (simp add: gateway_run_append)
qed

definition fresh_gateway :: "'d \<Rightarrow> 'r \<Rightarrow> ('d, 'r) gateway" where
  "fresh_gateway d rooms = \<lparr>gw_db = d, gw_data = (\<lambda>c. no_data), gw_rooms = rooms\<rparr>"

text \<open>
  C23. From a fresh start, whatever clients, events and other components do: what a client is
  sent are status events, and for the order of each of them the client had subscribed before,
  under a token that verified when it connected, at a time when the order was there and its
  user's own or the user was staff.
\<close>

theorem events_reach_subscribers:
  assumes "socket_rooms io members inbox" and "relational_store db tabs tx"
    and "tx d = Idle" and "\<forall>oid. members rooms (orderRoom oid) = {}" and "\<forall>c. inbox rooms c = []"
    and "\<forall>f d. Elsewhere f \<in> set acts \<longrightarrow> tx d = Idle \<longrightarrow> tx (f d) = Idle"
    and "(n, e) \<in> set (inbox (gw_rooms (gateway_run db io jwt acts (fresh_gateway d rooms))) c)"
  shows "n = ''order.status'' \<and> let_in db io jwt tabs acts (fresh_gateway d rooms) c (se_orderId e)"
proof -
  have "gateway_inv db io jwt tabs tx members inbox [] (fresh_gateway d rooms) (fresh_gateway d rooms)"
    using assms(3-5) by (auto simp: gateway_inv_def fresh_gateway_def no_data_def)
  from gateway_run_inv [OF assms(1,2) this] assms(6,7) show ?thesis
    unfolding gateway_inv_def by blast
qed

text \<open>The checks of a subscription, in their order.\<close>

definition subscription_answer :: "int \<Rightarrow> string \<Rightarrow> client_data \<Rightarrow> tables \<Rightarrow> exn + unit" where
  "subscription_answer now oid data T =
     (if in_window now (call_list (cd_subscribeCalls data)) \<ge> 5
        then Inl (WsException ''Rate limit exceeded'')
      else if oid = [] then Inl (WsException ''orderId is required'')
      else case cd_user data of
          None \<Rightarrow> Inl (WsException ''Unauthenticated'')
        | Some u \<Rightarrow>
            (case t_orders T oid of
               None \<Rightarrow> Inl (WsException ''Order not found'')
             | Some r \<Rightarrow> if isStaff (au_roles u) \<or> o_userId r = au_sub u then Inr ()
                 else Inl (WsException ''Access denied'')))"

text \<open>
  What a subscription answers, on a database that fails only on constraints: the checks in
  their order, and the client is in the room exactly when it answers without an error.
\<close>

theorem subscribe_contract:
  assumes "socket_rooms io members inbox" and "reliable_store db tabs tx fits" and "tx (gw_db s) = Idle"
    and "c \<notin> members (gw_rooms s) (orderRoom oid)" and "payload = Some (JObj [(''orderId'', JStr oid)])"
    and "subscribeOrder db io now c payload s = (v, s')"
  shows "v = subscription_answer now oid (gw_data s c) (tabs (gw_db s)) \<and>
    (c \<in> members (gw_rooms s') (orderRoom oid) \<longleftrightarrow> v = Inr ())"
proof -
  have rel: "relational_store db tabs tx" using assms(2) by (rule reliable_store.axioms(1))
  let ?calls = "cd_subscribeCalls (gw_data s c)"
  have limit: "fst (rate_limit now ?calls) \<longleftrightarrow> \<not> in_window now (call_list ?calls) \<ge> 5"
    using rate_limit_window(1) [OF same_recent_refl order_refl, of now ?calls] by (auto simp: maxCalls_def)
  obtain r s1 where rate: "assertRateLimit now c s = (r, s1)" by fastforce
  then have s1: "r = (if fst (rate_limit now ?calls) then Inr () else Inl (WsException ''Rate limit exceeded''))"
    "gw_db s1 = gw_db s" "gw_rooms s1 = gw_rooms s" "cd_user (gw_data s1 c) = cd_user (gw_data s c)"
    by (auto simp: rate_limit_run)
  have pid: "payload_orderId payload = (if oid = [] then None else Some oid)"
    using assms(5) by (simp add: payload_orderId_def nonempty_string_def)
  note run = assms(6) [unfolded subscribeOrder_def]
  show ?thesis
  proof (cases "fst (rate_limit now ?calls) \<and> oid \<noteq> [] \<and> cd_user (gw_data s c) \<noteq> None")
    case False
    with run rate s1 limit pid assms(4) show ?thesis
      by (auto simp: await_def async_simps subscription_answer_def split: if_splits)
  next
    case True
    then obtain u where u: "cd_user (gw_data s c) = Some u" by auto
    obtain w d where can: "canSubscribeToOrder db oid u (gw_db s) = (w, d)" by fastforce
    obtain x sd where find: "repo_findOrderRow db oid (gw_db s) = (Inr x, sd)"
      using reliable_store.works_findOrderRow [OF assms(2,3), of oid] by (auto simp: works_def)
    from op_spec_Inr [OF relational_store.findOrderRow [OF rel] _ find] assms(3) have
      "x = t_orders (tabs (gw_db s)) oid" by simp
    with find can have w: "w = (case t_orders (tabs (gw_db s)) oid of
        None \<Rightarrow> Inl (NotFoundException ''Order not found'')
      | Some r \<Rightarrow> if isStaff (au_roles u) \<or> o_userId r = au_sub u then Inr ()
          else Inl (ForbiddenException ''Access denied''))"
      by (auto simp: canSubscribeToOrder_def await_run async_simps check_def assertCanAccessOrder_def
          split: option.split if_splits)
    have on: "gw_on_db (canSubscribeToOrder db oid u) s1 = (w, s1\<lparr>gw_db := d\<rparr>)"
      using can s1(2) by (simp add: gw_on_db_run)
    have v: "v = (case w of Inl e \<Rightarrow> Inl (WsException (exn_message e)) | Inr y \<Rightarrow> Inr ()) \<and>
      (c \<in> members (gw_rooms s') (orderRoom oid) \<longleftrightarrow> v = Inr ())"
      using run rate s1 True u pid on assms(4)
      by (cases w) (auto simp: await_def try_catch_def async_simps socket_rooms.join [OF assms(1)])
    with w True limit u show ?thesis by (auto simp: subscription_answer_def split: option.split)
  qed
qed

section \<open>Witnesses\<close>

definition demo_auth :: auth_user where
  "demo_auth = \<lparr>au_sub = ''u1'', au_email = ''u1@example.com'', au_roles = [''user''], au_scopes = []\<rparr>"

definition demo_jwt :: jwt_service where
  "demo_jwt = \<lparr>jwt_sign = (\<lambda>now u. Inr ''t1''),
     jwt_verify = (\<lambda>now t. if t = ''t1'' then Inr demo_auth else Inl (JsError ''invalid token''))\<rparr>"

definition demo_handshake :: handshake where
  "demo_handshake = \<lparr>hs_auth_token = Some (JStr ''t1''), hs_authorization = None, hs_query_token = None\<rparr>"

definition demo_rooms :: list_rooms where
  "demo_rooms = \<lparr>lr_members = [], lr_sent = []\<rparr>"

definition demo_payload :: "json option" where
  "demo_payload = Some (JObj [(''orderId'', JStr ''o1'')])"

definition demo_acts :: "ref_db gateway_action list" where
  "demo_acts = [Connection 0 demo_handshake ''c1'', Subscribe 10 ''c1'' demo_payload,
     OrderEvent (demo_event 1)]"

definition demo_gateway :: "(ref_db, list_rooms) gateway" where
  "demo_gateway = fresh_gateway (demo_db [demo_order None]) demo_rooms"

lemma demo_sent:
  "ref_inbox (gw_rooms (gateway_run ref_store ref_io demo_jwt demo_acts demo_gateway)) ''c1'' =
     [(''order.status'', demo_event 1)]"
  by (simp add: demo_acts_def demo_gateway_def fresh_gateway_def no_data_def handleConnection_def
      getTokenFromHandshake_def nonempty_string_def demo_handshake_def demo_jwt_def demo_rooms_def
      subscribeOrder_def assertRateLimit_def rate_limit_def maxCalls_def payload_orderId_def
      demo_payload_def gw_on_db_def on_part_def canSubscribeToOrder_def ref_store_def check_def
      assertCanAccessOrder_def demo_auth_def emitOrderStatus_def ref_io_def ref_inbox_def demo_event_def
      await_def try_catch_def async_simps demo_db_def row_map_def visible_def)

theorem events_reach_subscribers_witness:
  "let_in ref_store ref_io demo_jwt ref_tabs demo_acts demo_gateway ''c1'' ''o1''"
proof -
  have "(''order.status'', demo_event 1) \<in>
      set (ref_inbox (gw_rooms (gateway_run ref_store ref_io demo_jwt demo_acts demo_gateway)) ''c1'')"
    by (simp add: demo_sent)
  from events_reach_subscribers [OF ref_rooms.socket_rooms_axioms ref.relational_store_axioms _ _ _ _
      this [unfolded demo_gateway_def]]
  show ?thesis
    by (auto simp: demo_rooms_def ref_members_def ref_inbox_def demo_acts_def demo_gateway_def demo_event_def)
qed

theorem subscribe_contract_witness:
  "fst (subscribeOrder ref_store ref_io 10 ''c1'' demo_payload demo_gateway) =
     Inl (WsException ''Unauthenticated'')"
  using subscribe_contract [OF ref_rooms.socket_rooms_axioms ref.reliable_store_axioms _ _ demo_payload_def,
      of demo_gateway "''c1''" 10, OF _ _ surjective_pairing]
  by (simp add: demo_gateway_def fresh_gateway_def no_data_def demo_rooms_def ref_members_def
      subscription_answer_def in_window_def call_list_def)

theorem rate_limit_is_sliding_window_witness:
  "admitted ref_store ref_io demo_jwt ''c1'' [Subscribe 10 ''c1'' None, OrderEvent (demo_event 1), Subscribe 20 ''c1'' None]
     demo_gateway = [10, 20]"
  by (subst rate_limit_is_sliding_window)
    (simp_all add: resets_def calls_of_def demo_gateway_def fresh_gateway_def no_data_def in_window_def
      maxCalls_def)

theorem rate_limit_bound_witness:
  "length (filter (\<lambda>t. 0 \<le> t \<and> t < 0 + 3000) (admitted ref_store ref_io demo_jwt ''c1''
     (map (\<lambda>t. Subscribe t ''c1'' None) [1, 2, 3, 4, 5, 6, 7]) demo_gateway)) \<le> 5"
  by (rule rate_limit_bound)
    (simp_all add: resets_def calls_of_def demo_gateway_def fresh_gateway_def no_data_def)

end
