(* ===== verification/FilesStore.thy ===== *)
theory FilesStore
  imports Store
begin

text \<open>
  The repositories the files service calls, as operations over the database, and the effects
  documented for them: a failed operation leaves the tables alone, an insert respects the
  unique key and the owner's foreign key, an update says how many rows it changed.
\<close>

record new_file =
  nf_ownerId :: string
  nf_entityId :: "string option"
  nf_key :: string
  nf_contentType :: string
  nf_size :: int
  nf_status :: file_status
  nf_visibility :: file_visibility

record 'd files_store =
  files_findOne :: "string \<Rightarrow> ('d, file_record option) async"
  files_insert :: "new_file \<Rightarrow> ('d, file_record) async"
  files_save :: "file_record \<Rightarrow> ('d, file_record) async"
  products_exist :: "string \<Rightarrow> ('d, bool) async"
  users_setAvatar :: "string \<Rightarrow> string \<Rightarrow> ('d, nat option) async"
  products_setImage :: "string \<Rightarrow> string \<Rightarrow> ('d, nat option) async"

definition file_added :: "new_file \<Rightarrow> tables \<Rightarrow> file_record \<Rightarrow> tables \<Rightarrow> bool" where
  "file_added n T f T' \<longleftrightarrow>
     t_files T (f_id f) = None \<and> t_users T (nf_ownerId n) \<noteq> None \<and>
     (\<forall>i g. t_files T i = Some g \<longrightarrow> f_key g \<noteq> nf_key n) \<and>
     f_ownerId f = nf_ownerId n \<and> f_entityId f = nf_entityId n \<and> f_key f = nf_key n \<and>
     f_contentType f = nf_contentType n \<and> f_size f = nf_size n \<and> f_status f = nf_status n \<and>
     f_visibility f = nf_visibility n \<and>
     T' = T\<lparr>t_files := (t_files T)(f_id f \<mapsto> f)\<rparr>"

definition file_saved :: "file_record \<Rightarrow> tables \<Rightarrow> file_record \<Rightarrow> tables \<Rightarrow> bool" where
  "file_saved f T f' T' \<longleftrightarrow>
     (t_files T (f_id f) \<noteq> None \<longrightarrow>
        (\<exists>u. f' = f\<lparr>f_updatedAt := u\<rparr>) \<and> T' = T\<lparr>t_files := (t_files T)(f_id f \<mapsto> f')\<rparr>)"

definition avatar_set :: "string \<Rightarrow> string \<Rightarrow> tables \<Rightarrow> nat option \<Rightarrow> tables \<Rightarrow> bool" where
  "avatar_set uid fid T n T' \<longleftrightarrow>
     (case t_users T uid of
        None \<Rightarrow> n = Some 0 \<and> T' = T
      | Some u \<Rightarrow> n = Some 1 \<and> t_files T fid \<noteq> None \<and>
          (\<exists>ts. T' = T\<lparr>t_users := (t_users T)(uid \<mapsto> u\<lparr>u_avatarFileId := Some fid, u_updatedAt := ts\<rparr>)\<rparr>))"

definition image_set :: "string \<Rightarrow> string \<Rightarrow> tables \<Rightarrow> nat option \<Rightarrow> tables \<Rightarrow> bool" where
  "image_set pid fid T n T' \<longleftrightarrow>
     (case t_products T pid of
        None \<Rightarrow> n = Some 0 \<and> T' = T
      | Some p \<Rightarrow> n = Some 1 \<and> t_files T fid \<noteq> None \<and>
          (\<exists>ts. T' = T\<lparr>t_products := (t_products T)(pid \<mapsto> p\<lparr>p_imageFileId := Some fid, p_updatedAt := ts\<rparr>)\<rparr>))"

locale files_database =
  fixes fs :: "'d files_store" and tabs :: "'d \<Rightarrow> tables" and tx :: "'d \<Rightarrow> tables txn"
  assumes findOne: "op_spec tabs tx ((=) Idle) (files_findOne fs i) (reads (\<lambda>T v. v = t_files T i))"
    and insert: "op_spec tabs tx ((=) Idle) (files_insert fs n) (file_added n)"
    and save: "op_spec tabs tx ((=) Idle) (files_save fs f) (file_saved f)"
    and exist: "op_spec tabs tx ((=) Idle) (products_exist fs p) (reads (\<lambda>T v. v = (t_products T p \<noteq> None)))"
    and setAvatar: "op_spec tabs tx ((=) Idle) (users_setAvatar fs uid fid) (avatar_set uid fid)"
    and setImage: "op_spec tabs tx ((=) Idle) (products_setImage fs pid fid) (image_set pid fid)"

text \<open>A file's own identifier is its key in the table, and no two files have the same object key.\<close>

definition files_schema :: "tables \<Rightarrow> bool" where
  "files_schema T \<longleftrightarrow>
     (\<forall>i f. t_files T i = Some f \<longrightarrow> f_id f = i) \<and>
     (\<forall>i j f g. t_files T i = Some f \<longrightarrow> t_files T j = Some g \<longrightarrow> f_key f = f_key g \<longrightarrow> i = j)"

end
