(* ===== verification/S3.thy ===== *)
theory S3
  imports Rabbit
begin

text \<open>
  The object storage client (\<^verbatim>\<open>src/files/s3.service.ts\<close>): its configuration, presigned
  uploads, the existence check and the public address of a key. The AWS SDK is an argument: a
  request for an object's head, and signing a request.
\<close>

section \<open>The SDK\<close>

record put_object =
  po_bucket :: string
  po_key :: string
  po_contentType :: string
  po_contentLength :: int

record 's s3_client =
  s3_head :: "string \<Rightarrow> string \<Rightarrow> ('s, unit) async"
  s3_getSignedUrl :: "put_object \<Rightarrow> jsnum \<Rightarrow> ('s, string) async"

section \<open>Configuration\<close>

record s3_config =
  s3_region :: string
  s3_bucket :: string
  s3_cloudfrontBaseUrl :: "string option"
  s3_defaultExpiresInSec :: jsnum
  s3_credentials :: "(string \<times> string) option"

definition trimTrailingSlash :: "string option \<Rightarrow> string option" where
  "trimTrailingSlash input =
     (if \<not> truthy input then input
      else Some (rev (dropWhile (\<lambda>c. c = CHR ''/'') (rev (the input)))))"

definition s3_config_of :: "settings \<Rightarrow> exn + s3_config" where
  "s3_config_of config =
     (case config ''AWS_S3_BUCKET'' of
        None \<Rightarrow> Inl (TypeError ''Configuration key AWS_S3_BUCKET does not exist'')
      | Some bucket \<Rightarrow>
          (let accessKeyId = config ''AWS_ACCESS_KEY_ID'';
               secretAccessKey = config ''AWS_SECRET_ACCESS_KEY'' in
           Inr \<lparr>s3_region = the (nullish (config ''AWS_REGION'') (Some ''eu-central-1'')),
             s3_bucket = bucket,
             s3_cloudfrontBaseUrl =
               trimTrailingSlash (nullish (config ''CLOUDFRONT_BASE_URL'') (config ''AWS_CLOUDFRONT_URL'')),
             s3_defaultExpiresInSec =
               (case config ''FILES_PRESIGN_EXPIRES_IN_SEC'' of None \<Rightarrow> Fin 900 | Some v \<Rightarrow> js_Number v),
             s3_credentials = (if truthy accessKeyId \<and> truthy secretAccessKey
               then Some (the accessKeyId, the secretAccessKey) else None)\<rparr>))"

section \<open>Operations\<close>

record presign_args =
  pa_key :: string
  pa_contentType :: string
  pa_sizeBytes :: int
  pa_expiresInSec :: "jsnum option"

definition presignPutObject ::
  "'s s3_client \<Rightarrow> s3_config \<Rightarrow> presign_args \<Rightarrow> ('s, string \<times> jsnum) async" where
  "presignPutObject s3 cfg args =
     (let expiresInSec = the (nullish (pa_expiresInSec args) (Some (s3_defaultExpiresInSec cfg))) in
      await (s3_getSignedUrl s3
        \<lparr>po_bucket = s3_bucket cfg, po_key = pa_key args, po_contentType = pa_contentType args,
         po_contentLength = pa_sizeBytes args\<rparr> expiresInSec)
      (\<lambda>uploadUrl. resolve (uploadUrl, expiresInSec)))"

text \<open>\<open>error?.$metadata?.httpStatusCode ?? error?.statusCode\<close>\<close>

definition error_status :: "exn \<Rightarrow> int option" where
  "error_status e = (case e of SdkError metadata status m \<Rightarrow> nullish metadata status | _ \<Rightarrow> None)"

definition objectExists :: "'s s3_client \<Rightarrow> s3_config \<Rightarrow> string \<Rightarrow> ('s, bool) async" where
  "objectExists s3 cfg key =
     try_catch (await (s3_head s3 (s3_bucket cfg) key) (\<lambda>_. resolve True))
       (\<lambda>error. if error_status error = Some 404 then resolve False else throw error)"

definition s3_buildPublicUrl :: "s3_config \<Rightarrow> string \<Rightarrow> string" where
  "s3_buildPublicUrl cfg key =
     (if truthy (s3_cloudfrontBaseUrl cfg) then the (s3_cloudfrontBaseUrl cfg) @ ''/'' @ key
      else ''https://'' @ s3_bucket cfg @ ''.s3.'' @ s3_region cfg @ ''.amazonaws.com/'' @ key)"

definition getBucketName :: "s3_config \<Rightarrow> string" where
  "getBucketName cfg = s3_bucket cfg"

section \<open>Lemmas\<close>

lemma trim_no_slash:
  assumes "trimTrailingSlash input = Some u" and "u \<noteq> []"
  shows "last u \<noteq> CHR ''/''"
proof -
  obtain v where v: "input = Some v" "v \<noteq> []" "u = rev (dropWhile (\<lambda>c. c = CHR ''/'') (rev v))"
    using assms by (auto simp: trimTrailingSlash_def split: if_splits elim: truthyE)
  with assms(2) have "dropWhile (\<lambda>c. c = CHR ''/'') (rev v) \<noteq> []" by simp
  from hd_dropWhile [OF this] v(3) show ?thesis by (simp add: last_rev)
qed

lemma trim_prefix:
  assumes "trimTrailingSlash input = Some u"
  shows "\<exists>n. input = Some (u @ replicate n (CHR ''/''))"
proof (cases "truthy input")
  case False
  with assms show ?thesis by (auto simp: trimTrailingSlash_def intro: exI [of _ 0])
next
  case True
  then obtain v where v: "input = Some v" by (auto elim: truthyE)
  let ?slash = "\<lambda>c. c = CHR ''/''"
  have slashes: "takeWhile ?slash xs = replicate (length (takeWhile ?slash xs)) (CHR ''/'')" for xs
    by (induction xs) auto
  have "rev u = dropWhile ?slash (rev v)" using assms True v by (auto simp: trimTrailingSlash_def)
  then have "rev v = replicate (length (takeWhile ?slash (rev v))) (CHR ''/'') @ rev u"
    using takeWhile_dropWhile_id [of ?slash "rev v"] slashes [of "rev v"] by simp
  then have "v = u @ replicate (length (takeWhile (\<lambda>c. c = CHR ''/'') (rev v))) (CHR ''/'')"
    by (metis rev_append rev_replicate rev_rev_ident)
  with v show ?thesis by blast
qed

lemma objectExists_run:
  assumes "objectExists s3 cfg key s = (Inr b, t)"
  shows "b = (fst (s3_head s3 (s3_bucket cfg) key s) = Inr ())"
  using assms
  by (cases "s3_head s3 (s3_bucket cfg) key s")
    (auto simp: objectExists_def await_def try_catch_def async_simps split: sum.splits if_splits)

end
