(* ===== verification/Files.thy ===== *)
theory Files
  imports FilesStore S3
begin

text \<open>
  The files service (\<^verbatim>\<open>src/files/files.service.ts\<close>): presigned uploads, completing an upload
  and binding it to a user or a product, and reading a file's record. Its world is the
  database and the object storage.
\<close>

section \<open>The world of the service\<close>

record ('d, 's) files_world =
  fw_db :: 'd
  fw_s3 :: 's

record ('d, 's) files_deps =
  fd_store :: "'d files_store"
  fd_s3 :: "'s s3_client"
  fd_config :: s3_config

definition fw_on_db :: "('d, 'a) async \<Rightarrow> (('d, 's) files_world, 'a) async" where
  "fw_on_db = on_part fw_db (\<lambda>d w. w\<lparr>fw_db := d\<rparr>)"

definition fw_on_s3 :: "('s, 'a) async \<Rightarrow> (('d, 's) files_world, 'a) async" where
  "fw_on_s3 = on_part fw_s3 (\<lambda>s w. w\<lparr>fw_s3 := s\<rparr>)"

definition check_files :: "exn option \<Rightarrow> ('w, unit) async" where
  "check_files e = (case e of None \<Rightarrow> resolve () | Some x \<Rightarrow> throw x)"

section \<open>Checks\<close>

definition allowed_content_types :: "string list" where
  "allowed_content_types = [''image/jpeg'', ''image/png'', ''image/webp'']"

definition extension_by_type :: "string \<rightharpoonup> string" where
  "extension_by_type = [''image/jpeg'' \<mapsto> ''jpg'', ''image/png'' \<mapsto> ''png'', ''image/webp'' \<mapsto> ''webp'']"

definition maxImageBytes :: int where
  "maxImageBytes = 5 * 1024 * 1024"

record presign_file_dto =
  pf_contentType :: string
  pf_sizeBytes :: jsnum
  pf_kind :: string
  pf_productId :: "string option"

definition assertCanPresign :: "auth_user \<Rightarrow> string \<Rightarrow> exn option" where
  "assertCanPresign user kind =
     (if \<not> list_ex (\<lambda>role. role \<in> set [''user'', ''support'', ''admin'']) (au_roles user) then
        Some (ForbiddenException ''Role is not allowed to upload files'')
      else if ''admin'' \<in> set (au_roles user) then None
      else if \<not> (''files:write'' \<in> set (au_scopes user) \<or>
          (kind = ''product-image'' \<and> ''products:images:write'' \<in> set (au_scopes user))) then
        Some (ForbiddenException ''Insufficient scope for file upload'')
      else None)"

fun join_with :: "string \<Rightarrow> string list \<Rightarrow> string" where
  "join_with sep [] = []"
| "join_with sep [x] = x"
| "join_with sep (x # xs) = x @ sep @ join_with sep xs"

definition size_number :: "jsnum \<Rightarrow> int" where
  "size_number x = js_floor x"

definition js_gt :: "jsnum \<Rightarrow> int \<Rightarrow> bool" where
  "js_gt x n = (case x of Fin q \<Rightarrow> q > of_int n | PosInf \<Rightarrow> True | _ \<Rightarrow> False)"

definition validateUploadInput ::
  "'d files_store \<Rightarrow> presign_file_dto \<Rightarrow> (('d, 's) files_world, unit) async" where
  "validateUploadInput fs dto =
     (if pf_contentType dto \<notin> set allowed_content_types then
        throw (BadRequestException (''Unsupported contentType. Allowed: '' @ join_with '', '' allowed_content_types))
      else if \<not> isInteger (pf_sizeBytes dto) \<or> js_le0 (pf_sizeBytes dto) then
        throw (BadRequestException ''sizeBytes must be a positive integer'')
      else if js_gt (pf_sizeBytes dto) maxImageBytes then
        throw (BadRequestException (''Max file size is '' @ string_of_int maxImageBytes @ '' bytes''))
      else if pf_kind dto \<noteq> ''avatar'' \<and> pf_kind dto \<noteq> ''product-image'' then
        throw (BadRequestException ''Unsupported kind'')
      else if pf_kind dto = ''avatar'' \<and> truthy (pf_productId dto) then
        throw (BadRequestException ''productId is not allowed for avatar uploads'')
      else if pf_kind dto = ''product-image'' then
        (if \<not> truthy (pf_productId dto) then
           throw (BadRequestException ''productId is required for product-image uploads'')
         else
           await (fw_on_db (products_exist fs (the (pf_productId dto)))) (\<lambda>productExists.
             if \<not> productExists then throw (NotFoundException ''Product not found'') else resolve ()))
      else resolve ())"

text \<open>\<open>fileId\<close> is the identifier drawn.\<close>

definition buildObjectKey ::
  "string \<Rightarrow> string \<Rightarrow> string \<Rightarrow> string option \<Rightarrow> string \<Rightarrow> exn + string" where
  "buildObjectKey kind userId contentType productId fileId =
     (let ext = the (nullish (extension_by_type contentType) (Some ''bin'')) in
      if kind = ''avatar'' then Inr (''users/'' @ userId @ ''/avatars/'' @ fileId @ ''.'' @ ext)
      else if \<not> truthy productId then
        Inl (BadRequestException ''productId is required for product-image uploads'')
      else Inr (''products/'' @ the productId @ ''/images/'' @ fileId @ ''.'' @ ext))"

definition assertOwnerOrStaff :: "file_record \<Rightarrow> auth_user \<Rightarrow> exn option" where
  "assertOwnerOrStaff file user =
     (let isOwner = f_ownerId file = au_sub user;
          isStaff = ''admin'' \<in> set (au_roles user) \<or> ''support'' \<in> set (au_roles user) in
      if \<not> isOwner \<and> \<not> isStaff then Some (ForbiddenException ''Access denied'') else None)"

definition assertOwner :: "file_record \<Rightarrow> auth_user \<Rightarrow> exn option" where
  "assertOwner file user =
     (if f_ownerId file \<noteq> au_sub user
      then Some (ForbiddenException ''File does not belong to current user'') else None)"

definition assertAvatarKeyBelongsToOwner :: "string \<Rightarrow> string \<Rightarrow> exn option" where
  "assertAvatarKeyBelongsToOwner key userId =
     (if \<not> startsWith key (''users/'' @ userId @ ''/avatars/'')
      then Some (BadRequestException ''File key does not match avatar binding'') else None)"

definition assertProductKeyMatchesTarget :: "string \<Rightarrow> string \<Rightarrow> exn option" where
  "assertProductKeyMatchesTarget key productId =
     (if \<not> startsWith key (''products/'' @ productId @ ''/images/'')
      then Some (BadRequestException ''File key does not match product-image binding'') else None)"

definition findByIdOrThrow :: "'d files_store \<Rightarrow> string \<Rightarrow> (('d, 's) files_world, file_record) async" where
  "findByIdOrThrow fs fileId =
     await (fw_on_db (files_findOne fs fileId)) (\<lambda>file.
       case file of None \<Rightarrow> throw (NotFoundException ''File not found'') | Some f \<Rightarrow> resolve f)"

section \<open>Operations\<close>

record presigned_upload =
  pu_fileId :: string
  pu_key :: string
  pu_uploadUrl :: string
  pu_contentType :: string
  pu_publicUrl :: string
  pu_uploadMethod :: string
  pu_expiresInSec :: jsnum

definition createPresignedUpload ::
  "('d, 's) files_deps \<Rightarrow> string \<Rightarrow> auth_user \<Rightarrow> presign_file_dto \<Rightarrow>
   (('d, 's) files_world, presigned_upload) async" where
  "createPresignedUpload deps fileId user dto =
     await (check_files (assertCanPresign user (pf_kind dto))) (\<lambda>_.
     await (validateUploadInput (fd_store deps) dto) (\<lambda>_.
       case buildObjectKey (pf_kind dto) (au_sub user) (pf_contentType dto) (pf_productId dto) fileId of
         Inl e \<Rightarrow> throw e
       | Inr key \<Rightarrow>
           await (fw_on_db (files_insert (fd_store deps)
             \<lparr>nf_ownerId = au_sub user,
              nf_entityId = (if pf_kind dto = ''product-image'' then pf_productId dto else None),
              nf_key = key, nf_contentType = pf_contentType dto,
              nf_size = size_number (pf_sizeBytes dto), nf_status = FileStatus_PENDING,
              nf_visibility = FileVisibility_PRIVATE\<rparr>)) (\<lambda>saved.
           await (fw_on_s3 (presignPutObject (fd_s3 deps) (fd_config deps)
             \<lparr>pa_key = f_key saved, pa_contentType = f_contentType saved,
              pa_sizeBytes = f_size saved, pa_expiresInSec = None\<rparr>)) (\<lambda>(uploadUrl, expiresInSec).
           resolve
             \<lparr>pu_fileId = f_id saved, pu_key = f_key saved, pu_uploadUrl = uploadUrl,
              pu_contentType = f_contentType saved,
              pu_publicUrl = s3_buildPublicUrl (fd_config deps) (f_key saved),
              pu_uploadMethod = ''PUT'', pu_expiresInSec = expiresInSec\<rparr>))))"

record complete_upload_dto =
  cu_fileId :: string
  cu_bindTo :: string
  cu_productId :: "string option"

text \<open>
  The record is written through the service's reference to it: \<open>attachFileToDomain\<close> sets the
  entity of the file it was given, so the file is its result.
\<close>

definition attachFileToDomain ::
  "'d files_store \<Rightarrow> complete_upload_dto \<Rightarrow> file_record \<Rightarrow> auth_user \<Rightarrow>
   (('d, 's) files_world, file_record) async" where
  "attachFileToDomain fs dto file user =
     (if cu_bindTo dto = ''avatar'' then
        await (check_files (assertAvatarKeyBelongsToOwner (f_key file) (au_sub user))) (\<lambda>_.
        await (fw_on_db (users_setAvatar fs (au_sub user) (f_id file))) (\<lambda>affected.
          if affected = None \<or> affected = Some 0 then throw (NotFoundException ''User not found'')
          else resolve (file\<lparr>f_entityId := Some (au_sub user)\<rparr>)))
      else if \<not> truthy (cu_productId dto) then
        throw (BadRequestException ''productId is required for product-image binding'')
      else
        await (check_files (assertProductKeyMatchesTarget (f_key file) (the (cu_productId dto)))) (\<lambda>_.
        await (fw_on_db (products_setImage fs (the (cu_productId dto)) (f_id file))) (\<lambda>affected.
          if affected = None \<or> affected = Some 0 then throw (NotFoundException ''Product not found'')
          else resolve (file\<lparr>f_entityId := cu_productId dto\<rparr>))))"

record file_view = file_record +
  fv_publicUrl :: string

definition toPublicView :: "s3_config \<Rightarrow> file_record \<Rightarrow> file_view" where
  "toPublicView cfg file =
     file_record.extend file (file_view.fields (s3_buildPublicUrl cfg (f_key file)))"

definition completeUpload ::
  "('d, 's) files_deps \<Rightarrow> complete_upload_dto \<Rightarrow> auth_user \<Rightarrow> (('d, 's) files_world, file_view) async" where
  "completeUpload deps dto user =
     await (findByIdOrThrow (fd_store deps) (cu_fileId dto)) (\<lambda>file.
     await (check_files (assertOwner file user)) (\<lambda>_.
     await (if f_status file = FileStatus_PENDING then
              await (fw_on_s3 (objectExists (fd_s3 deps) (fd_config deps) (f_key file))) (\<lambda>exists.
                if \<not> exists then throw (BadRequestException ''File object is missing in storage'')
                else resolve (file\<lparr>f_status := FileStatus_READY\<rparr>))
            else resolve file) (\<lambda>file.
     await (attachFileToDomain (fd_store deps) dto file user) (\<lambda>file.
     await (fw_on_db (files_save (fd_store deps) file)) (\<lambda>saved.
     resolve (toPublicView (fd_config deps) saved))))))"

definition getFileById ::
  "('d, 's) files_deps \<Rightarrow> string \<Rightarrow> auth_user \<Rightarrow> (('d, 's) files_world, file_view) async" where
  "getFileById deps fileId user =
     await (findByIdOrThrow (fd_store deps) fileId) (\<lambda>file.
     await (check_files (assertOwnerOrStaff file user)) (\<lambda>_.
     resolve (toPublicView (fd_config deps) file)))"

definition getReadyOwnedFile ::
  "('d, 's) files_deps \<Rightarrow> string \<Rightarrow> string \<Rightarrow> (('d, 's) files_world, file_record) async" where
  "getReadyOwnedFile deps fileId ownerId =
     await (findByIdOrThrow (fd_store deps) fileId) (\<lambda>file.
       if f_ownerId file \<noteq> ownerId then
         throw (ForbiddenException ''You can use only your own uploaded files'')
       else if f_status file \<noteq> FileStatus_READY then
         throw (BadRequestException ''File upload is not completed'')
       else resolve file)"

definition getReadyFileForProduct ::
  "('d, 's) files_deps \<Rightarrow> string \<Rightarrow> auth_user \<Rightarrow> (('d, 's) files_world, file_record) async" where
  "getReadyFileForProduct deps fileId user =
     await (findByIdOrThrow (fd_store deps) fileId) (\<lambda>file.
       if f_status file \<noteq> FileStatus_READY then
         throw (BadRequestException ''File upload is not completed'')
       else if f_ownerId file = au_sub user then resolve file
       else
         (let canUseAny = ''admin'' \<in> set (au_roles user) \<or>
            ''products:images:assign:any'' \<in> set (au_scopes user) in
          if \<not> canUseAny then throw (ForbiddenException ''Cannot attach another user file'')
          else resolve file))"

definition buildPublicUrl :: "('d, 's) files_deps \<Rightarrow> string \<Rightarrow> string" where
  "buildPublicUrl deps key = s3_buildPublicUrl (fd_config deps) key"

end
