(* ===== verification/FilesFacts.thy ===== *)
theory FilesFacts
  imports Files
begin

text \<open>
  What each operation of the files service does to the tables, for any repositories that keep
  the contract \<open>files_database\<close> and any object storage, and the invariant that ties avatars
  and product images to the files they are.
\<close>

section \<open>Running on a part of the world\<close>

lemma fw_db_Inr:
  assumes "op_spec tabs tx ((=) Idle) m R" and "tx (fw_db w) = Idle" and "fw_on_db m w = (Inr x, w')"
  shows "R (tabs (fw_db w)) x (tabs (fw_db w')) \<and> tx (fw_db w') = Idle \<and> fw_s3 w' = fw_s3 w"
  using assms op_spec_Inr [OF assms(1), of "fw_db w" x "fw_db w'"]
  by (auto simp: fw_on_db_def on_part_def split: prod.splits)

lemma fw_db_Inl:
  assumes "op_spec tabs tx ((=) Idle) m R" and "tx (fw_db w) = Idle" and "fw_on_db m w = (Inl e, w')"
  shows "tabs (fw_db w') = tabs (fw_db w) \<and> tx (fw_db w') = Idle \<and> fw_s3 w' = fw_s3 w"
  using assms op_spec_Inl [OF assms(1), of "fw_db w" e "fw_db w'"]
  by (auto simp: fw_on_db_def on_part_def split: prod.splits)

lemma fw_s3_run: "fw_on_s3 m w = (r, w') \<Longrightarrow> fw_db w' = fw_db w \<and> m (fw_s3 w) = (r, fw_s3 w')"
  by (auto simp: fw_on_s3_def on_part_def split: prod.splits)

lemma check_files_simps [simp]:
  "check_files None = resolve ()"
  "check_files (Some e) = throw e"
  by (simp_all add: check_files_def)

section \<open>Presigning\<close>

text \<open>The requests \<open>createPresignedUpload\<close> accepts, and the row it stores for one.\<close>

definition may_upload :: "auth_user \<Rightarrow> string \<Rightarrow> bool" where
  "may_upload user kind \<longleftrightarrow>
     set (au_roles user) \<inter> {''user'', ''support'', ''admin''} \<noteq> {} \<and>
     (''admin'' \<in> set (au_roles user) \<or> ''files:write'' \<in> set (au_scopes user) \<or>
      kind = ''product-image'' \<and> ''products:images:write'' \<in> set (au_scopes user))"

definition good_upload :: "tables \<Rightarrow> presign_file_dto \<Rightarrow> bool" where
  "good_upload T dto \<longleftrightarrow>
     pf_contentType dto \<in> {''image/jpeg'', ''image/png'', ''image/webp''} \<and>
     (\<exists>n. pf_sizeBytes dto = Fin (of_int n) \<and> 1 \<le> n \<and> n \<le> 5242880) \<and>
     (pf_kind dto = ''avatar'' \<and> \<not> truthy (pf_productId dto) \<or>
      pf_kind dto = ''product-image'' \<and>
        (\<exists>pid. pf_productId dto = Some pid \<and> pid \<noteq> [] \<and> t_products T pid \<noteq> None))"

definition upload_key :: "string \<Rightarrow> auth_user \<Rightarrow> presign_file_dto \<Rightarrow> string" where
  "upload_key fileId user dto =
     (if pf_kind dto = ''avatar'' then ''users/'' @ au_sub user @ ''/avatars/''
      else ''products/'' @ the (pf_productId dto) @ ''/images/'') @ fileId @ ''.'' @
     (if pf_contentType dto = ''image/jpeg'' then ''jpg''
      else if pf_contentType dto = ''image/png'' then ''png'' else ''webp'')"

definition upload_row :: "string \<Rightarrow> auth_user \<Rightarrow> presign_file_dto \<Rightarrow> new_file" where
  "upload_row fileId user dto =
     \<lparr>nf_ownerId = au_sub user,
      nf_entityId = (if pf_kind dto = ''product-image'' then pf_productId dto else None),
      nf_key = upload_key fileId user dto, nf_contentType = pf_contentType dto,
      nf_size = size_number (pf_sizeBytes dto), nf_status = FileStatus_PENDING,
      nf_visibility = FileVisibility_PRIVATE\<rparr>"

definition presign_effect ::
  "string \<Rightarrow> auth_user \<Rightarrow> presign_file_dto \<Rightarrow> tables \<Rightarrow> (exn + presigned_upload) \<Rightarrow> tables \<Rightarrow> bool" where
  "presign_effect fileId user dto T v T' \<longleftrightarrow>
     (\<exists>e. v = Inl e \<and> T' = T) \<or>
     (may_upload user (pf_kind dto) \<and> good_upload T dto \<and>
      (\<exists>f. file_added (upload_row fileId user dto) T f T' \<and>
        (\<forall>p. v = Inr p \<longrightarrow> pu_fileId p = f_id f \<and> pu_key p = f_key f)))"

lemma assertCanPresign_iff: "assertCanPresign user kind = None \<longleftrightarrow> may_upload user kind"
  by (auto simp: assertCanPresign_def may_upload_def list_ex_iff)

lemma js_size:
  "isInteger x \<and> \<not> js_le0 x \<and> \<not> js_gt x maxImageBytes \<longleftrightarrow>
     (\<exists>n. x = Fin (of_int n) \<and> 1 \<le> n \<and> n \<le> 5242880)"
proof (cases x)
  case (Fin q)
  have "q = of_int \<lfloor>q\<rfloor> \<and> 0 < q \<and> q \<le> 5242880 \<longleftrightarrow>
      (\<exists>n. q = of_int n \<and> 1 \<le> n \<and> n \<le> 5242880)" (is "?l \<longleftrightarrow> ?r")
  proof
    assume l: ?l
    show ?r
      by (rule exI [of _ "\<lfloor>q\<rfloor>"]) (use l in linarith)
  next
    assume ?r
    then obtain n where n: "q = of_int n" "1 \<le> n" "n \<le> 5242880" by blast
    then have "(of_int n :: rat) \<le> of_int 5242880" by (simp only: of_int_le_iff)
    with n show ?l by simp
  qed
  then show ?thesis
    by (auto simp: Fin js_gt_def maxImageBytes_def not_le not_less)
qed (auto simp: js_gt_def)

lemma buildObjectKey_good:
  assumes "good_upload T dto"
  shows "buildObjectKey (pf_kind dto) (au_sub user) (pf_contentType dto) (pf_productId dto) fileId =
    Inr (upload_key fileId user dto)"
  using assms
  by (auto simp: buildObjectKey_def upload_key_def good_upload_def extension_by_type_def)

section \<open>Completing\<close>

text \<open>
  \<open>bound\<close>: the owner's user row or a product row refers to the file, and the file's key is one
  of that user or product. A failure after it leaves the reference behind.
\<close>

definition bind_entity :: "complete_upload_dto \<Rightarrow> auth_user \<Rightarrow> string" where
  "bind_entity dto user =
     (if cu_bindTo dto = ''avatar'' then au_sub user else the (cu_productId dto))"

definition bound :: "complete_upload_dto \<Rightarrow> auth_user \<Rightarrow> file_record \<Rightarrow> tables \<Rightarrow> tables \<Rightarrow> bool" where
  "bound dto user f T T' \<longleftrightarrow>
     (if cu_bindTo dto = ''avatar'' then
        startsWith (f_key f) (''users/'' @ au_sub user @ ''/avatars/'') \<and>
        avatar_set (au_sub user) (f_id f) T (Some 1) T'
      else truthy (cu_productId dto) \<and>
        startsWith (f_key f) (''products/'' @ the (cu_productId dto) @ ''/images/'') \<and>
        image_set (the (cu_productId dto)) (f_id f) T (Some 1) T')"

definition complete_effect ::
  "s3_config \<Rightarrow> (string \<Rightarrow> bool) \<Rightarrow> complete_upload_dto \<Rightarrow> auth_user \<Rightarrow> tables \<Rightarrow>
   (exn + file_view) \<Rightarrow> tables \<Rightarrow> bool" where
  "complete_effect cfg in_storage dto user T v T' \<longleftrightarrow>
     (\<exists>e. v = Inl e \<and> T' = T) \<or>
     (\<exists>f T1. t_files T (cu_fileId dto) = Some f \<and> f_ownerId f = au_sub user \<and>
        (f_status f = FileStatus_READY \<or> in_storage (f_key f)) \<and> bound dto user f T T1 \<and>
        (case v of
           Inl e \<Rightarrow> T' = T1
         | Inr view \<Rightarrow>
             (\<exists>ts. let g = f\<lparr>f_status := FileStatus_READY, f_entityId := Some (bind_entity dto user),
                              f_updatedAt := ts\<rparr>
                   in T' = T1\<lparr>t_files := (t_files T)(cu_fileId dto \<mapsto> g)\<rparr> \<and> view = toPublicView cfg g)))"

lemma bound_simps:
  assumes "bound dto user f T T'"
  shows "t_files T' = t_files T \<and> t_orders T' = t_orders T \<and> t_items T' = t_items T \<and> t_processed T' = t_processed T"
  using assms by (auto simp: bound_def avatar_set_def image_set_def split: if_splits option.splits)

context files_database
begin

lemma validate_run:
  assumes idle: "tx (fw_db w) = Idle" and run: "validateUploadInput fs dto w = (v, w')"
  shows "tabs (fw_db w') = tabs (fw_db w) \<and> tx (fw_db w') = Idle \<and> fw_s3 w' = fw_s3 w \<and>
    (v = Inr () \<longrightarrow> good_upload (tabs (fw_db w)) dto)"
proof (cases "pf_contentType dto \<in> set allowed_content_types \<and>
    isInteger (pf_sizeBytes dto) \<and> \<not> js_le0 (pf_sizeBytes dto) \<and> \<not> js_gt (pf_sizeBytes dto) maxImageBytes")
  case False
  with run idle show ?thesis by (auto simp: validateUploadInput_def async_simps split: if_splits)
next
  case True
  then have basic: "pf_contentType dto \<in> {''image/jpeg'', ''image/png'', ''image/webp''}"
      "\<exists>n. pf_sizeBytes dto = Fin (of_int n) \<and> 1 \<le> n \<and> n \<le> 5242880"
    using js_size [of "pf_sizeBytes dto"] by (auto simp: allowed_content_types_def)
  consider (exists) pid where "pf_kind dto = ''product-image''" "pf_productId dto = Some pid" "pid \<noteq> []"
    | (other) "\<not> (pf_kind dto = ''product-image'' \<and> truthy (pf_productId dto))"
    by (auto elim: truthyE)
  then show ?thesis
  proof cases
    case other
    with True run idle basic show ?thesis
      by (auto simp: validateUploadInput_def async_simps good_upload_def split: if_splits)
  next
    case exists
    with True run have "await (fw_on_db (products_exist fs pid)) (\<lambda>productExists.
        if \<not> productExists then throw (NotFoundException ''Product not found'') else resolve ()) w = (v, w')"
      by (simp add: validateUploadInput_def)
    moreover obtain u w1 where u: "fw_on_db (products_exist fs pid) w = (u, w1)" by fastforce
    ultimately show ?thesis
      using exists basic fw_db_Inr [OF exist idle, where w' = w1] fw_db_Inl [OF exist idle, where w' = w1]
      by (cases u) (fastforce simp: await_def async_simps good_upload_def split: if_splits)+
  qed
qed

lemma presign_run:
  assumes idle: "tx (fw_db w) = Idle" and deps: "fd_store deps = fs"
    and run: "createPresignedUpload deps fileId user dto w = (v, w')"
  shows "tx (fw_db w') = Idle \<and>
    presign_effect fileId user dto (tabs (fw_db w)) v (tabs (fw_db w'))"
proof (cases "assertCanPresign user (pf_kind dto)")
  case (Some e)
  with run idle show ?thesis by (auto simp: createPresignedUpload_def async_simps presign_effect_def)
next
  case None
  then have may: "may_upload user (pf_kind dto)" by (simp add: assertCanPresign_iff)
  obtain u w1 where u: "validateUploadInput fs dto w = (u, w1)" by fastforce
  note val = validate_run [OF idle u]
  show ?thesis
  proof (cases u)
    case (Inl e)
    with run None deps u val show ?thesis
      by (auto simp: createPresignedUpload_def await_def async_simps presign_effect_def)
  next
    case (Inr x)
    with val have good: "good_upload (tabs (fw_db w)) dto" by simp
    obtain r w2 where ins: "fw_on_db (files_insert fs (upload_row fileId user dto)) w1 = (r, w2)" by fastforce
    have idle1: "tx (fw_db w1) = Idle" using val by simp
    have run1: "(case r of Inl e \<Rightarrow> (Inl e, w2) | Inr saved \<Rightarrow>
        await (fw_on_s3 (presignPutObject (fd_s3 deps) (fd_config deps)
             \<lparr>pa_key = f_key saved, pa_contentType = f_contentType saved,
              pa_sizeBytes = f_size saved, pa_expiresInSec = None\<rparr>)) (\<lambda>(uploadUrl, expiresInSec).
           resolve
             \<lparr>pu_fileId = f_id saved, pu_key = f_key saved, pu_uploadUrl = uploadUrl,
              pu_contentType = f_contentType saved,
              pu_publicUrl = s3_buildPublicUrl (fd_config deps) (f_key saved),
              pu_uploadMethod = ''PUT'', pu_expiresInSec = expiresInSec\<rparr>) w2) = (v, w')"
      using run None deps u Inr ins buildObjectKey_good [OF good, of user fileId]
      by (auto simp: createPresignedUpload_def await_def async_simps upload_row_def split: sum.splits)
    show ?thesis
    proof (cases r)
      case (Inl e)
      with run1 fw_db_Inl [OF insert idle1] ins val show ?thesis by (auto simp: presign_effect_def)
    next
      case (Inr f)
      with fw_db_Inr [OF insert idle1, of _ f w2] ins val have
        added: "file_added (upload_row fileId user dto) (tabs (fw_db w)) f (tabs (fw_db w2))"
          "tx (fw_db w2) = Idle" by simp_all
      from run1 Inr obtain q w3 where s: "fw_on_s3 (presignPutObject (fd_s3 deps) (fd_config deps)
             \<lparr>pa_key = f_key f, pa_contentType = f_contentType f,
              pa_sizeBytes = f_size f, pa_expiresInSec = None\<rparr>) w2 = (q, w3)"
        "w3 = w'" "\<forall>p. v = Inr p \<longrightarrow> pu_fileId p = f_id f \<and> pu_key p = f_key f"
        by (auto simp: await_def async_simps split: prod.splits sum.splits)
      with fw_s3_run [OF s(1)] added may good show ?thesis
        unfolding presign_effect_def by (metis (no_types, lifting))
    qed
  qed
qed

lemma attach_run:
  assumes idle: "tx (fw_db w) = Idle" and run: "attachFileToDomain fs dto f user w = (v, w')"
  shows "tx (fw_db w') = Idle \<and>
    (case v of
       Inl e \<Rightarrow> tabs (fw_db w') = tabs (fw_db w)
     | Inr g \<Rightarrow> g = f\<lparr>f_entityId := Some (bind_entity dto user)\<rparr> \<and>
         bound dto user f (tabs (fw_db w)) (tabs (fw_db w')))"
proof (cases "cu_bindTo dto = ''avatar''")
  case True
  show ?thesis
  proof (cases "startsWith (f_key f) (''users/'' @ au_sub user @ ''/avatars/'')")
    case False
    with True run idle show ?thesis
      by (auto simp: attachFileToDomain_def assertAvatarKeyBelongsToOwner_def async_simps)
  next
    case key: True
    obtain n w1 where n: "fw_on_db (users_setAvatar fs (au_sub user) (f_id f)) w = (n, w1)" by fastforce
    show ?thesis
    proof (cases n)
      case (Inl e)
      with n fw_db_Inl [OF setAvatar idle n [unfolded Inl]] True key run show ?thesis
        by (auto simp: attachFileToDomain_def assertAvatarKeyBelongsToOwner_def await_def async_simps)
    next
      case (Inr a)
      note set = fw_db_Inr [OF setAvatar idle n [unfolded Inr]]
      then have "a = Some 0 \<and> tabs (fw_db w1) = tabs (fw_db w) \<or> a = Some 1"
        by (auto simp: avatar_set_def split: option.splits)
      with n Inr set True key run show ?thesis
        by (auto simp: attachFileToDomain_def assertAvatarKeyBelongsToOwner_def await_def async_simps
            bound_def bind_entity_def)
    qed
  qed
next
  case False
  show ?thesis
  proof (cases "truthy (cu_productId dto) \<and>
      startsWith (f_key f) (''products/'' @ the (cu_productId dto) @ ''/images/'')")
    case no: False
    with False run idle show ?thesis
      by (auto simp: attachFileToDomain_def assertProductKeyMatchesTarget_def async_simps split: if_splits)
  next
    case key: True
    then obtain pid where pid: "cu_productId dto = Some pid" "pid \<noteq> []" by (auto elim: truthyE)
    obtain n w1 where n: "fw_on_db (products_setImage fs pid (f_id f)) w = (n, w1)" by fastforce
    show ?thesis
    proof (cases n)
      case (Inl e)
      with n fw_db_Inl [OF setImage idle n [unfolded Inl]] False key pid run show ?thesis
        by (auto simp: attachFileToDomain_def assertProductKeyMatchesTarget_def await_def async_simps)
    next
      case (Inr a)
      note set = fw_db_Inr [OF setImage idle n [unfolded Inr]]
      then have "a = Some 0 \<and> tabs (fw_db w1) = tabs (fw_db w) \<or> a = Some 1"
        by (auto simp: image_set_def split: option.splits)
      with n Inr set False key pid run show ?thesis
        by (auto simp: attachFileToDomain_def assertProductKeyMatchesTarget_def await_def async_simps
            bound_def bind_entity_def)
    qed
  qed
qed

lemma find_run:
  assumes idle: "tx (fw_db w) = Idle" and run: "findByIdOrThrow fs i w = (v, w')"
  shows "tabs (fw_db w') = tabs (fw_db w) \<and> tx (fw_db w') = Idle \<and> fw_s3 w' = fw_s3 w \<and>
    (\<forall>f. v = Inr f \<longrightarrow> t_files (tabs (fw_db w)) i = Some f)"
proof -
  obtain n w1 where n: "fw_on_db (files_findOne fs i) w = (n, w1)" by fastforce
  then show ?thesis
    using run fw_db_Inr [OF findOne idle, where w' = w1] fw_db_Inl [OF findOne idle, where w' = w1]
    by (cases n) (fastforce simp: findByIdOrThrow_def await_def async_simps split: option.splits)+
qed

lemma ready_run:
  assumes run: "(if f_status f = FileStatus_PENDING then
      await (fw_on_s3 (objectExists s3 cfg (f_key f))) (\<lambda>exists.
        if \<not> exists then throw (BadRequestException ''File object is missing in storage'')
        else resolve (f\<lparr>f_status := FileStatus_READY\<rparr>))
    else resolve f) w = (v, w')"
  shows "fw_db w' = fw_db w \<and>
    (\<forall>g. v = Inr g \<longrightarrow> g = f\<lparr>f_status := FileStatus_READY\<rparr> \<and>
      (f_status f = FileStatus_READY \<or> fst (s3_head s3 (s3_bucket cfg) (f_key f) (fw_s3 w)) = Inr ()))"
proof (cases "f_status f")
  case FileStatus_READY
  then have "f\<lparr>f_status := FileStatus_READY\<rparr> = f" by (cases f) simp
  with run FileStatus_READY show ?thesis by (auto simp: async_simps)
next
  case FileStatus_PENDING
  obtain b w1 where b: "fw_on_s3 (objectExists s3 cfg (f_key f)) w = (b, w1)" by fastforce
  note s3 = fw_s3_run [OF b]
  show ?thesis
  proof (cases b)
    case (Inl e)
    with run FileStatus_PENDING b s3 show ?thesis by (auto simp: await_def async_simps)
  next
    case (Inr x)
    with s3 objectExists_run [of s3 cfg "f_key f" "fw_s3 w" x "fw_s3 w1"] run FileStatus_PENDING b
    show ?thesis by (auto simp: await_def async_simps split: if_splits)
  qed
qed

lemma complete_run:
  assumes idle: "tx (fw_db w) = Idle" and schema: "files_schema (tabs (fw_db w))" and deps: "fd_store deps = fs"
    and run: "completeUpload deps dto user w = (v, w')"
  shows "tx (fw_db w') = Idle \<and>
    complete_effect (fd_config deps)
      (\<lambda>key. fst (s3_head (fd_s3 deps) (s3_bucket (fd_config deps)) key (fw_s3 w)) = Inr ())
      dto user (tabs (fw_db w)) v (tabs (fw_db w'))" (is "?idle \<and> complete_effect ?cfg ?in dto user ?T v ?T'")
proof -
  obtain a w1 where a: "findByIdOrThrow fs (cu_fileId dto) w = (a, w1)" by fastforce
  note found = find_run [OF idle a]
  consider (missing) e where "a = Inl e" | (foreign) f where "a = Inr f" "f_ownerId f \<noteq> au_sub user"
    | (own) f where "a = Inr f" "f_ownerId f = au_sub user" by (cases a) auto
  then show ?thesis
  proof cases
    case missing
    with run a deps found show ?thesis
      by (auto simp: completeUpload_def await_def async_simps complete_effect_def)
  next
    case foreign
    with run a deps found show ?thesis
      by (auto simp: completeUpload_def await_def async_simps complete_effect_def assertOwner_def)
  next
    case own
    with found have f: "t_files ?T (cu_fileId dto) = Some f" by simp
    with schema have id: "f_id f = cu_fileId dto" by (simp add: files_schema_def)
    obtain b w2 where b: "(if f_status f = FileStatus_PENDING then
        await (fw_on_s3 (objectExists (fd_s3 deps) ?cfg (f_key f))) (\<lambda>exists.
          if \<not> exists then throw (BadRequestException ''File object is missing in storage'')
          else resolve (f\<lparr>f_status := FileStatus_READY\<rparr>))
      else resolve f) w1 = (b, w2)" by fastforce
    note ready = ready_run [OF b]
    show ?thesis
    proof (cases b)
      case (Inl e)
      with run a b own deps ready found show ?thesis
        by (auto simp: completeUpload_def await_def async_simps complete_effect_def assertOwner_def)
    next
      case (Inr g)
      with ready found have g: "g = f\<lparr>f_status := FileStatus_READY\<rparr>"
        "f_status f = FileStatus_READY \<or> ?in (f_key f)" "tabs (fw_db w2) = ?T" "tx (fw_db w2) = Idle" by auto
      obtain c w3 where c: "attachFileToDomain fs dto g user w2 = (c, w3)" by fastforce
      note attached = attach_run [OF g(4) c]
      show ?thesis
      proof (cases c)
        case (Inl e)
        with run a b c own deps Inr g attached show ?thesis
          by (auto simp: completeUpload_def await_def async_simps complete_effect_def assertOwner_def)
      next
        case cr: (Inr h)
        let ?h = "f\<lparr>f_status := FileStatus_READY, f_entityId := Some (bind_entity dto user)\<rparr>"
        from cr attached g have h: "h = ?h" "bound dto user f ?T (tabs (fw_db w3))" "tx (fw_db w3) = Idle"
          by (auto simp: bound_def)
        note same = bound_simps [OF h(2)]
        obtain d w4 where d: "fw_on_db (files_save fs h) w3 = (d, w4)" by fastforce
        have final: "v = map_sum id (toPublicView ?cfg) d" "w' = w4"
          using run a b c d own deps Inr cr
          by (auto simp: completeUpload_def await_def async_simps assertOwner_def split: sum.splits)
        show ?thesis
        proof (cases d)
          case (Inl e)
          with fw_db_Inl [OF save h(3) d [unfolded Inl]] final f own g(2) h(2) show ?thesis
            unfolding complete_effect_def
            by (intro conjI [OF _ disjI2] exI [of _ f] exI [of _ "tabs (fw_db w3)"]) auto
        next
          case dr: (Inr k)
          note saved = fw_db_Inr [OF save h(3) d [unfolded dr]]
          have "t_files (tabs (fw_db w3)) (f_id h) \<noteq> None" using same f id h(1) by simp
          with saved obtain u where u: "k = h\<lparr>f_updatedAt := u\<rparr>"
            "tabs (fw_db w4) = (tabs (fw_db w3))\<lparr>t_files := (t_files (tabs (fw_db w3)))(f_id h \<mapsto> k)\<rparr>"
            by (auto simp: file_saved_def)
          with final f own g(2) h(1,2) same id dr saved show ?thesis
            unfolding complete_effect_def
            by (intro conjI [OF _ disjI2] exI [of _ f] exI [of _ "tabs (fw_db w3)"]) (auto simp: Let_def)
        qed
      qed
    qed
  qed
qed

lemma get_run:
  assumes idle: "tx (fw_db w) = Idle" and deps: "fd_store deps = fs"
    and run: "getFileById deps i user w = (v, w')"
  shows "tabs (fw_db w') = tabs (fw_db w) \<and> tx (fw_db w') = Idle \<and>
    (\<forall>view. v = Inr view \<longrightarrow> (\<exists>f. t_files (tabs (fw_db w)) i = Some f \<and>
       view = toPublicView (fd_config deps) f \<and>
       (f_ownerId f = au_sub user \<or> set (au_roles user) \<inter> {''admin'', ''support''} \<noteq> {})))"
proof -
  obtain a w1 where a: "findByIdOrThrow fs i w = (a, w1)" by fastforce
  from find_run [OF idle a] run deps a show ?thesis
    by (cases a) (auto simp: getFileById_def await_def async_simps assertOwnerOrStaff_def Let_def split: if_splits)
qed

end

end
