(* ===== verification/ReferenceFiles.thy ===== *)
theory ReferenceFiles
  imports Files ReferenceStore
begin

text \<open>
  The files service's repositories over the reference store, and object storage as the list of
  the keys uploaded: interpretations of the contract the service relies on.
\<close>

definition ref_findFileKey :: "string \<Rightarrow> ref_rows \<Rightarrow> file_record option" where
  "ref_findFileKey k rs = find (\<lambda>f. f_key f = k) (visible f_id (rr_files rs))"

definition ref_insertFile :: "new_file \<Rightarrow> (ref_db, file_record) async" where
  "ref_insertFile n d =
     (let rs = rd_rows d;
          f = \<lparr>f_id = fresh_id f_id (rr_files rs), f_ownerId = nf_ownerId n,
               f_entityId = nf_entityId n, f_key = nf_key n, f_contentType = nf_contentType n,
               f_size = nf_size n, f_status = nf_status n, f_visibility = nf_visibility n,
               f_createdAt = rd_now d, f_updatedAt = rd_now d\<rparr>
      in if row_map u_id (rr_users rs) (nf_ownerId n) = None then
           refuse ''23503'' ''violates foreign key constraint'' d
         else if ref_findFileKey (nf_key n) rs \<noteq> None then
           refuse ''23505'' ''duplicate key value violates unique constraint'' d
         else (Inr f, on_rows (\<lambda>rs. rs\<lparr>rr_files := f # rr_files rs\<rparr>) d))"

definition ref_saveFile :: "file_record \<Rightarrow> (ref_db, file_record) async" where
  "ref_saveFile f d =
     (let f' = f\<lparr>f_updatedAt := rd_now d\<rparr> in
      (Inr f', on_rows (\<lambda>rs. rs\<lparr>rr_files := f' # rr_files rs\<rparr>) d))"

definition ref_setAvatar :: "string \<Rightarrow> string \<Rightarrow> (ref_db, nat option) async" where
  "ref_setAvatar uid fid d =
     (case row_map u_id (rr_users (rd_rows d)) uid of
        None \<Rightarrow> (Inr (Some 0), d)
      | Some u \<Rightarrow>
          if row_map f_id (rr_files (rd_rows d)) fid = None then
            refuse ''23503'' ''violates foreign key constraint'' d
          else (Inr (Some 1), on_rows (\<lambda>rs. rs\<lparr>rr_users :=
            u\<lparr>u_avatarFileId := Some fid, u_updatedAt := rd_now d\<rparr> # rr_users rs\<rparr>) d))"

definition ref_setImage :: "string \<Rightarrow> string \<Rightarrow> (ref_db, nat option) async" where
  "ref_setImage pid fid d =
     (case row_map p_id (rr_products (rd_rows d)) pid of
        None \<Rightarrow> (Inr (Some 0), d)
      | Some p \<Rightarrow>
          if row_map f_id (rr_files (rd_rows d)) fid = None then
            refuse ''23503'' ''violates foreign key constraint'' d
          else (Inr (Some 1), on_rows (\<lambda>rs. rs\<lparr>rr_products :=
            p\<lparr>p_imageFileId := Some fid, p_updatedAt := rd_now d\<rparr> # rr_products rs\<rparr>) d))"

definition ref_files :: "ref_db files_store" where
  "ref_files =
     \<lparr>files_findOne = (\<lambda>i. gets (\<lambda>d. row_map f_id (rr_files (rd_rows d)) i)),
      files_insert = ref_insertFile,
      files_save = ref_saveFile,
      products_exist = (\<lambda>i. gets (\<lambda>d. row_map p_id (rr_products (rd_rows d)) i \<noteq> None)),
      users_setAvatar = ref_setAvatar,
      products_setImage = ref_setImage\<rparr>"

lemma ref_file_key_free:
  "ref_findFileKey k rs = None \<Longrightarrow> row_map f_id (rr_files rs) i = Some g \<Longrightarrow> f_key g \<noteq> k"
  by (simp add: ref_findFileKey_def find_visible_None)

lemma ref_insertFile_spec: "op_spec ref_tabs ref_tx ((=) Idle) (ref_insertFile n) (file_added n)"
  using ref_file_key_free [of "nf_key n"]
  by (intro op_specI) (auto simp: ref_insertFile_def Let_def file_added_def ref_simps is_refuse)

lemma ref_saveFile_spec: "op_spec ref_tabs ref_tx ((=) Idle) (ref_saveFile f) (file_saved f)"
  by (intro op_specI) (auto simp: ref_saveFile_def Let_def file_saved_def ref_simps intro: exI [of _ "rd_now d" for d])

lemma ref_setAvatar_spec: "op_spec ref_tabs ref_tx ((=) Idle) (ref_setAvatar uid fid) (avatar_set uid fid)"
proof (rule op_specI)
  fix d
  show "(\<exists>c msg. ref_setAvatar uid fid d = refuse c msg d) \<or>
    (\<exists>x t. ref_setAvatar uid fid d = (Inr x, t) \<and> avatar_set uid fid (ref_tabs d) x (ref_tabs t) \<and>
      rd_tx t = rd_tx d)"
  proof (cases "row_map u_id (rr_users (rd_rows d)) uid")
    case None
    then show ?thesis by (simp add: ref_setAvatar_def avatar_set_def ref_simps)
  next
    case (Some r)
    moreover from row_map_mem [OF Some] have "u_id r = uid" by simp
    ultimately show ?thesis
      by (cases "row_map f_id (rr_files (rd_rows d)) fid")
        (auto simp: ref_setAvatar_def avatar_set_def ref_simps is_refuse intro: exI [of _ "rd_now d"])
  qed
qed

lemma ref_setImage_spec: "op_spec ref_tabs ref_tx ((=) Idle) (ref_setImage pid fid) (image_set pid fid)"
proof (rule op_specI)
  fix d
  show "(\<exists>c msg. ref_setImage pid fid d = refuse c msg d) \<or>
    (\<exists>x t. ref_setImage pid fid d = (Inr x, t) \<and> image_set pid fid (ref_tabs d) x (ref_tabs t) \<and>
      rd_tx t = rd_tx d)"
  proof (cases "row_map p_id (rr_products (rd_rows d)) pid")
    case None
    then show ?thesis by (simp add: ref_setImage_def image_set_def ref_simps)
  next
    case (Some r)
    moreover from row_map_mem [OF Some] have "p_id r = pid" by simp
    ultimately show ?thesis
      by (cases "row_map f_id (rr_files (rd_rows d)) fid")
        (auto simp: ref_setImage_def image_set_def ref_simps is_refuse intro: exI [of _ "rd_now d"])
  qed
qed

interpretation ref_files: files_database ref_files ref_tabs ref_tx
  by unfold_locales
    (simp_all add: ref_files_def op_spec_gets ref_tabs_def tables_of_def ref_insertFile_spec
      ref_saveFile_spec ref_setAvatar_spec ref_setImage_spec)

text \<open>A bucket: the keys that hold an object.\<close>

definition ref_s3 :: "string list s3_client" where
  "ref_s3 =
     \<lparr>s3_head = (\<lambda>bucket key s. if key \<in> set s then (Inr (), s)
        else (Inl (SdkError (Some 404) None ''NotFound''), s)),
      s3_getSignedUrl = (\<lambda>po expires s. (Inr (''https://'' @ po_bucket po @ ''/'' @ po_key po), s))\<rparr>"

end
