(* ===== verification/FilesProperties.thy ===== *)
theory FilesProperties
  imports FilesFacts ReferenceFiles OrderProperties
begin

text \<open>
  Properties of the files service: what presigning and completing an upload do, the invariant
  over any sequence of its operations, and that an object key admits exactly the binding it
  was made for.
\<close>

section \<open>Sequences of operations\<close>

datatype files_action =
    Presign string auth_user presign_file_dto
  | Complete complete_upload_dto auth_user
  | GetFile string auth_user

fun files_step :: "('d, 's) files_deps \<Rightarrow> files_action \<Rightarrow> ('d, 's) files_world \<Rightarrow> ('d, 's) files_world" where
  "files_step deps (Presign fileId user dto) w = snd (createPresignedUpload deps fileId user dto w)"
| "files_step deps (Complete dto user) w = snd (completeUpload deps dto user w)"
| "files_step deps (GetFile i user) w = snd (getFileById deps i user w)"

definition files_run :: "('d, 's) files_deps \<Rightarrow> files_action list \<Rightarrow> ('d, 's) files_world \<Rightarrow> ('d, 's) files_world" where
  "files_run deps = fold (files_step deps)"

text \<open>
  Every file is an image of at most 5 MiB, a user's avatar is a file of the user under the
  user's keys, a product's image a file under the product's keys.
\<close>

definition files_ok :: "tables \<Rightarrow> bool" where
  "files_ok T \<longleftrightarrow> files_schema T \<and>
     (\<forall>i f. t_files T i = Some f \<longrightarrow>
        f_contentType f \<in> {''image/jpeg'', ''image/png'', ''image/webp''} \<and> 1 \<le> f_size f \<and> f_size f \<le> 5242880) \<and>
     (\<forall>i u a. t_users T i = Some u \<longrightarrow> u_avatarFileId u = Some a \<longrightarrow>
        (\<exists>f. t_files T a = Some f \<and> f_ownerId f = i \<and> startsWith (f_key f) (''users/'' @ i @ ''/avatars/''))) \<and>
     (\<forall>i p a. t_products T i = Some p \<longrightarrow> p_imageFileId p = Some a \<longrightarrow>
        (\<exists>f. t_files T a = Some f \<and> startsWith (f_key f) (''products/'' @ i @ ''/images/'')))"

lemma files_ok_add:
  assumes "files_ok T" and "good_upload T dto" and "file_added (upload_row fileId user dto) T f T'"
  shows "files_ok T'"
proof -
  obtain n where n: "pf_sizeBytes dto = Fin (of_int n)" "1 \<le> n" "n \<le> 5242880"
    using assms(2) by (auto simp: good_upload_def)
  with assms(2,3) have f: "f_contentType f \<in> {''image/jpeg'', ''image/png'', ''image/webp''}"
      "1 \<le> f_size f" "f_size f \<le> 5242880" "T' = T\<lparr>t_files := (t_files T)(f_id f \<mapsto> f)\<rparr>"
      "t_files T (f_id f) = None" "\<forall>i g. t_files T i = Some g \<longrightarrow> f_key g \<noteq> f_key f"
    by (auto simp: file_added_def upload_row_def good_upload_def size_number_def)
  from assms(1) f show ?thesis
    unfolding files_ok_def files_schema_def
    by (intro conjI) (simp_all, (fastforce split: if_splits)+)
qed

lemma files_ok_bound:
  assumes "files_ok T" and "t_files T fid = Some f" and "f_ownerId f = au_sub user" and "bound dto user f T T'"
  shows "files_ok T'"
proof -
  from assms(1,2) have id: "f_id f = fid" by (simp add: files_ok_def files_schema_def)
  consider (avatar) u ts where "t_users T (au_sub user) = Some u"
      "startsWith (f_key f) (''users/'' @ au_sub user @ ''/avatars/'')"
      "T' = T\<lparr>t_users := (t_users T)(au_sub user \<mapsto> u\<lparr>u_avatarFileId := Some fid, u_updatedAt := ts\<rparr>)\<rparr>"
    | (image) pid p ts where "t_products T pid = Some p"
      "startsWith (f_key f) (''products/'' @ pid @ ''/images/'')"
      "T' = T\<lparr>t_products := (t_products T)(pid \<mapsto> p\<lparr>p_imageFileId := Some fid, p_updatedAt := ts\<rparr>)\<rparr>"
    using assms(4) id
    by (auto simp: bound_def avatar_set_def image_set_def split: if_splits option.splits)
  then show ?thesis
  proof cases
    case avatar
    with assms(1-3) show ?thesis unfolding files_ok_def files_schema_def by auto
  next
    case image
    with assms(1,2) show ?thesis unfolding files_ok_def files_schema_def by auto
  qed
qed

lemma files_ok_save:
  assumes "files_ok T" and "t_files T fid = Some f"
    and "f_key g = f_key f" and "f_ownerId g = f_ownerId f" and "f_id g = f_id f"
    and "f_contentType g = f_contentType f" and "f_size g = f_size f"
  shows "files_ok (T\<lparr>t_files := (t_files T)(fid \<mapsto> g)\<rparr>)"
proof -
  let ?T = "T\<lparr>t_files := (t_files T)(fid \<mapsto> g)\<rparr>"
  from assms(1) have schema: "files_schema T" by (simp add: files_ok_def)
  have at: "t_files ?T i = Some h \<Longrightarrow> \<exists>h0. t_files T i = Some h0 \<and> f_key h = f_key h0 \<and>
      f_ownerId h = f_ownerId h0 \<and> f_id h = f_id h0 \<and> f_contentType h = f_contentType h0 \<and> f_size h = f_size h0"
    and keep: "t_files T i = Some h0 \<Longrightarrow> \<exists>h. t_files ?T i = Some h \<and> f_key h = f_key h0 \<and>
      f_ownerId h = f_ownerId h0" for i h h0
    using assms(2-7) by (auto split: if_splits)
  have "files_schema ?T"
    unfolding files_schema_def
  proof (intro conjI allI impI)
    fix i h
    assume "t_files ?T i = Some h"
    from at [OF this] schema show "f_id h = i" by (auto simp: files_schema_def)
  next
    fix i j h k
    assume h: "t_files ?T i = Some h" and k: "t_files ?T j = Some k" and key: "f_key h = f_key k"
    from at [OF h] at [OF k] key obtain h0 k0 where
      "t_files T i = Some h0" "t_files T j = Some k0" "f_key h0 = f_key k0" by auto
    with schema show "i = j" unfolding files_schema_def by blast
  qed
  moreover have "f_contentType h \<in> {''image/jpeg'', ''image/png'', ''image/webp''} \<and> 1 \<le> f_size h \<and> f_size h \<le> 5242880"
    if "t_files ?T i = Some h" for i h
  proof -
    from at [OF that] obtain h0 where "t_files T i = Some h0" "f_contentType h = f_contentType h0" "f_size h = f_size h0"
      by auto
    with assms(1) show ?thesis unfolding files_ok_def by simp
  qed
  moreover have "\<exists>h. t_files ?T a = Some h \<and> f_ownerId h = i \<and> startsWith (f_key h) (''users/'' @ i @ ''/avatars/'')"
    if u: "t_users T i = Some u" "u_avatarFileId u = Some a" for i u a
  proof -
    from assms(1) u obtain h where "t_files T a = Some h" "f_ownerId h = i" "startsWith (f_key h) (''users/'' @ i @ ''/avatars/'')"
      unfolding files_ok_def by blast
    with keep [of a h] show ?thesis by auto
  qed
  moreover have "\<exists>h. t_files ?T a = Some h \<and> startsWith (f_key h) (''products/'' @ i @ ''/images/'')"
    if p: "t_products T i = Some p" "p_imageFileId p = Some a" for i p a
  proof -
    from assms(1) p obtain h where "t_files T a = Some h" "startsWith (f_key h) (''products/'' @ i @ ''/images/'')"
      unfolding files_ok_def by blast
    with keep [of a h] show ?thesis by auto
  qed
  ultimately show ?thesis unfolding files_ok_def by simp
qed

lemma files_ok_presign: "files_ok T \<Longrightarrow> presign_effect fileId user dto T v T' \<Longrightarrow> files_ok T'"
  by (auto simp: presign_effect_def intro: files_ok_add)

lemma files_ok_complete:
  assumes "files_ok T" and "complete_effect cfg in_storage dto user T v T'"
  shows "files_ok T'"
proof -
  consider (same) "T' = T"
    | (left) f e where "t_files T (cu_fileId dto) = Some f" "f_ownerId f = au_sub user"
        "bound dto user f T T'" "v = Inl e"
    | (saved) f T1 g where "t_files T (cu_fileId dto) = Some f" "f_ownerId f = au_sub user"
        "bound dto user f T T1" "T' = T1\<lparr>t_files := (t_files T)(cu_fileId dto \<mapsto> g)\<rparr>"
        "f_key g = f_key f" "f_ownerId g = f_ownerId f" "f_id g = f_id f"
        "f_contentType g = f_contentType f" "f_size g = f_size f"
    using assms(2) by (cases v) (fastforce simp: complete_effect_def Let_def)+
  then show ?thesis
  proof cases
    case same
    with assms(1) show ?thesis by simp
  next
    case left
    with files_ok_bound [OF assms(1) left(1,2,3)] show ?thesis by simp
  next
    case saved
    from bound_simps [OF saved(3)] saved(1) have "t_files T1 = t_files T" by simp
    with files_ok_save [OF files_ok_bound [OF assms(1) saved(1,2,3)], of "cu_fileId dto" f g] saved
    show ?thesis by simp
  qed
qed

lemma files_step_ok:
  assumes fs: "files_database (fd_store deps) tabs tx" and "tx (fw_db w) = Idle" and "files_ok (tabs (fw_db w))"
  shows "tx (fw_db (files_step deps a w)) = Idle \<and> files_ok (tabs (fw_db (files_step deps a w)))"
proof (cases a)
  case (Presign fileId user dto)
  obtain v w' where run: "createPresignedUpload deps fileId user dto w = (v, w')" by fastforce
  from files_database.presign_run [OF fs assms(2) refl run] assms(3) files_ok_presign Presign run
  show ?thesis by auto
next
  case (Complete dto user)
  obtain v w' where run: "completeUpload deps dto user w = (v, w')" by fastforce
  from assms(3) have "files_schema (tabs (fw_db w))" by (simp add: files_ok_def)
  from files_database.complete_run [OF fs assms(2) this refl run] assms(3) files_ok_complete Complete run
  show ?thesis by auto
next
  case (GetFile i user)
  obtain v w' where run: "getFileById deps i user w = (v, w')" by fastforce
  from files_database.get_run [OF fs assms(2) refl run] assms(3) GetFile run
  show ?thesis by auto
qed

section \<open>Keys\<close>

lemma segment_prefix:
  assumes "CHR ''/'' \<notin> set a" and "CHR ''/'' \<notin> set b"
  shows "prefix (b @ CHR ''/'' # ys) (a @ CHR ''/'' # ys @ xs) \<longleftrightarrow> a = b"
proof
  assume "prefix (b @ CHR ''/'' # ys) (a @ CHR ''/'' # ys @ xs)"
  then obtain zs where "a @ CHR ''/'' # (ys @ xs) = b @ CHR ''/'' # (ys @ zs)"
    by (auto simp: prefix_def)
  from segment_eq [OF assms this] show "a = b" by simp
qed simp

lemma avatar_key_accepts:
  assumes "CHR ''/'' \<notin> set a" and "CHR ''/'' \<notin> set b"
  shows "startsWith (''users/'' @ a @ ''/avatars/'' @ rest) (''users/'' @ b @ ''/avatars/'') \<longleftrightarrow> a = b"
  using segment_prefix [OF assms, of "''avatars/''" rest] by (simp add: startsWith_def)

lemma image_key_accepts:
  assumes "CHR ''/'' \<notin> set a" and "CHR ''/'' \<notin> set b"
  shows "startsWith (''products/'' @ a @ ''/images/'' @ rest) (''products/'' @ b @ ''/images/'') \<longleftrightarrow> a = b"
  using segment_prefix [OF assms, of "''images/''" rest] by (simp add: startsWith_def)

section \<open>A small example\<close>

definition demo_files_deps :: "(ref_db, string list) files_deps" where
  "demo_files_deps =
     \<lparr>fd_store = ref_files, fd_s3 = ref_s3,
      fd_config = \<lparr>s3_region = ''eu'', s3_bucket = ''b'', s3_cloudfrontBaseUrl = None,
        s3_defaultExpiresInSec = Fin 900, s3_credentials = None\<rparr>\<rparr>"

definition demo_files_world :: "file_record list \<Rightarrow> (ref_db, string list) files_world" where
  "demo_files_world files =
     \<lparr>fw_db = (demo_db [])\<lparr>rd_rows := (rd_rows (demo_db []))\<lparr>rr_files := files\<rparr>\<rparr>,
      fw_s3 = [''users/u1/avatars/f1.png'']\<rparr>"

definition demo_uploader :: auth_user where
  "demo_uploader = \<lparr>au_sub = ''u1'', au_email = ''e'', au_roles = [''user''], au_scopes = [''files:write'']\<rparr>"

definition demo_upload :: presign_file_dto where
  "demo_upload = \<lparr>pf_contentType = ''image/png'', pf_sizeBytes = Fin 10, pf_kind = ''avatar'', pf_productId = None\<rparr>"

definition demo_file :: file_record where
  "demo_file = \<lparr>f_id = ''x'', f_ownerId = ''u1'', f_entityId = None, f_key = ''users/u1/avatars/f1.png'',
     f_contentType = ''image/png'', f_size = 10, f_status = FileStatus_PENDING,
     f_visibility = FileVisibility_PRIVATE, f_createdAt = 1000, f_updatedAt = 1000\<rparr>"

definition demo_complete :: complete_upload_dto where
  "demo_complete = \<lparr>cu_fileId = ''x'', cu_bindTo = ''avatar'', cu_productId = None\<rparr>"

lemma demo_files_simps [simp]:
  "fd_store demo_files_deps = ref_files"
  "ref_tx (fw_db (demo_files_world files)) = Idle"
  "t_files (ref_tabs (fw_db (demo_files_world files))) = row_map f_id files"
  "t_users (ref_tabs (fw_db (demo_files_world files))) = [''u1'' \<mapsto> demo_user]"
  "t_products (ref_tabs (fw_db (demo_files_world files))) = [''p1'' \<mapsto> demo_product]"
  by (simp_all add: demo_files_deps_def demo_files_world_def demo_db_def ref_simps
      demo_user_def demo_product_def)

lemma demo_files_ok: "files_ok (ref_tabs (fw_db (demo_files_world [demo_file])))"
  by (simp add: files_ok_def files_schema_def demo_user_def demo_product_def demo_file_def)

lemma demo_presigned:
  "case fst (createPresignedUpload demo_files_deps ''f1'' demo_uploader demo_upload (demo_files_world [])) of
     Inl e \<Rightarrow> False | Inr p \<Rightarrow> pu_key p = ''users/u1/avatars/f1.png'' \<and> pu_fileId p = ''x''"
  by code_simp

lemma demo_completed:
  "case fst (completeUpload demo_files_deps demo_complete demo_uploader (demo_files_world [demo_file])) of
     Inl e \<Rightarrow> False | Inr view \<Rightarrow> f_status view = FileStatus_READY"
  by code_simp

section \<open>Properties\<close>

text \<open>
  Presigning an upload either throws and changes nothing, or the caller may upload
  (role and scope) a good file (an allowed image type, 1 byte to 5 MiB, an existing product
  exactly for a product image) and one pending private row of the caller is stored under the
  caller's or the product's key; the answer names that row. A failure to sign is the only
  exception that leaves the row behind.
\<close>

theorem presign_contract:
  assumes "files_database (fd_store deps) tabs tx" and "tx (fw_db w) = Idle"
    and "createPresignedUpload deps fileId user dto w = (v, w')"
  shows "tx (fw_db w') = Idle \<and> presign_effect fileId user dto (tabs (fw_db w)) v (tabs (fw_db w'))"
  by (rule files_database.presign_run [OF assms(1,2) refl assms(3)])

theorem presign_contract_witness:
  "\<exists>p. presign_effect ''f1'' demo_uploader demo_upload (ref_tabs (fw_db (demo_files_world []))) (Inr p)
     (ref_tabs (fw_db (snd (createPresignedUpload demo_files_deps ''f1'' demo_uploader demo_upload
       (demo_files_world []))))) \<and> pu_key p = ''users/u1/avatars/f1.png''"
proof -
  obtain p w' where run: "createPresignedUpload demo_files_deps ''f1'' demo_uploader demo_upload
      (demo_files_world []) = (Inr p, w')" "pu_key p = ''users/u1/avatars/f1.png''"
    using demo_presigned
    by (cases "createPresignedUpload demo_files_deps ''f1'' demo_uploader demo_upload (demo_files_world [])")
      (auto split: sum.splits)
  from presign_contract [OF _ _ run(1), of ref_tabs ref_tx] ref_files.files_database_axioms run
  show ?thesis by auto
qed

text \<open>
  C26. Completing an upload either throws and changes nothing, or the file is the caller's, it
  was ready or its object is in the storage, and the caller's avatar or the product's image
  now refers to it, its key being one of that user or product; on success the file is ready
  and its entity set, and on an exception, which only the last save can raise here, the
  reference stays although the file's row does not change.
\<close>

theorem complete_contract:
  assumes "files_database (fd_store deps) tabs tx" and "tx (fw_db w) = Idle"
    and "files_schema (tabs (fw_db w))"
    and "completeUpload deps dto user w = (v, w')"
  shows "tx (fw_db w') = Idle \<and>
    complete_effect (fd_config deps)
      (\<lambda>key. fst (s3_head (fd_s3 deps) (s3_bucket (fd_config deps)) key (fw_s3 w)) = Inr ())
      dto user (tabs (fw_db w)) v (tabs (fw_db w'))"
  by (rule files_database.complete_run [OF assms(1,2,3) refl assms(4)])

theorem complete_contract_witness:
  "\<exists>view. complete_effect (fd_config demo_files_deps) (\<lambda>key. key = ''users/u1/avatars/f1.png'')
     demo_complete demo_uploader (ref_tabs (fw_db (demo_files_world [demo_file]))) (Inr view)
     (ref_tabs (fw_db (snd (completeUpload demo_files_deps demo_complete demo_uploader
       (demo_files_world [demo_file])))))"
proof -
  obtain view w' where run: "completeUpload demo_files_deps demo_complete demo_uploader
      (demo_files_world [demo_file]) = (Inr view, w')"
    using demo_completed
    by (cases "completeUpload demo_files_deps demo_complete demo_uploader (demo_files_world [demo_file])")
      (auto split: sum.splits)
  have storage: "(\<lambda>key. fst (s3_head (fd_s3 demo_files_deps) (s3_bucket (fd_config demo_files_deps)) key
      (fw_s3 (demo_files_world [demo_file]))) = Inr ()) = (\<lambda>key. key = ''users/u1/avatars/f1.png'')"
    by (auto simp: fun_eq_iff demo_files_deps_def ref_s3_def demo_files_world_def)
  have "files_schema (ref_tabs (fw_db (demo_files_world [demo_file])))"
    using demo_files_ok by (simp add: files_ok_def)
  with complete_contract [OF _ _ _ run, of ref_tabs ref_tx] ref_files.files_database_axioms run
  show ?thesis by (auto simp: storage)
qed



text \<open>
  With identifiers that have no slash, the key made for an upload admits one binding only:
  an avatar's key the avatar of its uploader, a product image's key the image of its product.
\<close>

theorem object_key_binds:
  assumes "buildObjectKey kind userId contentType productId fileId = Inr key"
    and "CHR ''/'' \<notin> set userId" and "\<forall>p. productId = Some p \<longrightarrow> CHR ''/'' \<notin> set p"
    and "CHR ''/'' \<notin> set target"
  shows "(assertAvatarKeyBelongsToOwner key target = None \<longleftrightarrow> kind = ''avatar'' \<and> userId = target) \<and>
    (assertProductKeyMatchesTarget key target = None \<longleftrightarrow> kind \<noteq> ''avatar'' \<and> productId = Some target)"
proof (cases "kind = ''avatar''")
  case True
  with assms(1) obtain rest where "key = ''users/'' @ userId @ ''/avatars/'' @ rest"
    by (auto simp: buildObjectKey_def Let_def)
  moreover from this have "\<not> startsWith key (''products/'' @ target @ ''/images/'')"
    by (simp add: startsWith_def)
  ultimately show ?thesis
    using True avatar_key_accepts [OF assms(2,4), of rest]
    by (auto simp: assertAvatarKeyBelongsToOwner_def assertProductKeyMatchesTarget_def)
next
  case False
  with assms(1) obtain p rest where p: "productId = Some p" "key = ''products/'' @ p @ ''/images/'' @ rest"
    by (auto simp: buildObjectKey_def Let_def split: if_splits elim: truthyE)
  moreover from p have "\<not> startsWith key (''users/'' @ target @ ''/avatars/'')"
    by (simp add: startsWith_def)
  moreover from p assms(3) have "CHR ''/'' \<notin> set p" by simp
  ultimately show ?thesis
    using False image_key_accepts [of p target rest] assms(4)
    by (auto simp: assertAvatarKeyBelongsToOwner_def assertProductKeyMatchesTarget_def)
qed

theorem object_key_binds_witness:
  "assertAvatarKeyBelongsToOwner ''users/u1/avatars/f1.png'' ''u1'' = None \<and>
   assertAvatarKeyBelongsToOwner ''users/u1/avatars/f1.png'' ''u2'' \<noteq> None"
  using object_key_binds [of "''avatar''" "''u1''" "''image/png''" None "''f1''" "''users/u1/avatars/f1.png''" "''u1''"]
    object_key_binds [of "''avatar''" "''u1''" "''image/png''" None "''f1''" "''users/u1/avatars/f1.png''" "''u2''"]
  by (simp add: buildObjectKey_def extension_by_type_def)

end
