(* ===== verification/AccountsStore.thy ===== *)
theory AccountsStore
  imports Store
begin

text \<open>
  The repository of users as the users and authentication services call it, and the effects
  documented for it. A password hash is not loaded unless it is asked for. Deleting a user
  deletes, through the foreign keys, the user's orders with their items and processed
  messages, and the user's files, which no avatar or product image then refers to.
\<close>

record new_user =
  nu_email :: string
  nu_passwordHash :: "string option"
  nu_roles :: "string list option"
  nu_scopes :: "string list option"

text \<open>
  A partial user: an absent property is \<open>None\<close>, or \<open>Undefined\<close> where a null is a value of its
  own. A user loaded by \<open>preload\<close> has the properties given written over its columns; its hash is
  there only if it was given.
\<close>

record user_updates =
  uu_id :: "string option"
  uu_email :: "string option"
  uu_passwordHash :: "string js_input"
  uu_roles :: "string list option"
  uu_scopes :: "string list option"
  uu_avatarFileId :: "string js_input"

record preloaded_user =
  pl_columns :: user_row
  pl_passwordHash :: "string js_input"

record 'd users_store =
  users_findByEmail :: "string \<Rightarrow> ('d, user_row option) async"
  users_findWithPassword :: "string \<Rightarrow> ('d, user_row option) async"
  users_find :: "('d, user_row list) async"
  users_findOne :: "string \<Rightarrow> ('d, user_row option) async"
  users_insert :: "new_user \<Rightarrow> ('d, user_row) async"
  users_preload :: "user_updates \<Rightarrow> ('d, preloaded_user option) async"
  users_save :: "preloaded_user \<Rightarrow> ('d, preloaded_user) async"
  users_delete :: "string \<Rightarrow> ('d, nat option) async"

section \<open>Effects\<close>

definition hidden :: "user_row \<Rightarrow> user_row" where
  "hidden u = u\<lparr>u_passwordHash := None\<rparr>"

definition with_email :: "string \<Rightarrow> tables \<Rightarrow> user_row option \<Rightarrow> bool" where
  "with_email e T v \<longleftrightarrow>
     (case v of
        None \<Rightarrow> \<forall>i u. t_users T i = Some u \<longrightarrow> u_email u \<noteq> e
      | Some u \<Rightarrow> t_users T (u_id u) = Some u \<and> u_email u = e)"

definition email_free :: "tables \<Rightarrow> string \<Rightarrow> string \<Rightarrow> bool" where
  "email_free T e uid \<longleftrightarrow> (\<forall>i u. t_users T i = Some u \<longrightarrow> u_email u = e \<longrightarrow> i = uid)"

definition user_added :: "new_user \<Rightarrow> tables \<Rightarrow> user_row \<Rightarrow> tables \<Rightarrow> bool" where
  "user_added n T u T' \<longleftrightarrow>
     t_users T (u_id u) = None \<and> email_free T (nu_email n) (u_id u) \<and>
     u_email u = nu_email n \<and> u_passwordHash u = nu_passwordHash n \<and>
     u_roles u = some_or (nu_roles n) [] \<and> u_scopes u = some_or (nu_scopes n) [] \<and>
     u_avatarFileId u = None \<and> T' = T\<lparr>t_users := (t_users T)(u_id u \<mapsto> u)\<rparr>"

definition preloaded :: "user_updates \<Rightarrow> user_row \<Rightarrow> preloaded_user" where
  "preloaded upd u =
     \<lparr>pl_columns = (hidden u)
        \<lparr>u_email := some_or (uu_email upd) (u_email u),
         u_roles := some_or (uu_roles upd) (u_roles u),
         u_scopes := some_or (uu_scopes upd) (u_scopes u),
         u_avatarFileId := given (uu_avatarFileId upd) (u_avatarFileId u)\<rparr>,
      pl_passwordHash = uu_passwordHash upd\<rparr>"

definition user_saved :: "preloaded_user \<Rightarrow> tables \<Rightarrow> preloaded_user \<Rightarrow> tables \<Rightarrow> bool" where
  "user_saved p T p' T' \<longleftrightarrow>
     (\<forall>u. t_users T (u_id (pl_columns p)) = Some u \<longrightarrow>
        email_free T (u_email (pl_columns p)) (u_id (pl_columns p)) \<and>
        (\<forall>f. u_avatarFileId (pl_columns p) = Some f \<longrightarrow> t_files T f \<noteq> None) \<and>
        (\<exists>ts. p' = p\<lparr>pl_columns := (pl_columns p)\<lparr>u_updatedAt := ts\<rparr>\<rparr> \<and>
           T' = T\<lparr>t_users := (t_users T)(u_id (pl_columns p) \<mapsto>
             (pl_columns p)\<lparr>u_updatedAt := ts,
               u_passwordHash := given (pl_passwordHash p) (u_passwordHash u)\<rparr>)\<rparr>))"

definition keep_if :: "('a \<Rightarrow> bool) \<Rightarrow> (string \<rightharpoonup> 'a) \<Rightarrow> string \<rightharpoonup> 'a" where
  "keep_if P t = (\<lambda>i. case t i of None \<Rightarrow> None | Some r \<Rightarrow> if P r then Some r else None)"

definition still :: "tables \<Rightarrow> string \<Rightarrow> string option \<Rightarrow> string option" where
  "still T uid ref =
     (case ref of None \<Rightarrow> None
      | Some i \<Rightarrow> (case t_files T i of
            Some f \<Rightarrow> if f_ownerId f = uid then None else Some i | None \<Rightarrow> Some i))"

definition orders_of :: "tables \<Rightarrow> string \<Rightarrow> string set" where
  "orders_of T uid = {oid. \<exists>r. t_orders T oid = Some r \<and> o_userId r = uid}"

definition without_user :: "string \<Rightarrow> tables \<Rightarrow> tables" where
  "without_user uid T =
     \<lparr>t_users = (\<lambda>i. if i = uid then None else
        map_option (\<lambda>u. u\<lparr>u_avatarFileId := still T uid (u_avatarFileId u)\<rparr>) (t_users T i)),
      t_products = (\<lambda>i.
        map_option (\<lambda>p. p\<lparr>p_imageFileId := still T uid (p_imageFileId p)\<rparr>) (t_products T i)),
      t_orders = keep_if (\<lambda>r. o_userId r \<noteq> uid) (t_orders T),
      t_items = keep_if (\<lambda>it. oi_orderId it \<notin> orders_of T uid) (t_items T),
      t_processed = keep_if (\<lambda>pm. pm_orderId pm \<notin> orders_of T uid) (t_processed T),
      t_files = keep_if (\<lambda>f. f_ownerId f \<noteq> uid) (t_files T)\<rparr>"

definition user_deleted :: "string \<Rightarrow> tables \<Rightarrow> nat option \<Rightarrow> tables \<Rightarrow> bool" where
  "user_deleted uid T n T' \<longleftrightarrow>
     (if t_users T uid = None then n = Some 0 \<and> T' = T
      else n = Some 1 \<and> T' = without_user uid T)"

section \<open>The contract\<close>

locale users_database =
  fixes us :: "'d users_store" and tabs :: "'d \<Rightarrow> tables" and tx :: "'d \<Rightarrow> tables txn"
  assumes findByEmail: "op_spec tabs tx ((=) Idle) (users_findByEmail us e)
      (reads (\<lambda>T v. \<exists>w. with_email e T w \<and> v = map_option hidden w))"
    and findWithPassword: "op_spec tabs tx ((=) Idle) (users_findWithPassword us e) (reads (with_email e))"
    and find_users: "op_spec tabs tx ((=) Idle) (users_find us)
      (reads (\<lambda>T v. distinct v \<and> set v = hidden ` ran (t_users T)))"
    and findOne: "op_spec tabs tx ((=) Idle) (users_findOne us uid)
      (reads (\<lambda>T v. v = map_option hidden (t_users T uid)))"
    and insert: "op_spec tabs tx ((=) Idle) (users_insert us n) (user_added n)"
    and preload: "uu_id upd = Some uid \<Longrightarrow> op_spec tabs tx ((=) Idle) (users_preload us upd)
      (reads (\<lambda>T v. v = map_option (preloaded upd) (t_users T uid)))"
    and save: "op_spec tabs tx ((=) Idle) (users_save us p) (user_saved p)"
    and delete: "op_spec tabs tx ((=) Idle) (users_delete us uid) (user_deleted uid)"

text \<open>A database on which reads do not fail, nor an insert of a free email.\<close>

locale reliable_users = users_database us tabs tx
  for us :: "'d users_store" and tabs :: "'d \<Rightarrow> tables" and tx :: "'d \<Rightarrow> tables txn" +
  assumes works_findByEmail: "tx s = Idle \<Longrightarrow> works (users_findByEmail us e) s"
    and works_findWithPassword: "tx s = Idle \<Longrightarrow> works (users_findWithPassword us e) s"
    and works_insert: "tx s = Idle \<Longrightarrow> with_email (nu_email n) (tabs s) None \<Longrightarrow>
      works (users_insert us n) s"

text \<open>The users' part of the schema: own identifiers, one user for an email, and references to files.\<close>

definition accounts_ok :: "tables \<Rightarrow> bool" where
  "accounts_ok T \<longleftrightarrow>
     (\<forall>i u. t_users T i = Some u \<longrightarrow> u_id u = i \<and> email_free T (u_email u) i \<and>
        (\<forall>f. u_avatarFileId u = Some f \<longrightarrow> t_files T f \<noteq> None)) \<and>
     (\<forall>i p f. t_products T i = Some p \<longrightarrow> p_imageFileId p = Some f \<longrightarrow> t_files T f \<noteq> None) \<and>
     (\<forall>i f. t_files T i = Some f \<longrightarrow> t_users T (f_ownerId f) \<noteq> None)"

end
