(* ===== verification/Accounts.thy ===== *)
theory Accounts
  imports AccountsStore Gateway
begin

text \<open>
  The users service (\<^verbatim>\<open>src/users/user.service.ts\<close>) and authentication
  (\<^verbatim>\<open>src/auth\<close>): login, the token's strategy and the guards. Hashing and comparing passwords
  (\<^verbatim>\<open>bcryptjs\<close>), signing and verifying tokens and reading the bearer token of a request are
  arguments.
\<close>

section \<open>Libraries\<close>

text \<open>
  \<open>bc_hash cost password salt\<close>; bcrypt looks at the first 72 bytes of a password. A token holds
  for \<open>ttl\<close> seconds from the second it was signed in, and verifies to what was signed; no other
  text verifies.
\<close>

record bcrypt =
  bc_hash :: "nat \<Rightarrow> string \<Rightarrow> string \<Rightarrow> string"
  bc_compare :: "string \<Rightarrow> string \<Rightarrow> bool"

locale password_hashing =
  fixes bc :: bcrypt
  assumes hash_nonempty: "bc_hash bc cost p salt \<noteq> []"
    and compare_hash: "bc_compare bc q (bc_hash bc cost p salt) \<longleftrightarrow> take 72 q = take 72 p"

locale tokens =
  fixes jwt :: jwt_service and ttl :: int
  assumes verify_sign: "jwt_sign jwt now u = Inr t \<Longrightarrow> later div 1000 < now div 1000 + ttl \<Longrightarrow>
      jwt_verify jwt later t = Inr u"
    and verify_signed: "jwt_verify jwt later t = Inr u \<Longrightarrow>
      \<exists>now. jwt_sign jwt now u = Inr t \<and> later div 1000 < now div 1000 + ttl"
    and signed_once: "jwt_sign jwt now u = Inr t \<Longrightarrow> jwt_sign jwt now' u' = Inr t \<Longrightarrow>
      u' = u \<and> now' div 1000 = now div 1000"

section \<open>Users\<close>

definition users_create ::
  "'d users_store \<Rightarrow> bcrypt \<Rightarrow> string \<Rightarrow> string \<Rightarrow> string option \<Rightarrow> string list option \<Rightarrow>
   string list option \<Rightarrow> ('d, user_row) async" where
  "users_create us bc salt email password roles scopes =
     await (users_findByEmail us email) (\<lambda>existingUser.
       case existingUser of
         Some u \<Rightarrow> resolve u
       | None \<Rightarrow>
           users_insert us
             \<lparr>nu_email = email,
              nu_passwordHash = (if truthy password then Some (bc_hash bc 10 (the password) salt) else None),
              nu_roles = roles, nu_scopes = scopes\<rparr>)"

definition users_getAll :: "'d users_store \<Rightarrow> ('d, user_row list) async" where
  "users_getAll us = users_find us"

definition getUser :: "'d users_store \<Rightarrow> string \<Rightarrow> ('d, user_row) async" where
  "getUser us uid =
     await (users_findOne us uid) (\<lambda>user.
       case user of None \<Rightarrow> throw (NotFoundException ''User not found'') | Some u \<Rightarrow> resolve u)"

text \<open>\<open>{id, ...updates}\<close>: an \<open>id\<close> among the updates takes the place of the first.\<close>

definition spread_id :: "string \<Rightarrow> user_updates \<Rightarrow> user_updates" where
  "spread_id uid updates = updates\<lparr>uu_id := nullish (uu_id updates) (Some uid)\<rparr>"

definition updateUser :: "'d users_store \<Rightarrow> string \<Rightarrow> user_updates \<Rightarrow> ('d, preloaded_user) async" where
  "updateUser us uid updates =
     await (users_preload us (spread_id uid updates)) (\<lambda>user.
       case user of
         None \<Rightarrow> throw (NotFoundException ''User not found'')
       | Some u \<Rightarrow> users_save us u)"

definition deleteUser :: "'d users_store \<Rightarrow> string \<Rightarrow> ('d, unit) async" where
  "deleteUser us uid =
     await (users_delete us uid) (\<lambda>affected.
       if affected = None \<or> affected = Some 0 then throw (NotFoundException ''User not found'')
       else resolve ())"

section \<open>Authentication\<close>

definition login ::
  "'d users_store \<Rightarrow> bcrypt \<Rightarrow> jwt_service \<Rightarrow> int \<Rightarrow> string \<Rightarrow> string \<Rightarrow> ('d, string) async" where
  "login us bc jwt now email password =
     await (users_findWithPassword us email) (\<lambda>user.
       if \<not> truthy (Option.bind user u_passwordHash) then
         throw (UnauthorizedException ''Invalid credentials'')
       else if \<not> bc_compare bc password (the (u_passwordHash (the user))) then
         throw (UnauthorizedException ''Invalid credentials'')
       else
         (case jwt_sign jwt now
             \<lparr>au_sub = u_id (the user), au_email = u_email (the user),
              au_roles = u_roles (the user), au_scopes = u_scopes (the user)\<rparr> of
            Inl e \<Rightarrow> throw e
          | Inr accessToken \<Rightarrow> resolve accessToken))"

text \<open>\<open>JwtStrategy.validate\<close>, and the guard the framework makes of the strategy.\<close>

definition jwt_validate :: "auth_user \<Rightarrow> auth_user" where
  "jwt_validate payload =
     \<lparr>au_sub = au_sub payload, au_email = au_email payload, au_roles = au_roles payload,
      au_scopes = au_scopes payload\<rparr>"

definition JwtAuthGuard ::
  "jwt_service \<Rightarrow> (string option \<Rightarrow> string option) \<Rightarrow> int \<Rightarrow> string option \<Rightarrow> exn + auth_user" where
  "JwtAuthGuard jwt fromAuthHeaderAsBearerToken now authorization =
     (case fromAuthHeaderAsBearerToken authorization of
        None \<Rightarrow> Inl (UnauthorizedException ''Unauthorized'')
      | Some token \<Rightarrow>
          (case jwt_verify jwt now token of
             Inl e \<Rightarrow> Inl (UnauthorizedException ''Unauthorized'')
           | Inr payload \<Rightarrow> Inr (jwt_validate payload)))"

definition roles_canActivate :: "string list option \<Rightarrow> auth_user option \<Rightarrow> exn + bool" where
  "roles_canActivate requiredRoles user =
     (if requiredRoles = None \<or> requiredRoles = Some [] then Inr True
      else
        (let roles = (case user of None \<Rightarrow> [] | Some u \<Rightarrow> au_roles u) in
         if \<not> list_ex (\<lambda>role. role \<in> set roles) (the requiredRoles)
         then Inl (ForbiddenException ''Insufficient role'') else Inr True))"

definition scopes_canActivate :: "string list option \<Rightarrow> auth_user option \<Rightarrow> exn + bool" where
  "scopes_canActivate requiredScopes user =
     (if requiredScopes = None \<or> requiredScopes = Some [] then Inr True
      else
        (let scopes = (case user of None \<Rightarrow> [] | Some u \<Rightarrow> au_scopes u) in
         if \<not> list_all (\<lambda>scope. scope \<in> set scopes) (the requiredScopes)
         then Inl (ForbiddenException ''Insufficient scope'') else Inr True))"

definition auth_me :: "auth_user \<Rightarrow> auth_user" where
  "auth_me user = user"

end
