(* ===== verification/ReferenceAccounts.thy ===== *)
theory ReferenceAccounts
  imports Accounts ReferenceStore
begin

text \<open>
  The users repository over the reference store, a hash that keeps what bcrypt looks at, and
  tokens that carry their content: interpretations of what the services rely on.
\<close>

section \<open>The repository\<close>

definition ref_findEmail :: "string \<Rightarrow> ref_rows \<Rightarrow> user_row option" where
  "ref_findEmail e rs = find (\<lambda>u. u_email u = e) (visible u_id (rr_users rs))"

definition ref_insertUser :: "new_user \<Rightarrow> (ref_db, user_row) async" where
  "ref_insertUser n d =
     (let rs = rd_rows d;
          u = \<lparr>u_id = fresh_id u_id (rr_users rs), u_email = nu_email n,
               u_passwordHash = nu_passwordHash n, u_roles = some_or (nu_roles n) [],
               u_scopes = some_or (nu_scopes n) [], u_avatarFileId = None,
               u_createdAt = rd_now d, u_updatedAt = rd_now d\<rparr>
      in if ref_findEmail (nu_email n) rs \<noteq> None then
           refuse ''23505'' ''duplicate key value violates unique constraint'' d
         else (Inr u, on_rows (\<lambda>rs. rs\<lparr>rr_users := u # rr_users rs\<rparr>) d))"

definition ref_preloadUser :: "user_updates \<Rightarrow> (ref_db, preloaded_user option) async" where
  "ref_preloadUser upd =
     gets (\<lambda>d. case uu_id upd of None \<Rightarrow> None
       | Some i \<Rightarrow> map_option (preloaded upd) (row_map u_id (rr_users (rd_rows d)) i))"

definition ref_saveUser :: "preloaded_user \<Rightarrow> (ref_db, preloaded_user) async" where
  "ref_saveUser p d =
     (let rs = rd_rows d; c = pl_columns p in
      case row_map u_id (rr_users rs) (u_id c) of
        None \<Rightarrow> (Inr p, d)
      | Some u \<Rightarrow>
          if find (\<lambda>v. u_email v = u_email c \<and> u_id v \<noteq> u_id c) (visible u_id (rr_users rs)) \<noteq> None then
            refuse ''23505'' ''duplicate key value violates unique constraint'' d
          else if (case u_avatarFileId c of None \<Rightarrow> False
                   | Some f \<Rightarrow> row_map f_id (rr_files rs) f = None) then
            refuse ''23503'' ''violates foreign key constraint'' d
          else (Inr (p\<lparr>pl_columns := c\<lparr>u_updatedAt := rd_now d\<rparr>\<rparr>),
            on_rows (\<lambda>rs. rs\<lparr>rr_users :=
              c\<lparr>u_updatedAt := rd_now d, u_passwordHash := given (pl_passwordHash p) (u_passwordHash u)\<rparr>
                # rr_users rs\<rparr>) d))"

definition ref_owned :: "string \<Rightarrow> ref_rows \<Rightarrow> string \<Rightarrow> bool" where
  "ref_owned uid rs oid =
     (case row_map o_id (rr_orders rs) oid of None \<Rightarrow> False | Some r \<Rightarrow> o_userId r = uid)"

definition ref_without_user :: "string \<Rightarrow> ref_rows \<Rightarrow> ref_rows" where
  "ref_without_user uid rs =
     (let T = tables_of rs in
      rs\<lparr>rr_users := map (\<lambda>u. u\<lparr>u_avatarFileId := still T uid (u_avatarFileId u)\<rparr>)
           (filter (\<lambda>u. u_id u \<noteq> uid) (rr_users rs)),
         rr_products := map (\<lambda>p. p\<lparr>p_imageFileId := still T uid (p_imageFileId p)\<rparr>) (rr_products rs),
         rr_orders := filter (\<lambda>r. o_userId r \<noteq> uid) (visible o_id (rr_orders rs)),
         rr_items := filter (\<lambda>it. \<not> ref_owned uid rs (oi_orderId it)) (visible oi_id (rr_items rs)),
         rr_processed := filter (\<lambda>pm. \<not> ref_owned uid rs (pm_orderId pm))
           (visible pm_messageId (rr_processed rs)),
         rr_files := filter (\<lambda>f. f_ownerId f \<noteq> uid) (visible f_id (rr_files rs))\<rparr>)"

definition ref_deleteUser :: "string \<Rightarrow> (ref_db, nat option) async" where
  "ref_deleteUser uid d =
     (if row_map u_id (rr_users (rd_rows d)) uid = None then (Inr (Some 0), d)
      else (Inr (Some 1), on_rows (ref_without_user uid) d))"

definition ref_users_store :: "ref_db users_store" where
  "ref_users_store =
     \<lparr>users_findByEmail = (\<lambda>e. gets (\<lambda>d. map_option hidden (ref_findEmail e (rd_rows d)))),
      users_findWithPassword = (\<lambda>e. gets (\<lambda>d. ref_findEmail e (rd_rows d))),
      users_find = gets (\<lambda>d. remdups (map hidden (visible u_id (rr_users (rd_rows d))))),
      users_findOne = (\<lambda>i. gets (\<lambda>d. map_option hidden (row_map u_id (rr_users (rd_rows d)) i))),
      users_insert = ref_insertUser,
      users_preload = ref_preloadUser,
      users_save = ref_saveUser,
      users_delete = ref_deleteUser\<rparr>"

lemma row_map_map:
  assumes "\<And>r. idf (g r) = idf r"
  shows "row_map idf (map g rs) i = map_option g (row_map idf rs i)"
  by (induction rs) (auto simp: assms)

lemma ref_with_email: "with_email e (tables_of rs) (ref_findEmail e rs)"
proof (cases "ref_findEmail e rs")
  case None
  then have "\<forall>i u. row_map u_id (rr_users rs) i = Some u \<longrightarrow> u_email u \<noteq> e"
    by (simp add: ref_findEmail_def find_visible_None)
  with None show ?thesis by (simp add: with_email_def tables_of_def)
next
  case (Some u)
  with find_visible_Some [of "\<lambda>u. u_email u = e" u_id "rr_users rs" u] show ?thesis
    by (simp add: with_email_def ref_findEmail_def tables_of_def)
qed

lemma ref_insertUser_spec: "op_spec ref_tabs ref_tx ((=) Idle) (ref_insertUser n) (user_added n)"
  by (intro op_specI)
    (auto simp: ref_insertUser_def Let_def user_added_def ref_simps is_refuse email_free_def
      ref_findEmail_def find_visible_None)

lemma ref_saveUser_spec: "op_spec ref_tabs ref_tx ((=) Idle) (ref_saveUser p) (user_saved p)"
proof (rule op_specI)
  fix d
  let ?c = "pl_columns p"
  show "(\<exists>c msg. ref_saveUser p d = refuse c msg d) \<or>
    (\<exists>x t. ref_saveUser p d = (Inr x, t) \<and> user_saved p (ref_tabs d) x (ref_tabs t) \<and> rd_tx t = rd_tx d)"
  proof (cases "row_map u_id (rr_users (rd_rows d)) (u_id ?c)")
    case None
    then show ?thesis by (auto simp: ref_saveUser_def Let_def user_saved_def ref_simps)
  next
    case (Some u)
    consider (dup) "find (\<lambda>v. u_email v = u_email ?c \<and> u_id v \<noteq> u_id ?c)
        (visible u_id (rr_users (rd_rows d))) \<noteq> None"
      | (orphan) f where "u_avatarFileId ?c = Some f" "row_map f_id (rr_files (rd_rows d)) f = None"
      | (good) "find (\<lambda>v. u_email v = u_email ?c \<and> u_id v \<noteq> u_id ?c)
          (visible u_id (rr_users (rd_rows d))) = None"
        "\<forall>f. u_avatarFileId ?c = Some f \<longrightarrow> row_map f_id (rr_files (rd_rows d)) f \<noteq> None"
      by blast
    then show ?thesis
    proof cases
      case dup
      with Some show ?thesis by (simp add: ref_saveUser_def Let_def is_refuse)
    next
      case orphan
      with Some show ?thesis by (auto simp: ref_saveUser_def Let_def is_refuse)
    next
      case good
      from good(1) have "row_map u_id (rr_users (rd_rows d)) i = Some v \<Longrightarrow> u_email v = u_email ?c \<Longrightarrow> i = u_id ?c" for i v
        using row_map_mem [of u_id "rr_users (rd_rows d)" i v] by (auto simp: find_visible_None)
      with Some good show ?thesis
        by (auto simp: ref_saveUser_def Let_def user_saved_def ref_simps email_free_def split: option.split
            intro!: exI [of _ "rd_now d"])
    qed
  qed
qed

lemma ref_owned_iff: "ref_owned uid rs oid \<longleftrightarrow> oid \<in> orders_of (tables_of rs) uid"
  by (auto simp: ref_owned_def orders_of_def tables_of_def split: option.split)

lemma row_map_keep: "row_map idf (filter P (visible idf rs)) = keep_if P (row_map idf rs)"
  by (rule ext) (simp add: keep_if_def row_map_filter_visible)

lemma tables_of_simps:
  "t_users (tables_of rs) = row_map u_id (rr_users rs)"
  "t_products (tables_of rs) = row_map p_id (rr_products rs)"
  "t_orders (tables_of rs) = row_map o_id (rr_orders rs)"
  "t_items (tables_of rs) = row_map oi_id (rr_items rs)"
  "t_processed (tables_of rs) = row_map pm_messageId (rr_processed rs)"
  "t_files (tables_of rs) = row_map f_id (rr_files rs)"
  by (simp_all add: tables_of_def)

lemma ref_without_user: "tables_of (ref_without_user uid rs) = without_user uid (tables_of rs)"
  by (rule tables.equality)
    (simp_all add: tables_of_simps ref_without_user_def without_user_def Let_def row_map_keep
      ref_owned_iff fun_eq_iff row_map_map row_map_filter [where P = "\<lambda>i. i \<noteq> uid"])

lemma ref_deleteUser_spec: "op_spec ref_tabs ref_tx ((=) Idle) (ref_deleteUser uid) (user_deleted uid)"
  by (intro op_specI)
    (auto simp: ref_deleteUser_def user_deleted_def on_rows_def ref_tabs_def ref_without_user tables_of_simps)

interpretation ref_users: reliable_users ref_users_store ref_tabs ref_tx
proof unfold_locales
  show "op_spec ref_tabs ref_tx ((=) Idle) (users_findByEmail ref_users_store e)
      (reads (\<lambda>T v. \<exists>w. with_email e T w \<and> v = map_option hidden w))" for e
    by (auto simp: ref_users_store_def ref_tabs_def intro!: op_spec_gets exI [of _ "ref_findEmail e (rd_rows d)" for d]
        ref_with_email)
  show "op_spec ref_tabs ref_tx ((=) Idle) (users_findWithPassword ref_users_store e) (reads (with_email e))" for e
    using ref_with_email by (auto simp: ref_users_store_def ref_tabs_def intro!: op_spec_gets)
  show "op_spec ref_tabs ref_tx ((=) Idle) (users_find ref_users_store)
      (reads (\<lambda>T v. distinct v \<and> set v = hidden ` ran (t_users T)))"
    by (auto simp: ref_users_store_def ref_tabs_def tables_of_def intro!: op_spec_gets)
  show "works (users_insert ref_users_store n) s" if "with_email (nu_email n) (ref_tabs s) None" for n s
  proof -
    from that have "ref_findEmail (nu_email n) (rd_rows s) = None"
      by (simp add: with_email_def ref_findEmail_def find_visible_None ref_simps)
    then show ?thesis by (simp add: ref_users_store_def works_def ref_insertUser_def Let_def)
  qed
qed (simp_all add: ref_users_store_def op_spec_gets ref_tabs_def tables_of_def ref_insertUser_spec
    ref_saveUser_spec ref_deleteUser_spec ref_preloadUser_def)

section \<open>Hashes and tokens\<close>

definition ref_bcrypt :: bcrypt where
  "ref_bcrypt =
     \<lparr>bc_hash = (\<lambda>cost p salt. CHR ''$'' # take 72 p),
      bc_compare = (\<lambda>p h. h = CHR ''$'' # take 72 p)\<rparr>"

interpretation ref_hash: password_hashing ref_bcrypt
  by unfold_locales (auto simp: ref_bcrypt_def)

text \<open>A text, a list of texts and a number, each followed by what is left.\<close>

definition enc_text :: "string \<Rightarrow> string" where
  "enc_text s = concat (map (\<lambda>c. [CHR ''1'', c]) s) @ ''0''"

fun dec_text :: "string \<Rightarrow> (string \<times> string) option" where
  "dec_text (b # c # r) =
     (if b = CHR ''1'' then map_option (\<lambda>(s, t). (c # s, t)) (dec_text r)
      else Some ([], c # r))"
| "dec_text [b] = (if b = CHR ''1'' then None else Some ([], []))"
| "dec_text [] = None"

definition enc_texts :: "string list \<Rightarrow> string" where
  "enc_texts ss = concat (map (\<lambda>s. CHR ''1'' # enc_text s) ss) @ ''0''"

fun dec_texts :: "nat \<Rightarrow> string \<Rightarrow> (string list \<times> string) option" where
  "dec_texts (Suc n) (b # r) =
     (if b = CHR ''1'' then
        Option.bind (dec_text r) (\<lambda>(s, t). map_option (\<lambda>(ss, u). (s # ss, u)) (dec_texts n t))
      else Some ([], r))"
| "dec_texts _ _ = None"

fun dec_nat :: "string \<Rightarrow> nat \<times> string" where
  "dec_nat [] = (0, [])"
| "dec_nat (b # r) = (if b = CHR ''1'' then map_prod Suc id (dec_nat r) else (0, r))"

definition encode_token :: "nat \<Rightarrow> auth_user \<Rightarrow> string" where
  "encode_token sec u =
     replicate sec (CHR ''1'') @ ''0'' @ enc_text (au_sub u) @ enc_text (au_email u) @
     enc_texts (au_roles u) @ enc_texts (au_scopes u)"

definition decode_token :: "string \<Rightarrow> (nat \<times> auth_user) option" where
  "decode_token t =
     (case dec_nat t of (sec, t1) \<Rightarrow>
      Option.bind (dec_text t1) (\<lambda>(sub, t2).
      Option.bind (dec_text t2) (\<lambda>(email, t3).
      Option.bind (dec_texts (length t3) t3) (\<lambda>(roles, t4).
      Option.bind (dec_texts (length t4) t4) (\<lambda>(scopes, t5).
        Some (sec, \<lparr>au_sub = sub, au_email = email, au_roles = roles, au_scopes = scopes\<rparr>))))))"

lemma dec_enc_text: "dec_text (enc_text s @ r) = Some (s, r)"
proof (induction s)
  case Nil
  then show ?case by (cases r) (simp_all add: enc_text_def)
qed (simp_all add: enc_text_def)

lemma dec_enc_nat: "dec_nat (replicate n (CHR ''1'') @ CHR ''0'' # r) = (n, r)"
  by (induction n) simp_all

lemma dec_enc_texts:
  "length ss < n \<Longrightarrow> dec_texts n (enc_texts ss @ r) = Some (ss, r)"
proof (induction ss arbitrary: n)
  case Nil
  then show ?case by (cases n) (simp_all add: enc_texts_def)
next
  case (Cons s ss)
  then obtain m where n: "n = Suc m" "length ss < m" by (cases n) auto
  have "enc_texts (s # ss) @ r = CHR ''1'' # enc_text s @ enc_texts ss @ r" by (simp add: enc_texts_def)
  with n Cons.IH [of m] show ?case by (simp add: dec_enc_text)
qed

lemma dec_enc_texts_length:
  "dec_texts (length (enc_texts ss @ r)) (enc_texts ss @ r) = Some (ss, r)"
proof -
  have "length ss < length (enc_texts ss @ r)" by (induction ss) (auto simp: enc_texts_def)
  then show ?thesis by (rule dec_enc_texts)
qed

lemma decode_encode: "decode_token (encode_token sec u) = Some (sec, u)"
  using dec_enc_texts_length [of "au_scopes u" "[]"]
    dec_enc_texts_length [of "au_roles u" "enc_texts (au_scopes u)"]
  by (simp add: decode_token_def encode_token_def dec_enc_nat dec_enc_text)

definition ref_jwt :: jwt_service where
  "ref_jwt =
     \<lparr>jwt_sign = (\<lambda>now u. if now < 0 then Inl (JsError ''iat'') else Inr (encode_token (nat (now div 1000)) u)),
      jwt_verify = (\<lambda>now t. case decode_token t of
          None \<Rightarrow> Inl (JsError ''jwt malformed'')
        | Some (sec, u) \<Rightarrow>
            if encode_token sec u = t \<and> now div 1000 < int sec + 900 then Inr u
            else Inl (JsError ''jwt expired''))\<rparr>"

interpretation ref_tokens: tokens ref_jwt 900
proof
  show "jwt_verify ref_jwt later t = Inr u"
    if "jwt_sign ref_jwt now u = Inr t" "later div 1000 < now div 1000 + 900" for now u t later
    using that by (auto simp: ref_jwt_def decode_encode pos_imp_zdiv_nonneg_iff split: if_splits)
next
  fix later t u
  assume "jwt_verify ref_jwt later t = Inr u"
  then obtain sec where sec: "encode_token sec u = t" "later div 1000 < int sec + 900"
    by (auto simp: ref_jwt_def split: option.splits if_splits)
  then have "jwt_sign ref_jwt (1000 * int sec) u = Inr t" by (simp add: ref_jwt_def)
  with sec(2) show "\<exists>now. jwt_sign ref_jwt now u = Inr t \<and> later div 1000 < now div 1000 + 900"
    by (intro exI [of _ "1000 * int sec"]) simp
next
  fix now now' t u u'
  assume signed: "jwt_sign ref_jwt now u = Inr t" "jwt_sign ref_jwt now' u' = Inr t"
  then have t: "t = encode_token (nat (now div 1000)) u" "t = encode_token (nat (now' div 1000)) u'"
      "0 \<le> now" "0 \<le> now'"
    by (auto simp: ref_jwt_def split: if_splits)
  with decode_encode [of "nat (now div 1000)" u] decode_encode [of "nat (now' div 1000)" u']
  have "nat (now' div 1000) = nat (now div 1000)" "u' = u" by simp_all
  with t(3,4) show "u' = u \<and> now' div 1000 = now div 1000"
    by (simp add: pos_imp_zdiv_nonneg_iff eq_nat_nat_iff)
qed

end
