(* ===== verification/AccountsProperties.thy ===== *)
theory AccountsProperties
  imports ReferenceAccounts OrderProperties
begin

text \<open>
  Properties of the users service and of authentication: the schema survives every operation,
  a deletion with its cascade included; an update changes the row it names; and a password
  given at registration is exactly what logs in, with a token the guard takes for its lifetime.
\<close>

section \<open>Operations\<close>

context users_database
begin

lemma user_create_run:
  assumes idle: "tx d = Idle" and run: "users_create us bc salt e p roles scopes d = (v, d')"
  shows "tx d' = Idle \<and>
    (tabs d' = tabs d \<or> (\<exists>n u. v = Inr u \<and> user_added n (tabs d) u (tabs d')))"
proof -
  obtain a d1 where a: "users_findByEmail us e d = (a, d1)" by fastforce
  show ?thesis
  proof (cases a)
    case (Inl x)
    with op_spec_Inl [OF findByEmail, of d e x d1] a idle run show ?thesis
      by (auto simp: users_create_def await_def)
  next
    case (Inr w)
    with op_spec_Inr [OF findByEmail, of d e w d1] a idle have d1: "tabs d1 = tabs d" "tx d1 = Idle" by simp_all
    show ?thesis
    proof (cases w)
      case (Some u)
      with a Inr d1 run show ?thesis by (auto simp: users_create_def await_def async_simps)
    next
      case None
      let ?n = "\<lparr>nu_email = e, nu_passwordHash = (if truthy p then Some (bc_hash bc 10 (the p) salt) else None),
        nu_roles = roles, nu_scopes = scopes\<rparr>"
      from a Inr None run have ins: "users_insert us ?n d1 = (v, d')"
        by (simp add: users_create_def await_def)
      show ?thesis
      proof (cases v)
        case (Inl x)
        with op_spec_Inl [OF insert, of d1 ?n x d'] ins d1 show ?thesis by simp
      next
        case (Inr u)
        with op_spec_Inr [OF insert, of d1 ?n u d'] ins d1 show ?thesis by auto
      qed
    qed
  qed
qed

lemma user_update_run:
  assumes idle: "tx d = Idle" and run: "updateUser us uid upd d = (v, d')"
  defines "target \<equiv> the (nullish (uu_id upd) (Some uid))"
  shows "tx d' = Idle \<and>
    (case v of
       Inl e \<Rightarrow> tabs d' = tabs d
     | Inr p \<Rightarrow> \<exists>u. t_users (tabs d) target = Some u \<and>
         user_saved (preloaded (spread_id uid upd) u) (tabs d) p (tabs d'))"
proof -
  have target: "uu_id (spread_id uid upd) = Some target"
    by (cases "uu_id upd") (simp_all add: spread_id_def target_def)
  note pre = preload [OF target]
  obtain a d1 where a: "users_preload us (spread_id uid upd) d = (a, d1)" by fastforce
  show ?thesis
  proof (cases a)
    case (Inl x)
    with op_spec_Inl [OF pre, of d x d1] a idle run show ?thesis
      by (auto simp: updateUser_def await_def)
  next
    case (Inr w)
    with op_spec_Inr [OF pre, of d w d1] a idle have d1: "tabs d1 = tabs d" "tx d1 = Idle"
      and w: "w = map_option (preloaded (spread_id uid upd)) (t_users (tabs d) target)" by simp_all
    show ?thesis
    proof (cases "t_users (tabs d) target")
      case None
      with a Inr d1 w run show ?thesis by (auto simp: updateUser_def await_def async_simps)
    next
      case (Some u)
      let ?p = "preloaded (spread_id uid upd) u"
      from a Inr w Some run have sv: "users_save us ?p d1 = (v, d')"
        by (simp add: updateUser_def await_def)
      show ?thesis
      proof (cases v)
        case (Inl x)
        with op_spec_Inl [OF save, of d1 ?p x d'] sv d1 show ?thesis by simp
      next
        case (Inr p)
        with op_spec_Inr [OF save, of d1 ?p p d'] sv d1 Some show ?thesis by simp
      qed
    qed
  qed
qed

lemma user_delete_run:
  assumes idle: "tx d = Idle" and run: "deleteUser us uid d = (v, d')"
  shows "tx d' = Idle \<and> (case v of Inl e \<Rightarrow> tabs d' = tabs d | Inr u \<Rightarrow> tabs d' = without_user uid (tabs d))"
proof -
  obtain a d1 where a: "users_delete us uid d = (a, d1)" by fastforce
  show ?thesis
  proof (cases a)
    case (Inl x)
    with op_spec_Inl [OF delete, of d uid x d1] a idle run show ?thesis
      by (auto simp: deleteUser_def await_def)
  next
    case (Inr n)
    with op_spec_Inr [OF delete, of d uid n d1] a idle run show ?thesis
      by (auto simp: deleteUser_def await_def async_simps user_deleted_def split: if_splits)
  qed
qed

lemma login_run:
  assumes idle: "tx d = Idle" and run: "login us bc jwt now e p d = (v, d')"
  shows "tx d' = Idle \<and> tabs d' = tabs d \<and>
    (\<forall>t. v = Inr t \<longrightarrow> (\<exists>u h. t_users (tabs d) (u_id u) = Some u \<and> u_email u = e \<and>
       u_passwordHash u = Some h \<and> bc_compare bc p h \<and>
       jwt_sign jwt now \<lparr>au_sub = u_id u, au_email = u_email u, au_roles = u_roles u, au_scopes = u_scopes u\<rparr> = Inr t))"
proof -
  obtain a d1 where a: "users_findWithPassword us e d = (a, d1)" by fastforce
  show ?thesis
  proof (cases a)
    case (Inl x)
    with op_spec_Inl [OF findWithPassword, of d e x d1] a idle run show ?thesis
      by (auto simp: login_def await_def)
  next
    case (Inr w)
    with op_spec_Inr [OF findWithPassword, of d e w d1] a idle have d1: "tabs d1 = tabs d" "tx d1 = Idle"
      "with_email e (tabs d) w" by simp_all
    with a Inr run show ?thesis
      by (cases w) (auto simp: login_def await_def async_simps with_email_def elim!: truthyE
          split: if_splits sum.splits)
  qed
qed

end

section \<open>The schema survives\<close>

definition all_ok :: "tables \<Rightarrow> bool" where
  "all_ok T \<longleftrightarrow> schema_ok T \<and> accounts_ok T"

lemma all_ok_added:
  assumes "all_ok T" and "user_added n T u T'"
  shows "all_ok T'"
proof -
  from assms(2) have u: "t_users T (u_id u) = None" "email_free T (u_email u) (u_id u)" "u_avatarFileId u = None"
    "T' = T\<lparr>t_users := (t_users T)(u_id u \<mapsto> u)\<rparr>" by (auto simp: user_added_def)
  from assms(1) have a: "accounts_ok T" and s: "schema_ok T" by (simp_all add: all_ok_def)
  have "schema_ok T'"
    using s u(4) by (auto simp: schema_ok_def own_ids_def unique_keys_def foreign_keys_def)
  moreover have "u_id v = i \<and> email_free T' (u_email v) i \<and> (\<forall>f. u_avatarFileId v = Some f \<longrightarrow> t_files T' f \<noteq> None)"
    if "t_users T' i = Some v" for i v
  proof (cases "i = u_id u")
    case True
    with that u show ?thesis by (auto simp: email_free_def split: if_splits)
  next
    case False
    with that u(4) have v: "t_users T i = Some v" by simp
    with a have v2: "u_id v = i" "email_free T (u_email v) i" "\<forall>f. u_avatarFileId v = Some f \<longrightarrow> t_files T f \<noteq> None"
      by (simp_all add: accounts_ok_def)
    have "u_email v \<noteq> u_email u"
      using u(1,2) v False by (auto simp: email_free_def)
    with v2 u(4) show ?thesis by (auto simp: email_free_def split: if_splits)
  qed
  moreover have "t_files T' i = Some f \<Longrightarrow> t_users T' (f_ownerId f) \<noteq> None" for i f
    using a u(4) by (auto simp: accounts_ok_def split: if_splits)
  moreover have "t_products T' i = Some p \<Longrightarrow> p_imageFileId p = Some f \<Longrightarrow> t_files T' f \<noteq> None" for i p f
    using a u(4) by (auto simp: accounts_ok_def)
  ultimately show ?thesis unfolding all_ok_def accounts_ok_def by blast
qed

text \<open>A user's row changed to one with a free email and an existing avatar.\<close>

lemma all_ok_changed:
  assumes "all_ok T" and "t_users T i = Some u" and "u_id v = i" and "email_free T (u_email v) i"
    and "\<forall>f. u_avatarFileId v = Some f \<longrightarrow> t_files T f \<noteq> None"
  shows "all_ok (T\<lparr>t_users := (t_users T)(i \<mapsto> v)\<rparr>)"
proof -
  let ?T = "T\<lparr>t_users := (t_users T)(i \<mapsto> v)\<rparr>"
  from assms(1) have a: "accounts_ok T" and s: "schema_ok T" by (simp_all add: all_ok_def)
  have "schema_ok ?T"
    using s by (auto simp: schema_ok_def own_ids_def unique_keys_def foreign_keys_def)
  moreover have "u_id w = j \<and> email_free ?T (u_email w) j \<and> (\<forall>f. u_avatarFileId w = Some f \<longrightarrow> t_files ?T f \<noteq> None)"
    if "t_users ?T j = Some w" for j w
  proof (cases "j = i")
    case True
    with that assms(3-5) show ?thesis by (auto simp: email_free_def split: if_splits)
  next
    case False
    with that have w: "t_users T j = Some w" by simp
    with a have w2: "u_id w = j" "email_free T (u_email w) j" "\<forall>f. u_avatarFileId w = Some f \<longrightarrow> t_files T f \<noteq> None"
      by (simp_all add: accounts_ok_def)
    have "u_email w \<noteq> u_email v" using assms(4) w False by (auto simp: email_free_def)
    with w2 show ?thesis by (auto simp: email_free_def split: if_splits)
  qed
  moreover have "t_files ?T j = Some f \<Longrightarrow> t_users ?T (f_ownerId f) \<noteq> None" for j f
    using a by (auto simp: accounts_ok_def split: if_splits)
  moreover have "t_products ?T j = Some p \<Longrightarrow> p_imageFileId p = Some f \<Longrightarrow> t_files ?T f \<noteq> None" for j p f
    using a by (auto simp: accounts_ok_def)
  ultimately show ?thesis unfolding all_ok_def accounts_ok_def by blast
qed

lemma keep_if_Some [simp]: "keep_if P t i = Some r \<longleftrightarrow> t i = Some r \<and> P r"
  by (auto simp: keep_if_def split: option.split)

lemma without_user_simps [simp]:
  "t_users (without_user uid T) = (\<lambda>i. if i = uid then None else
     map_option (\<lambda>u. u\<lparr>u_avatarFileId := still T uid (u_avatarFileId u)\<rparr>) (t_users T i))"
  "t_products (without_user uid T) = (\<lambda>i.
     map_option (\<lambda>p. p\<lparr>p_imageFileId := still T uid (p_imageFileId p)\<rparr>) (t_products T i))"
  "t_orders (without_user uid T) = keep_if (\<lambda>r. o_userId r \<noteq> uid) (t_orders T)"
  "t_items (without_user uid T) = keep_if (\<lambda>it. oi_orderId it \<notin> orders_of T uid) (t_items T)"
  "t_processed (without_user uid T) = keep_if (\<lambda>pm. pm_orderId pm \<notin> orders_of T uid) (t_processed T)"
  "t_files (without_user uid T) = keep_if (\<lambda>f. f_ownerId f \<noteq> uid) (t_files T)"
  by (simp_all add: without_user_def)

lemma still_Some: "still T uid ref = Some i \<Longrightarrow>
    ref = Some i \<and> (\<forall>f. t_files T i = Some f \<longrightarrow> f_ownerId f \<noteq> uid)"
  by (auto simp: still_def split: option.splits if_splits)

text \<open>The cascade leaves no reference to a row it deletes.\<close>

lemma without_user_schema:
  assumes "schema_ok T"
  shows "schema_ok (without_user uid T)"
proof -
  have own: "own_ids T" and keys: "unique_keys T" and fks: "foreign_keys T"
    using assms by (simp_all add: schema_ok_def)
  let ?T = "without_user uid T"
  have "own_ids ?T" using own by (auto simp: own_ids_def)
  moreover have "unique_keys ?T" using keys unfolding unique_keys_def by simp
  moreover have "foreign_keys ?T"
    unfolding foreign_keys_def
  proof (intro conjI allI impI)
    fix i r
    assume "t_orders ?T i = Some r"
    then have r: "t_orders T i = Some r" "o_userId r \<noteq> uid" by simp_all
    with fks have "t_users T (o_userId r) \<noteq> None" unfolding foreign_keys_def by blast
    with r(2) show "t_users ?T (o_userId r) \<noteq> None" by simp
  next
    fix i it
    assume "t_items ?T i = Some it"
    then have it: "t_items T i = Some it" "oi_orderId it \<notin> orders_of T uid" by simp_all
    with fks obtain r where "t_orders T (oi_orderId it) = Some r" unfolding foreign_keys_def by blast
    with it(2) show "t_orders ?T (oi_orderId it) \<noteq> None" by (simp add: orders_of_def keep_if_def)
  next
    fix i pm
    assume "t_processed ?T i = Some pm"
    then have pm: "t_processed T i = Some pm" "pm_orderId pm \<notin> orders_of T uid" by simp_all
    with fks obtain r where "t_orders T (pm_orderId pm) = Some r" unfolding foreign_keys_def by blast
    with pm(2) show "t_orders ?T (pm_orderId pm) \<noteq> None" by (simp add: orders_of_def keep_if_def)
  qed
  ultimately show ?thesis by (simp add: schema_ok_def)
qed

lemma without_user_accounts:
  assumes "accounts_ok T"
  shows "accounts_ok (without_user uid T)"
proof -
  let ?T = "without_user uid T"
  have kept: "t_files ?T f \<noteq> None"
    if "still T uid ref = Some f" "\<And>f. ref = Some f \<Longrightarrow> t_files T f \<noteq> None" for ref f
  proof -
    from still_Some [OF that(1)] that(2) obtain g where "t_files T f = Some g" "f_ownerId g \<noteq> uid" by blast
    then show ?thesis by (simp add: keep_if_def)
  qed
  have "u_id v = i \<and> email_free ?T (u_email v) i \<and> (\<forall>f. u_avatarFileId v = Some f \<longrightarrow> t_files ?T f \<noteq> None)"
    if "t_users ?T i = Some v" for i v
  proof -
    from that obtain u where u: "t_users T i = Some u" "v = u\<lparr>u_avatarFileId := still T uid (u_avatarFileId u)\<rparr>"
      by (auto split: if_splits)
    with assms have ok: "u_id u = i" "email_free T (u_email u) i"
        "\<And>f. u_avatarFileId u = Some f \<Longrightarrow> t_files T f \<noteq> None"
      unfolding accounts_ok_def by blast+
    have "email_free ?T (u_email u) i" using ok(2) by (auto simp: email_free_def split: if_splits)
    with ok(1) u(2) kept [OF _ ok(3)] show ?thesis by simp
  qed
  moreover have "t_files ?T f \<noteq> None" if "t_products ?T i = Some p" "p_imageFileId p = Some f" for i p f
  proof -
    from that obtain q where q: "t_products T i = Some q" "still T uid (p_imageFileId q) = Some f" by auto
    with assms have "\<And>g. p_imageFileId q = Some g \<Longrightarrow> t_files T g \<noteq> None" unfolding accounts_ok_def by blast
    with kept q(2) show ?thesis by blast
  qed
  moreover have "t_users ?T (f_ownerId f) \<noteq> None" if "t_files ?T i = Some f" for i f
  proof -
    from that have "t_files T i = Some f" "f_ownerId f \<noteq> uid" by simp_all
    with assms show ?thesis unfolding accounts_ok_def by auto
  qed
  ultimately show ?thesis unfolding accounts_ok_def by blast
qed

section \<open>Sequences of operations\<close>

datatype users_action =
    CreateUser string string "string option" "string list option" "string list option"
  | UpdateUser string user_updates
  | DeleteUser string
  | GetUser string
  | GetUsers
  | Login int string string

fun users_step :: "'d users_store \<Rightarrow> bcrypt \<Rightarrow> jwt_service \<Rightarrow> users_action \<Rightarrow> 'd \<Rightarrow> 'd" where
  "users_step us bc jwt (CreateUser salt e p roles scopes) d = snd (users_create us bc salt e p roles scopes d)"
| "users_step us bc jwt (UpdateUser uid upd) d = snd (updateUser us uid upd d)"
| "users_step us bc jwt (DeleteUser uid) d = snd (deleteUser us uid d)"
| "users_step us bc jwt (GetUser uid) d = snd (getUser us uid d)"
| "users_step us bc jwt GetUsers d = snd (users_getAll us d)"
| "users_step us bc jwt (Login now e p) d = snd (login us bc jwt now e p d)"

lemma all_ok_saved:
  assumes "all_ok T" and "t_users T i = Some u" and "u_id (pl_columns p) = i" and "user_saved p T p' T'"
  shows "all_ok T'"
proof -
  from assms(2-4) obtain ts where "email_free T (u_email (pl_columns p)) i"
    "\<forall>f. u_avatarFileId (pl_columns p) = Some f \<longrightarrow> t_files T f \<noteq> None"
    "T' = T\<lparr>t_users := (t_users T)(i \<mapsto> (pl_columns p)\<lparr>u_updatedAt := ts,
       u_passwordHash := given (pl_passwordHash p) (u_passwordHash u)\<rparr>)\<rparr>"
    by (auto simp: user_saved_def)
  with all_ok_changed [OF assms(1,2)] assms(3) show ?thesis by simp
qed

lemma preloaded_simps [simp]:
  "u_id (pl_columns (preloaded upd u)) = u_id u"
  "u_email (pl_columns (preloaded upd u)) = some_or (uu_email upd) (u_email u)"
  "u_roles (pl_columns (preloaded upd u)) = some_or (uu_roles upd) (u_roles u)"
  "u_scopes (pl_columns (preloaded upd u)) = some_or (uu_scopes upd) (u_scopes u)"
  "u_avatarFileId (pl_columns (preloaded upd u)) = given (uu_avatarFileId upd) (u_avatarFileId u)"
  "pl_passwordHash (preloaded upd u) = uu_passwordHash upd"
  by (simp_all add: preloaded_def hidden_def)

lemma spread_id_simps [simp]:
  "uu_email (spread_id uid upd) = uu_email upd" "uu_roles (spread_id uid upd) = uu_roles upd"
  "uu_scopes (spread_id uid upd) = uu_scopes upd" "uu_avatarFileId (spread_id uid upd) = uu_avatarFileId upd"
  "uu_passwordHash (spread_id uid upd) = uu_passwordHash upd"
  by (simp_all add: spread_id_def)

lemma users_step_ok:
  assumes us: "users_database us tabs tx" and idle: "tx d = Idle" and ok: "all_ok (tabs d)"
  shows "tx (users_step us bc jwt a d) = Idle \<and> all_ok (tabs (users_step us bc jwt a d))"
proof (cases a)
  case (CreateUser salt e p roles scopes)
  obtain v d' where run: "users_create us bc salt e p roles scopes d = (v, d')" by fastforce
  from users_database.user_create_run [OF us idle run] have "tx d' = Idle \<and>
    (tabs d' = tabs d \<or> (\<exists>n u. v = Inr u \<and> user_added n (tabs d) u (tabs d')))" .
  with CreateUser run ok show ?thesis by (auto intro: all_ok_added [OF ok])
next
  case (UpdateUser uid upd)
  obtain v d' where run: "updateUser us uid upd d = (v, d')" by fastforce
  note upd = users_database.user_update_run [OF us idle run]
  show ?thesis
  proof (cases v)
    case (Inl e)
    with upd UpdateUser run ok show ?thesis by simp
  next
    case (Inr p)
    let ?i = "the (nullish (uu_id upd) (Some uid))"
    from upd Inr obtain u where u: "t_users (tabs d) ?i = Some u"
      "user_saved (preloaded (spread_id uid upd) u) (tabs d) p (tabs d')" "tx d' = Idle" by auto
    moreover from ok u(1) have "u_id u = ?i" unfolding all_ok_def accounts_ok_def by blast
    ultimately have "all_ok (tabs d')" by (intro all_ok_saved [OF ok u(1) _ u(2)]) simp
    with u(3) UpdateUser run show ?thesis by simp
  qed
next
  case (DeleteUser uid)
  obtain v d' where run: "deleteUser us uid d = (v, d')" by fastforce
  from ok have "all_ok (without_user uid (tabs d))"
    unfolding all_ok_def using without_user_schema without_user_accounts by blast
  with users_database.user_delete_run [OF us idle run] DeleteUser run ok show ?thesis
    by (auto split: sum.splits)
next
  case (GetUser uid)
  obtain v d' where run: "users_findOne us uid d = (v, d')" by fastforce
  from op_spec_Inl [OF users_database.findOne [OF us], of d uid _ d']
    op_spec_Inr [OF users_database.findOne [OF us], of d uid _ d'] run idle GetUser ok show ?thesis
    by (cases v) (auto simp: getUser_def await_def async_simps split: option.splits)
next
  case GetUsers
  obtain v d' where run: "users_find us d = (v, d')" by fastforce
  from op_spec_Inl [OF users_database.find_users [OF us], of d _ d']
    op_spec_Inr [OF users_database.find_users [OF us], of d _ d'] run idle GetUsers ok show ?thesis
    by (cases v) (auto simp: users_getAll_def)
next
  case (Login now e p)
  obtain v d' where run: "login us bc jwt now e p d = (v, d')" by fastforce
  from users_database.login_run [OF us idle run] Login run ok show ?thesis by simp
qed

section \<open>Logging in\<close>

lemma guard_exact:
  assumes "tokens jwt ttl" and "jwt_sign jwt now u = Inr t" and "fromHeader header = Some t"
  shows "JwtAuthGuard jwt fromHeader later header =
    (if later div 1000 < now div 1000 + ttl then Inr u else Inl (UnauthorizedException ''Unauthorized''))"
proof (cases "later div 1000 < now div 1000 + ttl")
  case True
  with tokens.verify_sign [OF assms(1,2) True] assms(3) show ?thesis
    by (cases u) (simp add: JwtAuthGuard_def jwt_validate_def)
next
  case False
  have "\<exists>e. jwt_verify jwt later t = Inl e"
  proof (cases "jwt_verify jwt later t")
    case (Inr u')
    from tokens.verify_signed [OF assms(1) Inr] obtain now' where
      n: "jwt_sign jwt now' u' = Inr t" "later div 1000 < now' div 1000 + ttl" by blast
    from tokens.signed_once [OF assms(1,2) n(1)] n(2) False show ?thesis by simp
  qed simp
  with False assms(3) show ?thesis by (auto simp: JwtAuthGuard_def)
qed

lemma created_user:
  assumes us: "reliable_users us tabs tx" and idle: "tx d = Idle"
    and free: "with_email e (tabs d) None" and p: "p \<noteq> []"
    and create: "users_create us bc salt e (Some p) roles scopes d = (v, d')"
  shows "tx d' = Idle \<and> (\<exists>u. v = Inr u \<and> user_added \<lparr>nu_email = e,
    nu_passwordHash = Some (bc_hash bc 10 p salt), nu_roles = roles, nu_scopes = scopes\<rparr> (tabs d) u (tabs d'))"
proof -
  have base: "users_database us tabs tx" using us by (rule reliable_users.axioms(1))
  define n where "n = \<lparr>nu_email = e, nu_passwordHash = Some (bc_hash bc 10 p salt), nu_roles = roles, nu_scopes = scopes\<rparr>"
  obtain w d1 where find: "users_findByEmail us e d = (Inr w, d1)"
    using reliable_users.works_findByEmail [OF us idle, of e] by (auto simp: works_def)
  from op_spec_Inr [OF users_database.findByEmail [OF base] idle [symmetric] find] idle obtain w0 where
    d1: "tabs d1 = tabs d" "tx d1 = Idle" and w0: "with_email e (tabs d) w0" "w = map_option hidden w0" by auto
  have "w0 = None"
  proof (cases w0)
    case (Some u)
    with w0(1) have "t_users (tabs d) (u_id u) = Some u" "u_email u = e" by (simp_all add: with_email_def)
    moreover from free have "\<forall>i v. t_users (tabs d) i = Some v \<longrightarrow> u_email v \<noteq> e"
      by (simp add: with_email_def)
    ultimately show ?thesis by blast
  qed
  with w0(2) have "w = None" by simp
  with create find p have ins: "users_insert us n d1 = (v, d')"
    by (simp add: users_create_def await_def n_def)
  have "works (users_insert us n) d1"
    using free d1 by (intro reliable_users.works_insert [OF us]) (simp_all add: n_def)
  with ins obtain u where v: "v = Inr u" by (auto simp: works_def)
  from op_spec_Inr [OF users_database.insert [OF base] d1(2) [symmetric] ins [unfolded v]] d1 v show ?thesis
    by (simp add: n_def)
qed

lemma login_checks:
  assumes us: "reliable_users us tabs tx" and idle: "tx d = Idle"
    and found: "\<And>x. with_email e (tabs d) x \<Longrightarrow> x = Some u" and hash: "u_passwordHash u = Some h" "h \<noteq> []"
  shows "fst (login us bc jwt now e q d) =
    (if bc_compare bc q h
     then jwt_sign jwt now \<lparr>au_sub = u_id u, au_email = u_email u, au_roles = u_roles u, au_scopes = u_scopes u\<rparr>
     else Inl (UnauthorizedException ''Invalid credentials''))"
proof -
  have base: "users_database us tabs tx" using us by (rule reliable_users.axioms(1))
  obtain x d2 where find: "users_findWithPassword us e d = (Inr x, d2)"
    using reliable_users.works_findWithPassword [OF us idle, of e] by (auto simp: works_def)
  from op_spec_Inr [OF users_database.findWithPassword [OF base] idle [symmetric] find] have "x = Some u"
    by (simp add: found)
  with find hash show ?thesis
    by (simp add: login_def await_def async_simps split: sum.split)
qed

lemma added_found:
  assumes "user_added n T u T'" and "nu_email n = e" and "with_email e T None" and "with_email e T' x"
  shows "x = Some u"
proof -
  from assms(1,2) have stored: "t_users T' (u_id u) = Some u" "u_email u = e"
    and others: "i \<noteq> u_id u \<Longrightarrow> t_users T' i = t_users T i" for i
    by (simp_all add: user_added_def)
  from assms(3) have free: "\<forall>i v. t_users T i = Some v \<longrightarrow> u_email v \<noteq> e" by (simp add: with_email_def)
  show ?thesis
  proof (cases x)
    case None
    with assms(4) have "\<forall>i v. t_users T' i = Some v \<longrightarrow> u_email v \<noteq> e" by (simp add: with_email_def)
    with stored show ?thesis by blast
  next
    case (Some y)
    with assms(4) have y: "t_users T' (u_id y) = Some y" "u_email y = e" by (simp_all add: with_email_def)
    have "u_id y = u_id u"
    proof (rule ccontr)
      assume "u_id y \<noteq> u_id u"
      with others y(1) have "t_users T (u_id y) = Some y" by simp
      with free y(2) show False by blast
    qed
    with y(1) stored(1) have "y = u" by (metis option.inject)
    with Some show ?thesis by blast
  qed
qed

lemma created_login:
  assumes us: "reliable_users us tabs tx" and bc: "password_hashing bc" and idle: "tx d = Idle"
    and free: "with_email e (tabs d) None" and p: "p \<noteq> []"
    and create: "users_create us bc salt e (Some p) roles scopes d = (v, d')"
  shows "\<exists>u. v = Inr u \<and> fst (login us bc jwt now e q d') =
    (if take 72 q = take 72 p
     then jwt_sign jwt now \<lparr>au_sub = u_id u, au_email = e, au_roles = some_or roles [], au_scopes = some_or scopes []\<rparr>
     else Inl (UnauthorizedException ''Invalid credentials''))"
proof -
  from created_user [OF us idle free p create] obtain u where idle': "tx d' = Idle" and v: "v = Inr u"
    and added: "user_added \<lparr>nu_email = e, nu_passwordHash = Some (bc_hash bc 10 p salt), nu_roles = roles,
      nu_scopes = scopes\<rparr> (tabs d) u (tabs d')" by blast
  then have row: "u_passwordHash u = Some (bc_hash bc 10 p salt)" "u_email u = e"
    "u_roles u = some_or roles []" "u_scopes u = some_or scopes []" by (simp_all add: user_added_def)
  have "fst (login us bc jwt now e q d') =
    (if bc_compare bc q (bc_hash bc 10 p salt)
     then jwt_sign jwt now \<lparr>au_sub = u_id u, au_email = u_email u, au_roles = u_roles u, au_scopes = u_scopes u\<rparr>
     else Inl (UnauthorizedException ''Invalid credentials''))"
    by (rule login_checks [OF us idle' added_found [OF added _ free] row(1)
        password_hashing.hash_nonempty [OF bc]]) simp_all
  with v show ?thesis
    by (intro exI [of _ u]) (simp add: row password_hashing.compare_hash [OF bc])
qed

section \<open>Properties\<close>

text \<open>
  C24. Registering and logging in: on a database that fails only on constraints, a user created
  with a free email and a password logs in with every password that agrees with it on the 72
  bytes bcrypt looks at and with no other; and the token of such a login is taken by the guard,
  as this user with the roles and scopes given, exactly until it expires.
\<close>

theorem register_login_guard:
  assumes "reliable_users us tabs tx" and "password_hashing bc" and "tokens jwt ttl" and "tx d = Idle"
    and "with_email e (tabs d) None" and "p \<noteq> []"
    and "users_create us bc salt e (Some p) roles scopes d = (v, d')"
    and "fst (login us bc jwt now e q d') = w"
  shows "\<exists>u. v = Inr u \<and>
    (let account = \<lparr>au_sub = u_id u, au_email = e, au_roles = some_or roles [], au_scopes = some_or scopes []\<rparr>
     in if take 72 q = take 72 p
        then w = jwt_sign jwt now account \<and>
          (\<forall>t fromHeader header later. w = Inr t \<longrightarrow> fromHeader header = Some t \<longrightarrow>
             JwtAuthGuard jwt fromHeader later header =
               (if later div 1000 < now div 1000 + ttl then Inr account
                else Inl (UnauthorizedException ''Unauthorized'')))
        else w = Inl (UnauthorizedException ''Invalid credentials''))"
proof -
  from created_login [OF assms(1,2,4,5,6,7), of jwt now q] obtain u where u: "v = Inr u"
    "w = (if take 72 q = take 72 p
     then jwt_sign jwt now \<lparr>au_sub = u_id u, au_email = e, au_roles = some_or roles [], au_scopes = some_or scopes []\<rparr>
     else Inl (UnauthorizedException ''Invalid credentials''))" using assms(8) by auto
  then show ?thesis
    using guard_exact [OF assms(3), of now
      "\<lparr>au_sub = u_id u, au_email = e, au_roles = some_or roles [], au_scopes = some_or scopes []\<rparr>"]
    by (cases "take 72 q = take 72 p") (simp_all add: Let_def)
qed

theorem register_login_guard_witness:
  "\<exists>u d'. users_create ref_users_store ref_bcrypt [] ''new@x'' (Some ''secret'') (Some [''user'']) None (demo_db []) =
       (Inr u, d') \<and>
     fst (login ref_users_store ref_bcrypt ref_jwt 5000 ''new@x'' ''wrong'' d') =
       Inl (UnauthorizedException ''Invalid credentials'') \<and>
     fst (login ref_users_store ref_bcrypt ref_jwt 5000 ''new@x'' ''secret'' d') =
       Inr (encode_token 5 \<lparr>au_sub = u_id u, au_email = ''new@x'', au_roles = [''user''], au_scopes = []\<rparr>)"
proof -
  obtain v d' where run: "users_create ref_users_store ref_bcrypt [] ''new@x'' (Some ''secret'') (Some [''user''])
      None (demo_db []) = (v, d')" by fastforce
  have free: "with_email ''new@x'' (ref_tabs (demo_db [])) None"
    by (simp add: with_email_def demo_user_def)
  note fact = register_login_guard [OF ref_users.reliable_users_axioms ref_hash.password_hashing_axioms
      ref_tokens.tokens_axioms _ free _ run refl]
  from fact [where now = 5000 and q = "''wrong''"] fact [where now = 5000 and q = "''secret''"] run show ?thesis
    by (auto simp: Let_def some_or_def ref_jwt_def)
qed



text \<open>
  An update changes one row, with what was given and nothing else, and only if the new email
  is free; but the row is the one named by an \<open>id\<close> in the body, whatever the path says.
\<close>

theorem update_user_target:
  assumes "users_database us tabs tx" and "tx d = Idle" and "accounts_ok (tabs d)"
    and "updateUser us uid upd d = (v, d')" and "target = (case uu_id upd of None \<Rightarrow> uid | Some i \<Rightarrow> i)"
  shows "(\<exists>e. v = Inl e \<and> tabs d' = tabs d) \<or>
    (\<exists>u ts. t_users (tabs d) target = Some u \<and>
       email_free (tabs d) (some_or (uu_email upd) (u_email u)) target \<and>
       tabs d' = (tabs d)\<lparr>t_users := (t_users (tabs d))(target \<mapsto>
         u\<lparr>u_email := some_or (uu_email upd) (u_email u),
            u_passwordHash := given (uu_passwordHash upd) (u_passwordHash u),
            u_roles := some_or (uu_roles upd) (u_roles u),
            u_scopes := some_or (uu_scopes upd) (u_scopes u),
            u_avatarFileId := given (uu_avatarFileId upd) (u_avatarFileId u), u_updatedAt := ts\<rparr>)\<rparr>)"
proof (cases v)
  case (Inl e)
  with users_database.user_update_run [OF assms(1,2,4)] show ?thesis by simp
next
  case (Inr p)
  have "the (nullish (uu_id upd) (Some uid)) = target" using assms(5) by (cases "uu_id upd") simp_all
  with users_database.user_update_run [OF assms(1,2,4)] Inr obtain u where u: "t_users (tabs d) target = Some u"
    "user_saved (preloaded (spread_id uid upd) u) (tabs d) p (tabs d')" by auto
  with assms(3) have id: "u_id u = target" unfolding accounts_ok_def by blast
  with u obtain ts where "email_free (tabs d) (some_or (uu_email upd) (u_email u)) target"
    "tabs d' = (tabs d)\<lparr>t_users := (t_users (tabs d))(target \<mapsto>
       (pl_columns (preloaded (spread_id uid upd) u))\<lparr>u_updatedAt := ts,
          u_passwordHash := given (uu_passwordHash upd) (u_passwordHash u)\<rparr>)\<rparr>"
    by (auto simp: user_saved_def)
  with u(1) show ?thesis by (cases u) (auto simp: preloaded_def hidden_def)
qed

theorem update_user_target_witness:
  "\<exists>ts. t_users (ref_tabs (snd (updateUser ref_users_store ''other''
      \<lparr>uu_id = Some ''u1'', uu_email = None, uu_passwordHash = Undefined, uu_roles = Some [''admin''],
       uu_scopes = None, uu_avatarFileId = Undefined\<rparr> (demo_db [])))) ''u1'' =
     Some (demo_user\<lparr>u_roles := [''admin''], u_updatedAt := ts\<rparr>)"
proof -
  let ?upd = "\<lparr>uu_id = Some ''u1'', uu_email = None, uu_passwordHash = Undefined, uu_roles = Some [''admin''],
       uu_scopes = None, uu_avatarFileId = Undefined\<rparr>"
  obtain p d' where run: "updateUser ref_users_store ''other'' ?upd (demo_db []) = (Inr p, d')"
    by (simp add: updateUser_def ref_users_store_def ref_preloadUser_def spread_id_def await_def async_simps
        demo_db_def demo_user_def ref_saveUser_def Let_def preloaded_def hidden_def some_or_def given_def
        visible_def)
  have "accounts_ok (ref_tabs (demo_db []))"
    by (simp add: accounts_ok_def email_free_def demo_user_def demo_product_def split: if_splits)
  from update_user_target [OF ref_users.users_database_axioms _ this run refl] run show ?thesis
    by (auto simp: some_or_def given_def)
qed

end
