(* ===== verification/Products.thy ===== *)
theory Products
  imports Orders
begin

text \<open>
  The products service (\<^verbatim>\<open>src/products/product.service.ts\<close>) and the loader of the products of
  order items (\<^verbatim>\<open>src/graphql/dataloaders/product.loader.ts\<close>). The repository is a record of
  operations whose effects are the locale \<open>products_database\<close>; what the \<^verbatim>\<open>dataloader\<close> library
  does with a batch function is the locale \<open>batching\<close>.
\<close>

section \<open>The repository\<close>

record new_product =
  np_name :: string
  np_sku :: string
  np_description :: "string option"
  np_price :: jsnum
  np_stock :: "int option"
  np_isActive :: "bool option"

text \<open>The updates of a product and the identifier of the row they are for; absent is \<open>None\<close> or \<open>Undefined\<close>.\<close>

record product_updates =
  ppu_id :: string
  ppu_name :: "string option"
  ppu_sku :: "string option"
  ppu_description :: "string js_input"
  ppu_price :: "jsnum option"
  ppu_stock :: "int option"
  ppu_isActive :: "bool option"

record 'd products_store =
  products_insert :: "new_product \<Rightarrow> ('d, product_row) async"
  products_find :: "('d, product_row list) async"
  products_findIn :: "string list \<Rightarrow> ('d, product_row list) async"
  products_getMany :: "int js_input \<Rightarrow> int js_input \<Rightarrow> ('d, product_row list) async"
  products_findOne :: "string \<Rightarrow> ('d, product_row option) async"
  products_preload :: "product_updates \<Rightarrow> ('d, product_row option) async"
  products_save :: "product_row \<Rightarrow> ('d, product_row) async"
  products_delete :: "string \<Rightarrow> ('d, nat option) async"

definition sku_free :: "tables \<Rightarrow> string \<Rightarrow> string \<Rightarrow> bool" where
  "sku_free T sku pid \<longleftrightarrow> (\<forall>i p. t_products T i = Some p \<longrightarrow> p_sku p = sku \<longrightarrow> i = pid)"

text \<open>The price column rounds what it is given.\<close>

definition product_added :: "new_product \<Rightarrow> tables \<Rightarrow> product_row \<Rightarrow> tables \<Rightarrow> bool" where
  "product_added n T p T' \<longleftrightarrow>
     t_products T (p_id p) = None \<and> sku_free T (np_sku n) (p_id p) \<and>
     p_name p = np_name n \<and> p_sku p = np_sku n \<and> p_description p = np_description n \<and>
     p_stock p = some_or (np_stock n) 0 \<and> p_isActive p = some_or (np_isActive n) True \<and>
     p_imageFileId p = None \<and>
     (\<exists>q. T' = T\<lparr>t_products := (t_products T)(p_id p \<mapsto> p\<lparr>p_price := q\<rparr>)\<rparr>)"

definition product_preloaded :: "product_updates \<Rightarrow> product_row \<Rightarrow> product_row" where
  "product_preloaded upd p =
     p\<lparr>p_name := some_or (ppu_name upd) (p_name p),
       p_sku := some_or (ppu_sku upd) (p_sku p),
       p_description := given (ppu_description upd) (p_description p),
       p_price := some_or (ppu_price upd) (p_price p),
       p_stock := some_or (ppu_stock upd) (p_stock p),
       p_isActive := some_or (ppu_isActive upd) (p_isActive p)\<rparr>"

definition product_stored :: "product_row \<Rightarrow> tables \<Rightarrow> product_row \<Rightarrow> tables \<Rightarrow> bool" where
  "product_stored p T p' T' \<longleftrightarrow>
     (t_products T (p_id p) \<noteq> None \<longrightarrow>
        sku_free T (p_sku p) (p_id p) \<and>
        (\<exists>ts q. p' = p\<lparr>p_updatedAt := ts\<rparr> \<and>
           T' = T\<lparr>t_products := (t_products T)(p_id p \<mapsto> p\<lparr>p_price := q, p_updatedAt := ts\<rparr>)\<rparr>))"

definition product_deleted :: "string \<Rightarrow> tables \<Rightarrow> nat option \<Rightarrow> tables \<Rightarrow> bool" where
  "product_deleted pid T n T' \<longleftrightarrow>
     (if t_products T pid = None then n = Some 0 \<and> T' = T
      else n = Some 1 \<and> T' = T\<lparr>t_products := (t_products T)(pid := None)\<rparr>)"

definition products_in :: "string list \<Rightarrow> tables \<Rightarrow> product_row set" where
  "products_in ids T = {p. \<exists>i \<in> set ids. t_products T i = Some p}"

definition product_page :: "int js_input \<Rightarrow> int js_input \<Rightarrow> tables \<Rightarrow> product_row list \<Rightarrow> bool" where
  "product_page limit offset T ps \<longleftrightarrow>
     (\<exists>xs. distinct xs \<and> set xs = ran (t_products T) \<and>
        sorted_wrt (\<lambda>p q. p_createdAt q \<le> p_createdAt p) xs \<and>
        ps = (case limit of Value n \<Rightarrow> take (nat n) | _ \<Rightarrow> id) (drop (nat (input_or offset 0)) xs))"

locale products_database =
  fixes ps :: "'d products_store" and tabs :: "'d \<Rightarrow> tables" and tx :: "'d \<Rightarrow> tables txn"
  assumes insert: "op_spec tabs tx ((=) Idle) (products_insert ps n) (product_added n)"
    and find_products: "op_spec tabs tx ((=) Idle) (products_find ps)
      (reads (\<lambda>T v. distinct v \<and> set v = ran (t_products T)))"
    and findIn: "op_spec tabs tx ((=) Idle) (products_findIn ps ids)
      (reads (\<lambda>T v. distinct v \<and> set v = products_in ids T))"
    and getMany: "op_spec tabs tx ((=) Idle) (products_getMany ps limit offset) (reads (product_page limit offset))"
    and findOne: "op_spec tabs tx ((=) Idle) (products_findOne ps pid) (reads (\<lambda>T v. v = t_products T pid))"
    and preload: "op_spec tabs tx ((=) Idle) (products_preload ps upd)
      (reads (\<lambda>T v. v = map_option (product_preloaded upd) (t_products T (ppu_id upd))))"
    and save: "op_spec tabs tx ((=) Idle) (products_save ps p) (product_stored p)"
    and delete: "op_spec tabs tx ((=) Idle) (products_delete ps pid) (product_deleted pid)"

section \<open>The service\<close>

text \<open>The input of the GraphQL mutation has the price as a text.\<close>

record create_product_input =
  cpi_name :: string
  cpi_sku :: string
  cpi_description :: "string option"
  cpi_price :: string
  cpi_stock :: "int option"
  cpi_isActive :: "bool option"

definition products_create :: "'d products_store \<Rightarrow> new_product \<Rightarrow> ('d, product_row) async" where
  "products_create ps dto = products_insert ps dto"

definition product_dto_of_input :: "create_product_input \<Rightarrow> new_product" where
  "product_dto_of_input input =
     \<lparr>np_name = cpi_name input, np_sku = cpi_sku input,
      np_description = nullish (cpi_description input) None,
      np_price = js_Number (cpi_price input), np_stock = cpi_stock input,
      np_isActive = cpi_isActive input\<rparr>"

definition products_createFromInput ::
  "'d products_store \<Rightarrow> create_product_input \<Rightarrow> ('d, product_row) async" where
  "products_createFromInput ps input = products_create ps (product_dto_of_input input)"

definition products_getAll :: "'d products_store \<Rightarrow> ('d, product_row list) async" where
  "products_getAll ps = products_find ps"

definition getAllPaginated ::
  "'d products_store \<Rightarrow> orders_pagination option \<Rightarrow> ('d, product_row list) async" where
  "getAllPaginated ps pagination =
     products_getMany ps
       (case pagination of None \<Rightarrow> Undefined | Some p \<Rightarrow> pg_limit p)
       (case pagination of None \<Rightarrow> Undefined | Some p \<Rightarrow> pg_offset p)"

definition getProduct :: "'d products_store \<Rightarrow> string \<Rightarrow> ('d, product_row) async" where
  "getProduct ps pid =
     await (products_findOne ps pid) (\<lambda>product.
       case product of None \<Rightarrow> throw (NotFoundException ''Product not found'') | Some p \<Rightarrow> resolve p)"

definition updateProduct :: "'d products_store \<Rightarrow> string \<Rightarrow> product_updates \<Rightarrow> ('d, product_row) async" where
  "updateProduct ps pid updates =
     await (products_preload ps (updates\<lparr>ppu_id := pid\<rparr>)) (\<lambda>product.
       case product of
         None \<Rightarrow> throw (NotFoundException ''Product not found'')
       | Some p \<Rightarrow> products_save ps p)"

definition deleteProduct :: "'d products_store \<Rightarrow> string \<Rightarrow> ('d, unit) async" where
  "deleteProduct ps pid =
     await (products_delete ps pid) (\<lambda>affected.
       if affected = None \<or> affected = Some 0 then throw (NotFoundException ''Product not found'')
       else resolve ())"

section \<open>The loader\<close>

definition batchLoad :: "'d products_store \<Rightarrow> string list \<Rightarrow> ('d, product_row option list) async" where
  "batchLoad ps ids =
     await (products_findIn ps ids) (\<lambda>products.
       (let productsById = fold (\<lambda>p m. m(p_id p \<mapsto> p)) products Map.empty in
        resolve (map productsById ids)))"

text \<open>
  \<open>dl batch ids\<close> are the answers to the calls of \<open>load\<close> collected in one turn of the event loop:
  the library calls the batch function once, with each key once, in the order they came in.
\<close>

type_synonym ('d, 'a) dataloader =
  "(string list \<Rightarrow> ('d, 'a list) async) \<Rightarrow> string list \<Rightarrow> ('d, 'a list) async"

definition first_of_each :: "string list \<Rightarrow> string list" where
  "first_of_each ids = rev (remdups (rev ids))"

locale batching =
  fixes dl :: "('d, 'a) dataloader"
  assumes batch: "batch (first_of_each ids) d = (Inr vs, d') \<Longrightarrow> length vs = length (first_of_each ids) \<Longrightarrow>
      dl batch ids d = (Inr (map (\<lambda>i. the (map_of (zip (first_of_each ids) vs) i)) ids), d')"
    and batch_fails: "batch (first_of_each ids) d = (Inl e, d') \<Longrightarrow> dl batch ids d = (Inl e, d')"

text \<open>The field \<open>product\<close> of the items resolved together.\<close>

definition resolve_products ::
  "('d, product_row option) dataloader \<Rightarrow> 'd products_store \<Rightarrow> order_item list \<Rightarrow>
   ('d, product_row option list) async" where
  "resolve_products dl ps items = dl (batchLoad ps) (map oi_productId items)"

end
