(* ===== verification/ProductsProperties.thy ===== *)
theory ProductsProperties
  imports Products OrderProperties
begin

text \<open>
  The repository of products over the reference store and a batching loader that keep their
  contracts, and the properties of the products service and of the loader: what every operation
  keeps, that a batch is a lookup for each item, and what deleting a product leaves behind.
\<close>

section \<open>The reference repository\<close>

definition ref_insertProduct :: "new_product \<Rightarrow> (ref_db, product_row) async" where
  "ref_insertProduct n d =
     (let rs = rd_rows d;
          p = \<lparr>p_id = fresh_id p_id (rr_products rs), p_name = np_name n, p_sku = np_sku n,
               p_description = np_description n, p_price = np_price n,
               p_stock = some_or (np_stock n) 0, p_isActive = some_or (np_isActive n) True,
               p_imageFileId = None, p_createdAt = rd_now d, p_updatedAt = rd_now d\<rparr>
      in if find (\<lambda>p. p_sku p = np_sku n) (visible p_id (rr_products rs)) \<noteq> None then
           refuse ''23505'' ''duplicate key value violates unique constraint'' d
         else (Inr p, on_rows (\<lambda>rs. rs\<lparr>rr_products := p # rr_products rs\<rparr>) d))"

definition ref_saveProduct :: "product_row \<Rightarrow> (ref_db, product_row) async" where
  "ref_saveProduct p d =
     (if find (\<lambda>q. p_sku q = p_sku p \<and> p_id q \<noteq> p_id p) (visible p_id (rr_products (rd_rows d))) \<noteq> None then
        refuse ''23505'' ''duplicate key value violates unique constraint'' d
      else
        (let p' = p\<lparr>p_updatedAt := rd_now d\<rparr> in
         (Inr p', on_rows (\<lambda>rs. rs\<lparr>rr_products := p' # rr_products rs\<rparr>) d)))"

definition ref_deleteProduct :: "string \<Rightarrow> (ref_db, nat option) async" where
  "ref_deleteProduct pid d =
     (if row_map p_id (rr_products (rd_rows d)) pid = None then (Inr (Some 0), d)
      else (Inr (Some 1), on_rows (\<lambda>rs. rs\<lparr>
        rr_products := filter (\<lambda>p. p_id p \<noteq> pid) (rr_products rs)\<rparr>) d))"

definition ref_products :: "ref_db products_store" where
  "ref_products =
     \<lparr>products_insert = ref_insertProduct,
      products_find = gets (\<lambda>d. visible p_id (rr_products (rd_rows d))),
      products_findIn = (\<lambda>ids. gets (\<lambda>d.
        filter (\<lambda>p. p_id p \<in> set ids) (visible p_id (rr_products (rd_rows d))))),
      products_getMany = (\<lambda>limit offset. gets (\<lambda>d.
        (case limit of Value n \<Rightarrow> take (nat n) | _ \<Rightarrow> id) (drop (nat (input_or offset 0))
          (sort_key (\<lambda>p. - p_createdAt p) (visible p_id (rr_products (rd_rows d))))))),
      products_findOne = (\<lambda>i. gets (\<lambda>d. row_map p_id (rr_products (rd_rows d)) i)),
      products_preload = (\<lambda>upd. gets (\<lambda>d.
        map_option (product_preloaded upd) (row_map p_id (rr_products (rd_rows d)) (ppu_id upd)))),
      products_save = ref_saveProduct,
      products_delete = ref_deleteProduct\<rparr>"

lemma ref_sku_free:
  assumes "find (\<lambda>q. p_sku q = sku \<and> p_id q \<noteq> pid) (visible p_id (rr_products rs)) = None"
  shows "sku_free (tables_of rs) sku pid"
proof -
  have "i = pid" if "row_map p_id (rr_products rs) i = Some q" "p_sku q = sku" for i q
    using assms that row_map_mem [OF that(1)] by (auto simp: find_visible_None)
  then show ?thesis by (simp add: sku_free_def tables_of_def)
qed

lemma ref_insertProduct_spec: "op_spec ref_tabs ref_tx ((=) Idle) (ref_insertProduct n) (product_added n)"
proof (rule op_specI)
  fix d
  show "(\<exists>c msg. ref_insertProduct n d = refuse c msg d) \<or>
    (\<exists>x t. ref_insertProduct n d = (Inr x, t) \<and> product_added n (ref_tabs d) x (ref_tabs t) \<and> rd_tx t = rd_tx d)"
  proof (cases "find (\<lambda>p. p_sku p = np_sku n) (visible p_id (rr_products (rd_rows d)))")
    case None
    let ?i = "fresh_id p_id (rr_products (rd_rows d))"
    from None have "find (\<lambda>q. p_sku q = np_sku n \<and> p_id q \<noteq> ?i) (visible p_id (rr_products (rd_rows d))) = None"
      by (simp add: find_visible_None)
    from ref_sku_free [OF this] None show ?thesis
      by (auto simp: ref_insertProduct_def Let_def product_added_def ref_simps intro!: exI [of _ "np_price n"])
  qed (simp add: ref_insertProduct_def Let_def is_refuse)
qed

lemma ref_saveProduct_spec: "op_spec ref_tabs ref_tx ((=) Idle) (ref_saveProduct p) (product_stored p)"
proof (rule op_specI)
  fix d
  show "(\<exists>c msg. ref_saveProduct p d = refuse c msg d) \<or>
    (\<exists>x t. ref_saveProduct p d = (Inr x, t) \<and> product_stored p (ref_tabs d) x (ref_tabs t) \<and> rd_tx t = rd_tx d)"
  proof (cases "find (\<lambda>q. p_sku q = p_sku p \<and> p_id q \<noteq> p_id p) (visible p_id (rr_products (rd_rows d)))")
    case None
    from ref_sku_free [OF None] None show ?thesis
      by (auto simp: ref_saveProduct_def Let_def product_stored_def ref_simps
          intro!: exI [of _ "rd_now d"] exI [of _ "p_price p"])
  qed (simp add: ref_saveProduct_def is_refuse)
qed

lemma ref_deleteProduct_spec: "op_spec ref_tabs ref_tx ((=) Idle) (ref_deleteProduct pid) (product_deleted pid)"
proof (rule op_specI)
  fix d
  have removed: "row_map p_id (filter (\<lambda>p. p_id p \<noteq> pid) rs) = (row_map p_id rs)(pid := None)" for rs
    by (simp add: row_map_filter [where P = "\<lambda>i. i \<noteq> pid"] fun_eq_iff)
  show "(\<exists>c msg. ref_deleteProduct pid d = refuse c msg d) \<or>
    (\<exists>x t. ref_deleteProduct pid d = (Inr x, t) \<and> product_deleted pid (ref_tabs d) x (ref_tabs t) \<and> rd_tx t = rd_tx d)"
    by (auto simp: ref_deleteProduct_def product_deleted_def ref_simps removed)
qed

lemma ref_product_page: "product_page limit offset (tables_of rs)
    ((case limit of Value n \<Rightarrow> take (nat n) | _ \<Rightarrow> id) (drop (nat (input_or offset 0))
      (sort_key (\<lambda>p. - p_createdAt p) (visible p_id (rr_products rs)))))"
  using sorted_sort_key [of "\<lambda>p. - p_createdAt p" "visible p_id (rr_products rs)"]
  unfolding product_page_def
  by (intro exI [of _ "sort_key (\<lambda>p. - p_createdAt p) (visible p_id (rr_products rs))"])
    (simp add: tables_of_def sorted_map)

lemma ref_products_in: "set (filter (\<lambda>p. p_id p \<in> set ids) (visible p_id (rr_products rs))) = products_in ids (tables_of rs)"
  using row_map_mem [of p_id "rr_products rs"]
  by (auto simp: products_in_def tables_of_def ran_def dest: row_map_id)

interpretation ref_products: products_database ref_products ref_tabs ref_tx
proof unfold_locales
  show "op_spec ref_tabs ref_tx ((=) Idle) (products_findIn ref_products ids)
      (reads (\<lambda>T v. distinct v \<and> set v = products_in ids T))" for ids
    unfolding ref_products_def products_store.simps
    by (intro op_spec_gets) (simp only: ref_tabs_def ref_products_in distinct_filter distinct_visible simp_thms)
  show "op_spec ref_tabs ref_tx ((=) Idle) (products_getMany ref_products limit offset)
      (reads (product_page limit offset))" for limit offset
    by (simp add: ref_products_def op_spec_gets ref_tabs_def ref_product_page)
qed (auto simp: ref_products_def op_spec_gets ref_tabs_def ref_insertProduct_spec
    ref_saveProduct_spec ref_deleteProduct_spec intro!: op_spec_gets simp: tables_of_def)

text \<open>The loader with the answer of one batch.\<close>

definition ref_dl :: "('d, 'a) dataloader" where
  "ref_dl batch ids d =
     (case batch (first_of_each ids) d of
        (Inl e, d') \<Rightarrow> (Inl e, d')
      | (Inr vs, d') \<Rightarrow>
          if length vs \<noteq> length (first_of_each ids) then (Inl (TypeError ''DataLoader''), d')
          else (Inr (map (\<lambda>i. the (map_of (zip (first_of_each ids) vs) i)) ids), d'))"

interpretation ref_loader: batching ref_dl
  by unfold_locales (simp_all add: ref_dl_def)

section \<open>What the operations keep\<close>

definition products_ok :: "tables \<Rightarrow> bool" where
  "products_ok T \<longleftrightarrow> (\<forall>i p. t_products T i = Some p \<longrightarrow> p_id p = i \<and> sku_free T (p_sku p) i)"

datatype products_action =
    CreateProduct new_product
  | CreateFromInput create_product_input
  | UpdateProduct string product_updates
  | DeleteProduct string
  | ListProducts "orders_pagination option"
  | ShowProduct string

fun products_step :: "'d products_store \<Rightarrow> products_action \<Rightarrow> 'd \<Rightarrow> 'd" where
  "products_step ps (CreateProduct dto) d = snd (products_create ps dto d)"
| "products_step ps (CreateFromInput input) d = snd (products_createFromInput ps input d)"
| "products_step ps (UpdateProduct pid upd) d = snd (updateProduct ps pid upd d)"
| "products_step ps (DeleteProduct pid) d = snd (deleteProduct ps pid d)"
| "products_step ps (ListProducts pagination) d = snd (getAllPaginated ps pagination d)"
| "products_step ps (ShowProduct pid) d = snd (getProduct ps pid d)"

definition nonneg_stock :: "int option \<Rightarrow> bool" where
  "nonneg_stock v \<longleftrightarrow> (\<forall>n. v = Some n \<longrightarrow> 0 \<le> n)"

fun asks_nonneg :: "products_action \<Rightarrow> bool" where
  "asks_nonneg (CreateProduct dto) = nonneg_stock (np_stock dto)"
| "asks_nonneg (CreateFromInput input) = nonneg_stock (cpi_stock input)"
| "asks_nonneg (UpdateProduct pid upd) = nonneg_stock (ppu_stock upd)"
| "asks_nonneg _ = True"

lemma products_ok_put:
  assumes "products_ok T" and "p_id p = i" and "sku_free T (p_sku p) i"
  shows "products_ok (T\<lparr>t_products := (t_products T)(i \<mapsto> p)\<rparr>)"
  unfolding products_ok_def
proof (intro allI impI)
  fix j q
  let ?T = "T\<lparr>t_products := (t_products T)(i \<mapsto> p)\<rparr>"
  assume q: "t_products ?T j = Some q"
  show "p_id q = j \<and> sku_free ?T (p_sku q) j"
  proof (cases "j = i")
    case True
    with q assms(2,3) show ?thesis by (auto simp: sku_free_def)
  next
    case False
    with q have q': "t_products T j = Some q" by simp
    with assms(1) have ok: "p_id q = j" "sku_free T (p_sku q) j" unfolding products_ok_def by blast+
    have "p_sku q \<noteq> p_sku p" using assms(3) q' False unfolding sku_free_def by blast
    with ok show ?thesis unfolding sku_free_def by auto
  qed
qed

lemma products_ok_removed: "products_ok T \<Longrightarrow> products_ok (T\<lparr>t_products := (t_products T)(i := None)\<rparr>)"
  unfolding products_ok_def sku_free_def by (auto split: if_splits)

lemma stock_ok_put:
  "stock_ok T \<Longrightarrow> 0 \<le> p_stock p \<Longrightarrow> stock_ok (T\<lparr>t_products := (t_products T)(i \<mapsto> p)\<rparr>)"
  by (simp add: stock_ok_def)

lemma stock_ok_removed: "stock_ok T \<Longrightarrow> stock_ok (T\<lparr>t_products := (t_products T)(i := None)\<rparr>)"
  by (simp add: stock_ok_def)

context products_database
begin

lemma product_create_run:
  assumes "tx d = Idle" and "products_create ps dto d = (v, d')" and "products_ok (tabs d)"
  shows "tx d' = Idle \<and> products_ok (tabs d') \<and> t_items (tabs d') = t_items (tabs d) \<and>
    (stock_ok (tabs d) \<longrightarrow> nonneg_stock (np_stock dto) \<longrightarrow> stock_ok (tabs d'))"
proof (cases v)
  case (Inl e)
  with op_spec_Inl [OF insert, of d dto e d'] assms show ?thesis by (simp add: products_create_def)
next
  case (Inr p)
  with op_spec_Inr [OF insert, of d dto p d'] assms(1,2) have added: "product_added dto (tabs d) p (tabs d')"
    "tx d' = Idle" by (simp_all add: products_create_def)
  then obtain q where T: "tabs d' = (tabs d)\<lparr>t_products := (t_products (tabs d))(p_id p \<mapsto> p\<lparr>p_price := q\<rparr>)\<rparr>"
    and p: "sku_free (tabs d) (p_sku p) (p_id p)" "p_stock p = some_or (np_stock dto) 0"
    by (auto simp: product_added_def)
  have "products_ok (tabs d')"
    unfolding T using p by (intro products_ok_put [OF assms(3)]) simp_all
  moreover have "stock_ok (tabs d')" if "stock_ok (tabs d)" "nonneg_stock (np_stock dto)"
    unfolding T using that p by (intro stock_ok_put) (auto simp: nonneg_stock_def some_or_def split: option.split)
  ultimately show ?thesis using added(2) T by simp
qed

lemma product_update_run:
  assumes "tx d = Idle" and "updateProduct ps pid upd d = (v, d')" and "products_ok (tabs d)"
  shows "tx d' = Idle \<and> products_ok (tabs d') \<and> t_items (tabs d') = t_items (tabs d) \<and>
    (stock_ok (tabs d) \<longrightarrow> nonneg_stock (ppu_stock upd) \<longrightarrow> stock_ok (tabs d'))"
proof -
  let ?upd = "upd\<lparr>ppu_id := pid\<rparr>"
  obtain a d1 where a: "products_preload ps ?upd d = (a, d1)" by fastforce
  show ?thesis
  proof (cases a)
    case (Inl x)
    with op_spec_Inl [OF preload, of d ?upd x d1] a assms show ?thesis
      by (auto simp: updateProduct_def await_def)
  next
    case (Inr w)
    with op_spec_Inr [OF preload, of d ?upd w d1] a assms(1) have d1: "tabs d1 = tabs d" "tx d1 = Idle"
      and w: "w = map_option (product_preloaded ?upd) (t_products (tabs d) pid)" by simp_all
    show ?thesis
    proof (cases "t_products (tabs d) pid")
      case None
      with a Inr d1 w assms show ?thesis by (auto simp: updateProduct_def await_def async_simps)
    next
      case (Some p0)
      let ?p = "product_preloaded ?upd p0"
      from Some assms(3) have id: "p_id ?p = pid" by (simp add: products_ok_def product_preloaded_def)
      from a Inr w Some assms(2) have sv: "products_save ps ?p d1 = (v, d')"
        by (simp add: updateProduct_def await_def)
      show ?thesis
      proof (cases v)
        case (Inl x)
        with op_spec_Inl [OF save, of d1 ?p x d'] sv d1 assms(3) show ?thesis by simp
      next
        case (Inr p)
        with op_spec_Inr [OF save, of d1 ?p p d'] sv d1 have stored: "product_stored ?p (tabs d) p (tabs d')"
          "tx d' = Idle" by simp_all
        with Some id obtain ts q where sku: "sku_free (tabs d) (p_sku ?p) pid"
          and T: "tabs d' = (tabs d)\<lparr>t_products := (t_products (tabs d))(pid \<mapsto> ?p\<lparr>p_price := q, p_updatedAt := ts\<rparr>)\<rparr>"
          by (auto simp: product_stored_def)
        have "products_ok (tabs d')"
          unfolding T using id sku by (intro products_ok_put [OF assms(3)]) simp_all
        moreover have "stock_ok (tabs d')" if "stock_ok (tabs d)" "nonneg_stock (ppu_stock upd)"
          unfolding T using that Some
          by (intro stock_ok_put)
            (auto simp: nonneg_stock_def some_or_def product_preloaded_def stock_ok_def split: option.split)
        ultimately show ?thesis using stored(2) T by simp
      qed
    qed
  qed
qed

lemma product_delete_run:
  assumes "tx d = Idle" and "deleteProduct ps pid d = (v, d')"
  shows "tx d' = Idle \<and>
    (case v of Inl e \<Rightarrow> tabs d' = tabs d
     | Inr u \<Rightarrow> tabs d' = (tabs d)\<lparr>t_products := (t_products (tabs d))(pid := None)\<rparr>)"
proof -
  obtain a d1 where a: "products_delete ps pid d = (a, d1)" by fastforce
  show ?thesis
  proof (cases a)
    case (Inl x)
    with op_spec_Inl [OF delete, of d pid x d1] a assms show ?thesis
      by (auto simp: deleteProduct_def await_def)
  next
    case (Inr n)
    with op_spec_Inr [OF delete, of d pid n d1] a assms show ?thesis
      by (auto simp: deleteProduct_def await_def async_simps product_deleted_def split: if_splits)
  qed
qed

lemma page_run:
  assumes "tx d = Idle" and "getAllPaginated ps pagination d = (v, d')"
  shows "tx d' = Idle \<and> tabs d' = tabs d"
  using assms op_spec_Inl [OF getMany, of d _ _ _ d'] op_spec_Inr [OF getMany, of d _ _ _ d']
  by (cases v) (simp_all add: getAllPaginated_def)

lemma show_run:
  assumes "tx d = Idle" and "getProduct ps pid d = (v, d')"
  shows "tx d' = Idle \<and> tabs d' = tabs d"
proof -
  obtain a d1 where a: "products_findOne ps pid d = (a, d1)" by fastforce
  with assms op_spec_Inl [OF findOne, of d pid _ d1] op_spec_Inr [OF findOne, of d pid _ d1] show ?thesis
    by (cases a) (auto simp: getProduct_def await_def async_simps split: option.splits)
qed

lemma step_keeps:
  assumes idle: "tx d = Idle" and ok: "products_ok (tabs d)"
  shows "tx (products_step ps a d) = Idle \<and> products_ok (tabs (products_step ps a d)) \<and>
    (stock_ok (tabs d) \<longrightarrow> asks_nonneg a \<longrightarrow> stock_ok (tabs (products_step ps a d)))"
proof (cases a)
  case (CreateProduct dto)
  with product_create_run [OF idle surjective_pairing ok] show ?thesis by simp
next
  case (CreateFromInput input)
  with product_create_run [OF idle surjective_pairing ok, of "product_dto_of_input input"] show ?thesis
    by (simp add: products_createFromInput_def product_dto_of_input_def)
next
  case (UpdateProduct pid upd)
  with product_update_run [OF idle surjective_pairing ok] show ?thesis by simp
next
  case (DeleteProduct pid)
  obtain v d' where run: "deleteProduct ps pid d = (v, d')" by fastforce
  from product_delete_run [OF idle run] ok DeleteProduct run show ?thesis
    by (cases v) (simp_all add: products_ok_removed stock_ok_removed)
next
  case (ListProducts pagination)
  with page_run [OF idle surjective_pairing] ok show ?thesis by simp
next
  case (ShowProduct pid)
  with show_run [OF idle surjective_pairing] ok show ?thesis by simp
qed

end

section \<open>Batches\<close>

lemma fold_by_id:
  assumes "\<And>p. p \<in> set ps \<Longrightarrow> t (p_id p) = Some p"
  shows "fold (\<lambda>p m. m(p_id p \<mapsto> p)) ps m i = (if i \<in> p_id ` set ps then t i else m i)"
  using assms
proof (induction ps arbitrary: m)
  case (Cons p ps)
  have "t (p_id q) = Some q" if "q \<in> set ps" for q using Cons.prems that by simp
  from Cons.IH [of "m(p_id p \<mapsto> p)", OF this] have
    "fold (\<lambda>p m. m(p_id p \<mapsto> p)) ps (m(p_id p \<mapsto> p)) i =
      (if i \<in> p_id ` set ps then t i else (m(p_id p \<mapsto> p)) i)" .
  moreover have "t (p_id p) = Some p" using Cons.prems [of p] by simp
  ultimately show ?case by (simp del: fun_upd_apply) auto
qed simp

lemma set_first_of_each [simp]: "set (first_of_each ids) = set ids"
  by (simp add: first_of_each_def)

lemma distinct_first_of_each [simp]: "distinct (first_of_each ids)"
  by (simp add: first_of_each_def)

context products_database
begin

lemma batch_run:
  assumes "tx d = Idle" and "products_ok (tabs d)" and "batchLoad ps ids d = (v, d')"
  shows "tabs d' = tabs d \<and> tx d' = Idle \<and> (\<forall>vs. v = Inr vs \<longrightarrow> vs = map (t_products (tabs d)) ids)"
proof -
  obtain a d1 where a: "products_findIn ps ids d = (a, d1)" by fastforce
  show ?thesis
  proof (cases a)
    case (Inl e)
    with op_spec_Inl [OF findIn, of d ids e d1] a assms show ?thesis
      by (auto simp: batchLoad_def await_def)
  next
    case (Inr found)
    with op_spec_Inr [OF findIn, of d ids found d1] a assms(1) have d1: "tabs d1 = tabs d" "tx d1 = Idle"
      and set: "set found = products_in ids (tabs d)" by simp_all
    have own: "t_products (tabs d) (p_id p) = Some p" if "p \<in> set found" for p
      using that set assms(2) by (auto simp: products_in_def products_ok_def)
    have "fold (\<lambda>p m. m(p_id p \<mapsto> p)) found Map.empty i = t_products (tabs d) i" if i: "i \<in> set ids" for i
    proof (cases "t_products (tabs d) i")
      case None
      with own have "i \<notin> p_id ` set found" by force
      with None show ?thesis
        using fold_by_id [where t = "t_products (tabs d)" and ps = found and m = Map.empty and i = i, OF own] by simp
    next
      case (Some p)
      with i set have "p \<in> set found" by (auto simp: products_in_def)
      moreover from Some assms(2) have "p_id p = i" by (simp add: products_ok_def)
      ultimately have "i \<in> p_id ` set found" by force
      then show ?thesis
        using fold_by_id [where t = "t_products (tabs d)" and ps = found and m = Map.empty and i = i, OF own] by simp
    qed
    then have "map (fold (\<lambda>p m. m(p_id p \<mapsto> p)) found Map.empty) ids = map (t_products (tabs d)) ids" by simp
    with a Inr d1 assms(3) show ?thesis
      by (auto simp: batchLoad_def await_def async_simps Let_def)
  qed
qed

end

lemma zip_lookup: "i \<in> set ks \<Longrightarrow> map_of (zip ks (map f ks)) i = Some (f i)"
  by (simp add: map_of_zip_map)

definition demo_item :: order_item where
  "demo_item = \<lparr>oi_id = ''i1'', oi_orderId = ''o1'', oi_productId = ''p1'', oi_quantity = 1,
     oi_priceSnapshot = Fin 10, oi_createdAt = 0, oi_updatedAt = 0\<rparr>"

definition demo_item_db :: ref_db where
  "demo_item_db = (demo_db [demo_order None])
     \<lparr>rd_rows := (rd_rows (demo_db [demo_order None]))\<lparr>rr_items := [demo_item]\<rparr>\<rparr>"

section \<open>Properties\<close>



text \<open>
  No sequence of operations on products gives two products one SKU or a row another's
  identifier, and stock stays at zero or above as long as no request asks for a negative one:
  neither the service nor the schema refuses that.
\<close>

theorem products_invariant:
  assumes "products_database ps tabs tx" and "tx d = Idle" and "products_ok (tabs d)"
  shows "products_ok (tabs (fold (products_step ps) acts d)) \<and>
    (stock_ok (tabs d) \<and> list_all asks_nonneg acts \<longrightarrow> stock_ok (tabs (fold (products_step ps) acts d)))"
proof -
  have "tx (fold (products_step ps) acts d) = Idle \<and> products_ok (tabs (fold (products_step ps) acts d)) \<and>
    (stock_ok (tabs d) \<and> list_all asks_nonneg acts \<longrightarrow> stock_ok (tabs (fold (products_step ps) acts d)))"
    using assms(2,3)
  proof (induction acts arbitrary: d)
    case (Cons a acts)
    from products_database.step_keeps [OF assms(1) Cons.prems] Cons.IH [of "products_step ps a d"]
    show ?case by simp
  qed simp
  then show ?thesis by simp
qed

theorem products_invariant_witness:
  "stock_ok (ref_tabs (fold (products_step ref_products)
     [UpdateProduct ''p1'' \<lparr>ppu_id = [], ppu_name = None, ppu_sku = None, ppu_description = Undefined,
        ppu_price = None, ppu_stock = Some 3, ppu_isActive = None\<rparr>, DeleteProduct ''p1''] (demo_db [])))"
proof -
  have "products_ok (ref_tabs (demo_db []))" "stock_ok (ref_tabs (demo_db []))"
    by (simp_all add: products_ok_def sku_free_def demo_product_def stock_ok_def)
  with products_invariant [OF ref_products.products_database_axioms _ this(1), of
      "[UpdateProduct ''p1'' \<lparr>ppu_id = [], ppu_name = None, ppu_sku = None, ppu_description = Undefined,
        ppu_price = None, ppu_stock = Some 3, ppu_isActive = None\<rparr>, DeleteProduct ''p1'']"]
  show ?thesis by (simp add: nonneg_stock_def)
qed

text \<open>
  Deleting a product leaves the order items that name it, and the loader then gives them no
  product, where the schema of the API promises one.
\<close>

theorem deleted_product_orphans:
  assumes "batching dl" and "products_database ps tabs tx" and "tx d = Idle" and "products_ok (tabs d)"
    and "deleteProduct ps pid d = (Inr u, d')"
    and "t_items (tabs d) i = Some it" and "oi_productId it = pid"
    and "resolve_products dl ps [it] d' = (Inr vs, d'')"
  shows "t_items (tabs d'') i = Some it \<and> vs = [None]"
proof -
  from products_database.product_delete_run [OF assms(2,3,5)] have T: "tx d' = Idle"
    "tabs d' = (tabs d)\<lparr>t_products := (t_products (tabs d))(pid := None)\<rparr>" by simp_all
  have ok: "products_ok (tabs d')" unfolding T(2) by (rule products_ok_removed [OF assms(4)])
  obtain a d1 where a: "batchLoad ps (first_of_each [oi_productId it]) d' = (a, d1)" by fastforce
  note batch = products_database.batch_run [OF assms(2) T(1) ok a]
  show ?thesis
  proof (cases a)
    case (Inl e)
    with batching.batch_fails [OF assms(1), of "batchLoad ps" "[oi_productId it]" d'] a assms(8)
    show ?thesis by (simp add: resolve_products_def)
  next
    case (Inr us)
    with batch T(2) assms(7) have us: "us = [None]" "tabs d1 = tabs d'" by (auto simp: first_of_each_def)
    with batching.batch [OF assms(1), of "batchLoad ps" "[oi_productId it]" d' us d1] a Inr assms(8) have "vs = [None]" "d'' = d1"
      by (simp_all add: resolve_products_def first_of_each_def)
    with us(2) T(2) assms(6) show ?thesis by simp
  qed
qed

theorem deleted_product_orphans_witness:
  "\<exists>d'. deleteProduct ref_products ''p1'' demo_item_db = (Inr (), d') \<and>
     fst (resolve_products ref_dl ref_products [demo_item] d') = Inr [None]"
proof -
  obtain d' where del: "deleteProduct ref_products ''p1'' demo_item_db = (Inr (), d')"
    by (simp add: deleteProduct_def ref_products_def ref_deleteProduct_def await_def async_simps
        demo_item_db_def demo_db_def demo_product_def)
  obtain vs d'' where res: "resolve_products ref_dl ref_products [demo_item] d' = (Inr vs, d'')"
    by (simp add: resolve_products_def ref_dl_def batchLoad_def ref_products_def await_def async_simps
        Let_def first_of_each_def)
  have "products_ok (ref_tabs demo_item_db)" "ref_tx demo_item_db = Idle"
    "t_items (ref_tabs demo_item_db) ''i1'' = Some demo_item" "oi_productId demo_item = ''p1''"
    by (simp_all add: products_ok_def sku_free_def demo_product_def demo_item_db_def demo_db_def ref_simps
        demo_item_def)
  from deleted_product_orphans [OF ref_loader.batching_axioms ref_products.products_database_axioms
      this(2,1) del this(3,4) res] del res show ?thesis by simp
qed

end
