(* ===== verification/JsFixed.thy ===== *)
theory JsFixed
  imports JsNumber
begin

text \<open>
  Sums, products and \<open>toFixed(2)\<close> of JavaScript numbers, as the checkout computes an order's
  amount with them, and the round trip: the text of a whole number of cents is read back as
  that number.
\<close>

section \<open>Arithmetic\<close>

fun js_add :: "jsnum \<Rightarrow> jsnum \<Rightarrow> jsnum" where
  "js_add (Fin a) (Fin b) = Fin (a + b)"
| "js_add NaN y = NaN"
| "js_add x NaN = NaN"
| "js_add PosInf NegInf = NaN"
| "js_add NegInf PosInf = NaN"
| "js_add PosInf y = PosInf"
| "js_add NegInf y = NegInf"
| "js_add x PosInf = PosInf"
| "js_add x NegInf = NegInf"

definition js_sign :: "jsnum \<Rightarrow> int" where
  "js_sign x = (case x of Fin q \<Rightarrow> (if 0 < q then 1 else if q < 0 then -1 else 0)
    | PosInf \<Rightarrow> 1 | NegInf \<Rightarrow> -1 | NaN \<Rightarrow> 0)"

definition js_mul :: "jsnum \<Rightarrow> jsnum \<Rightarrow> jsnum" where
  "js_mul x y =
     (case (x, y) of
        (Fin a, Fin b) \<Rightarrow> Fin (a * b)
      | _ \<Rightarrow> if x = NaN \<or> y = NaN \<or> js_sign x * js_sign y = 0 then NaN
             else if 0 < js_sign x * js_sign y then PosInf else NegInf)"

text \<open>
  \<open>x.toFixed(2)\<close>: the nearest number of hundredths, the larger of two. From \<open>10^21\<close> on the
  language uses its general conversion, the argument \<open>toString\<close>.
\<close>

definition toFixed2 :: "(jsnum \<Rightarrow> string) \<Rightarrow> jsnum \<Rightarrow> string" where
  "toFixed2 toString x =
     (case x of
        Fin q \<Rightarrow>
          (let y = \<bar>q\<bar> in
           if 10 ^ 21 \<le> y then toString x
           else
             (let m = string_of_nat (nat \<lfloor>y * 100 + 1 / 2\<rfloor>);
                  m' = replicate (3 - length m) (CHR ''0'') @ m;
                  k = length m' - 2 in
              (if q < 0 then ''-'' else []) @ take k m' @ ''.'' @ drop k m'))
      | _ \<Rightarrow> toString x)"

section \<open>Digits\<close>

lemma digit_char_code: "d < 10 \<Longrightarrow> (of_char (digit_char d) :: nat) = 48 + d"
  by (simp add: digit_char_def)

lemma digit_val_char: "d < 10 \<Longrightarrow> digit_val 10 (digit_char d) = Some d"
  by (simp add: digit_val_def digit_char_code)

lemma digits_val_append:
  "digits_val base acc (s @ t) =
     (case digits_val base acc s of None \<Rightarrow> None | Some a \<Rightarrow> digits_val base a t)"
  by (induction s arbitrary: acc) (auto split: option.split)

lemma digits_val_string_of_nat: "digits_val 10 0 (string_of_nat n) = Some n"
proof (induction n rule: string_of_nat.induct)
  case (1 n)
  show ?case
  proof (cases "n < 10")
    case True
    then show ?thesis by (subst string_of_nat.simps) (simp add: digit_val_char)
  next
    case False
    with 1 show ?thesis by (subst string_of_nat.simps) (simp add: digits_val_append digit_val_char)
  qed
qed

lemma digits_string_of_nat: "\<forall>c \<in> set (string_of_nat n). is_digit c"
proof (induction n rule: string_of_nat.induct)
  case (1 n)
  have d: "is_digit (digit_char d)" if "d < 10" for d
    using that by (simp add: is_digit_def digit_char_code)
  show ?case
  proof (cases "n < 10")
    case True
    then show ?thesis by (subst string_of_nat.simps) (simp add: d)
  next
    case False
    with 1 show ?thesis by (subst string_of_nat.simps) (simp add: d)
  qed
qed

lemma digits_val_zeros: "digits_val 10 0 (replicate k (CHR ''0'') @ s) = digits_val 10 0 s"
  by (induction k) (simp_all add: digit_val_def)

lemma is_digit_zero: "is_digit (CHR ''0'')"
  by (simp add: is_digit_def)

section \<open>Reading a decimal back\<close>

lemma takeWhile_digits:
  "\<forall>c \<in> set a. is_digit c \<Longrightarrow> takeWhile is_digit (a @ CHR ''.'' # b) = a"
  "\<forall>c \<in> set a. is_digit c \<Longrightarrow> dropWhile is_digit (a @ CHR ''.'' # b) = CHR ''.'' # b"
  by (simp_all add: takeWhile_append2 dropWhile_append2 is_digit_def)

lemma unsigned_decimal_point:
  assumes "\<forall>c \<in> set a. is_digit c" and "\<forall>c \<in> set b. is_digit c" and "a \<noteq> []"
    and "digits_val 10 0 (a @ b) = Some n"
  shows "unsigned_decimal (a @ CHR ''.'' # b) = Some (of_nat n / 10 ^ length b)"
proof -
  have b: "takeWhile is_digit b = b" "dropWhile is_digit b = []"
    using assms(2) by (auto simp: takeWhile_eq_all_conv)
  show ?thesis
    using assms(3,4) by (simp add: unsigned_decimal_def takeWhile_digits [OF assms(1)] b exponent_def)
qed

lemma digit_not_space: "is_digit c \<Longrightarrow> \<not> is_space c"
  by (auto simp: is_digit_def is_space_def)

lemma js_Number_point:
  assumes "\<forall>c \<in> set a. is_digit c" and "\<forall>c \<in> set b. is_digit c" and "a \<noteq> []" and "b \<noteq> []"
    and "digits_val 10 0 (a @ b) = Some n"
  shows "js_Number (a @ CHR ''.'' # b) = Fin (of_nat n / 10 ^ length b)"
proof -
  let ?s = "a @ CHR ''.'' # b"
  obtain c r where a: "a = c # r" using assms(3) by (cases a) auto
  obtain y z where b: "b = z @ [y]" using assms(4) by (cases b rule: rev_cases) auto
  have c: "is_digit c" and y: "is_digit y" using assms(1,2) a b by auto
  have trim: "js_trim ?s = ?s"
    using digit_not_space [OF c] digit_not_space [OF y] by (simp add: js_trim_def a b)
  have first: "c \<noteq> CHR ''-''" "c \<noteq> CHR ''+''" "c \<noteq> CHR ''I''"
    using c by (auto simp: is_digit_def)
  have second: "hd (r @ CHR ''.'' # b) \<notin> set ''xXoObB''"
    using assms(1) a by (cases r) (auto simp: is_digit_def)
  have "js_Number ?s = unsigned_number ?s"
    using first second by (simp add: js_Number_def trim) (simp add: a)
  moreover have "?s \<noteq> ''Infinity''" using first(3) by (simp add: a)
  ultimately show ?thesis
    using unsigned_decimal_point [OF assms(1,2,3,5)] by (simp add: unsigned_number_def)
qed

text \<open>The amounts of up to \<open>10^21\<close>, in cents.\<close>

lemma toFixed2_cents:
  assumes "n < 10 ^ 23"
  shows "js_Number (toFixed2 toString (Fin (of_nat n / 100))) = Fin (of_nat n / 100)"
proof -
  let ?q = "of_nat n / 100 :: rat"
  let ?m = "string_of_nat n"
  let ?m' = "replicate (3 - length ?m) (CHR ''0'') @ ?m"
  let ?k = "length ?m' - 2"
  have "of_nat n < (of_nat (10 ^ 23) :: rat)" using assms by (simp only: of_nat_less_iff)
  then have small: "\<not> 10 ^ 21 \<le> \<bar>?q\<bar>" by simp
  have "\<lfloor>\<bar>?q\<bar> * 100 + 1 / 2\<rfloor> = int n" by (simp add: floor_eq_iff)
  then have shown: "toFixed2 toString (Fin ?q) = take ?k ?m' @ CHR ''.'' # drop ?k ?m'"
    using small by (simp add: toFixed2_def Let_def)
  have digits: "\<forall>c \<in> set ?m'. is_digit c"
    using digits_string_of_nat [of n] is_digit_zero by auto
  have len: "3 \<le> length ?m'" by simp
  have val: "digits_val 10 0 (take ?k ?m' @ drop ?k ?m') = Some n"
    by (simp only: append_take_drop_id digits_val_zeros digits_val_string_of_nat)
  have "js_Number (take ?k ?m' @ CHR ''.'' # drop ?k ?m') = Fin (of_nat n / 10 ^ length (drop ?k ?m'))"
  proof (rule js_Number_point [OF _ _ _ _ val])
    show "\<forall>c \<in> set (take ?k ?m'). is_digit c" "\<forall>c \<in> set (drop ?k ?m'). is_digit c"
      using digits by (blast dest: in_set_takeD, blast dest: in_set_dropD)
    have "length (take ?k ?m') \<noteq> 0" "length (drop ?k ?m') \<noteq> 0"
      using len by (simp_all only: length_take length_drop)
    then show "take ?k ?m' \<noteq> []" "drop ?k ?m' \<noteq> []" by (metis list.size(3))+
  qed
  moreover have "length (drop ?k ?m') = 2" using len by (simp only: length_drop)
  ultimately show ?thesis by (simp only: shown) simp
qed

end
