(* ===== verification/Checkout.thy ===== *)
theory Checkout
  imports Orders PaymentsClient JsFixed
begin

text \<open>
  The orders controller (\<^verbatim>\<open>src/orders/order.controller.ts\<close>) and the orders resolver
  (\<^verbatim>\<open>src/graphql/orders.resolver.ts\<close>): the routes, the status of a creation, and the checkout
  that asks the payments service for the amount of an order. Its world is that of the orders
  service beside that of the payments client.
\<close>

section \<open>The controller\<close>

record ('d, 'ds, 'th, 'p) shop =
  sh_orders :: "('d, 'ds, 'th) world"
  sh_payments :: 'p

text \<open>
  What a request draws on beside its data: an identifier for a message, the clock, and the
  language's general conversion of a number to a text. The payments client is its operator, its
  two calls and its configuration.
\<close>

record shop_env =
  env_messageId :: string
  env_clock :: clock
  env_toString :: "jsnum \<Rightarrow> string"

record 'p payments_rpc =
  rpc_retry :: "('p, authorize_result) retry_op"
  rpc_authorize :: "rat \<Rightarrow> authorize_request \<Rightarrow> ('p, authorize_result) async"
  rpc_status :: "rat \<Rightarrow> string \<Rightarrow> ('p, string \<times> payment_status) async"
  rpc_config :: config

record authorize_dto =
  ap_currency :: string
  ap_idempotencyKey :: "string option"
  ap_simulateUnavailableOnce :: "bool option"

definition on_orders ::
  "(('d, 'ds, 'th) world, 'a) async \<Rightarrow> (('d, 'ds, 'th, 'p) shop, 'a) async" where
  "on_orders = on_part sh_orders (\<lambda>s w. w\<lparr>sh_orders := s\<rparr>)"

definition on_payments :: "('p, 'a) async \<Rightarrow> (('d, 'ds, 'th, 'p) shop, 'a) async" where
  "on_payments = on_part sh_payments (\<lambda>s w. w\<lparr>sh_payments := s\<rparr>)"

text \<open>\<open>order.items.reduce((sum, item) => sum + price * quantity, 0)\<close>\<close>

definition order_amount :: "order_item list \<Rightarrow> jsnum" where
  "order_amount items =
     foldl (\<lambda>sum item. js_add sum (js_mul (oi_priceSnapshot item) (Fin (of_int (oi_quantity item))))) (Fin 0) items"

definition authorizePayment ::
  "('d, 'ds, 'th) deps \<Rightarrow> 'p payments_rpc \<Rightarrow> shop_env \<Rightarrow> string \<Rightarrow> authorize_dto \<Rightarrow>
   (('d, 'ds, 'th, 'p) shop, authorize_result) async" where
  "authorizePayment deps rpc env oid body =
     await (on_orders (on_db (getOrder (dep_db deps) oid))) (\<lambda>order.
       (let amount = order_amount (o_items order) in
        if \<not> isFinite amount \<or> js_le0 amount then
          throw (BadRequestException ''Order total amount must be a positive number'')
        else
          on_payments (client_authorize (rpc_retry rpc) (rpc_authorize rpc) (rpc_config rpc)
            \<lparr>rq_orderId = Some (o_id order), rq_amount = Some (toFixed2 (env_toString env) amount),
             rq_currency = Some (ap_currency body), rq_idempotencyKey = ap_idempotencyKey body,
             rq_simulateUnavailableOnce = ap_simulateUnavailableOnce body\<rparr>)))"

text \<open>\<open>create\<close> sets the status: 200 for a duplicate, 201 for a new order.\<close>

definition orders_post ::
  "('d, 'ds, 'th) deps \<Rightarrow> shop_env \<Rightarrow> create_order_dto \<Rightarrow> string option \<Rightarrow>
   (('d, 'ds, 'th) world, nat \<times> order) async" where
  "orders_post deps env body idempotencyKey =
     await (create deps (env_messageId env) body idempotencyKey) (\<lambda>(order, wasDuplicate).
       resolve (if wasDuplicate then 200 else 201, order))"

datatype orders_request =
    GetOrders
  | GetOrder string
  | PostOrder create_order_dto "string option"
  | PostAuthorize string authorize_dto
  | GetPaymentStatus string
  | PutOrder string update_order_dto
  | DeleteOrder string
  | OrdersQuery "orders_filter option" "orders_pagination option"
  | CreateOrderMutation create_order_input "string option"

datatype orders_response =
    Orders "order list"
  | Order nat order
  | OrderRow order_row
  | Payment authorize_result
  | PaymentStatus "string \<times> payment_status"
  | Connection orders_connection
  | NoContent

definition answer :: "('w, 'a) async \<Rightarrow> ('a \<Rightarrow> orders_response) \<Rightarrow> ('w, orders_response) async" where
  "answer m f = await m (\<lambda>x. resolve (f x))"

fun orders_route ::
  "('d, 'ds, 'th) deps \<Rightarrow> 'p payments_rpc \<Rightarrow> shop_env \<Rightarrow> orders_request \<Rightarrow>
   (('d, 'ds, 'th, 'p) shop, orders_response) async" where
  "orders_route deps rpc env GetOrders =
     answer (on_orders (on_db (getAll (dep_db deps)))) Orders"
| "orders_route deps rpc env (GetOrder oid) =
     answer (on_orders (on_db (getOrder (dep_db deps) oid))) (Order 200)"
| "orders_route deps rpc env (PostOrder body idempotencyKey) =
     answer (on_orders (orders_post deps env body idempotencyKey)) (\<lambda>(status, order). Order status order)"
| "orders_route deps rpc env (PostAuthorize oid body) =
     answer (authorizePayment deps rpc env oid body) Payment"
| "orders_route deps rpc env (GetPaymentStatus paymentId) =
     answer (on_payments (client_getPaymentStatus (rpc_status rpc) (rpc_config rpc) paymentId)) PaymentStatus"
| "orders_route deps rpc env (PutOrder oid body) =
     answer (on_orders (updateOrder deps (env_clock env) oid body)) OrderRow"
| "orders_route deps rpc env (DeleteOrder oid) =
     answer (on_orders (on_db (deleteOrder (dep_db deps) oid))) (\<lambda>_. NoContent)"
| "orders_route deps rpc env (OrdersQuery flt pagination) =
     answer (on_orders (on_db (getAllConnection (dep_db deps) flt pagination))) Connection"
| "orders_route deps rpc env (CreateOrderMutation input idempotencyKey) =
     answer (on_orders (createFromInput deps (env_messageId env) input idempotencyKey)) (Order 200)"

section \<open>Amounts in cents\<close>

text \<open>
  Prices are kept with two decimals: \<open>cents\<close> is the price of an item as a whole number of
  cents, and an order costs the sum of price times quantity.
\<close>

definition cents :: "jsnum \<Rightarrow> nat \<Rightarrow> bool" where
  "cents x c \<longleftrightarrow> x = Fin (of_nat c / 100)"

lemma order_amount_cents:
  assumes "list_all2 (\<lambda>it c. cents (oi_priceSnapshot it) c \<and> 0 \<le> oi_quantity it) items cs"
  shows "order_amount items = Fin (of_nat (sum_list (map2 (\<lambda>it c. c * nat (oi_quantity it)) items cs)) / 100)"
proof -
  have "foldl (\<lambda>sum item. js_add sum (js_mul (oi_priceSnapshot item) (Fin (of_int (oi_quantity item)))))
      (Fin (of_nat a / 100)) items =
    Fin (of_nat (a + sum_list (map2 (\<lambda>it c. c * nat (oi_quantity it)) items cs)) / 100)" for a
    using assms
  proof (induction items cs arbitrary: a rule: list_all2_induct)
    case Nil
    then show ?case by simp
  next
    case (Cons it items c cs)
    then have "oi_priceSnapshot it = Fin (of_nat c / 100)" "0 \<le> oi_quantity it" by (simp_all add: cents_def)
    then have "js_add (Fin (of_nat a / 100)) (js_mul (oi_priceSnapshot it) (Fin (of_int (oi_quantity it)))) =
        Fin (of_nat (a + c * nat (oi_quantity it)) / 100)"
      by (simp add: js_mul_def add_divide_distrib of_nat_nat)
    with Cons.IH [of "a + c * nat (oi_quantity it)"] show ?case by (simp add: add.assoc)
  qed
  from this [of 0] show ?thesis by (simp add: order_amount_def)
qed

end
