(* ===== verification/Routes.thy ===== *)
theory Routes
  imports Checkout Accounts Products Files
begin

text \<open>
  The other controllers and resolvers: users (\<^verbatim>\<open>src/users/user.controller.ts\<close>), products
  (\<^verbatim>\<open>src/products/product.controller.ts\<close>, \<^verbatim>\<open>src/graphql/products.resolver.ts\<close>), authentication
  (\<^verbatim>\<open>src/auth/auth.controller.ts\<close>) and files (\<^verbatim>\<open>src/files/files.controller.ts\<close>). Only the
  files' routes and \<open>auth/me\<close> are behind the guard.
\<close>

section \<open>Users\<close>

record create_user_dto =
  cud_email :: string
  cud_password :: string
  cud_roles :: "string list option"
  cud_scopes :: "string list option"

datatype users_request =
    GetUsers_route
  | GetUser_route string
  | PostUser_route create_user_dto
  | PutUser_route string user_updates
  | DeleteUser_route string

datatype users_response = UserList "user_row list" | OneUser user_row | SavedUser preloaded_user | UserGone

fun users_route ::
  "'d users_store \<Rightarrow> bcrypt \<Rightarrow> string \<Rightarrow> users_request \<Rightarrow> ('d, users_response) async" where
  "users_route us bc salt GetUsers_route = await (users_getAll us) (\<lambda>x. resolve (UserList x))"
| "users_route us bc salt (GetUser_route uid) = await (getUser us uid) (\<lambda>x. resolve (OneUser x))"
| "users_route us bc salt (PostUser_route body) =
     await (users_create us bc salt (cud_email body) (Some (cud_password body)) (cud_roles body) (cud_scopes body))
       (\<lambda>x. resolve (OneUser x))"
| "users_route us bc salt (PutUser_route uid body) = await (updateUser us uid body) (\<lambda>x. resolve (SavedUser x))"
| "users_route us bc salt (DeleteUser_route uid) = await (deleteUser us uid) (\<lambda>x. resolve UserGone)"

section \<open>Products\<close>

datatype products_request =
    GetProducts_route
  | GetProduct_route string
  | PostProduct_route new_product
  | PutProduct_route string product_updates
  | DeleteProduct_route string
  | Products_query "orders_pagination option"
  | CreateProduct_mutation create_product_input

datatype products_response = ProductList "product_row list" | OneProduct product_row | ProductGone

fun products_route :: "'d products_store \<Rightarrow> products_request \<Rightarrow> ('d, products_response) async" where
  "products_route ps GetProducts_route = await (products_getAll ps) (\<lambda>x. resolve (ProductList x))"
| "products_route ps (GetProduct_route pid) = await (getProduct ps pid) (\<lambda>x. resolve (OneProduct x))"
| "products_route ps (PostProduct_route body) = await (products_create ps body) (\<lambda>x. resolve (OneProduct x))"
| "products_route ps (PutProduct_route pid body) = await (updateProduct ps pid body) (\<lambda>x. resolve (OneProduct x))"
| "products_route ps (DeleteProduct_route pid) = await (deleteProduct ps pid) (\<lambda>x. resolve ProductGone)"
| "products_route ps (Products_query pagination) = await (getAllPaginated ps pagination) (\<lambda>x. resolve (ProductList x))"
| "products_route ps (CreateProduct_mutation input) =
     await (products_createFromInput ps input) (\<lambda>x. resolve (OneProduct x))"

section \<open>Behind the guard\<close>

text \<open>A route behind the guard: the handler gets the user the token stands for.\<close>

definition guarded ::
  "jwt_service \<Rightarrow> (string option \<Rightarrow> string option) \<Rightarrow> int \<Rightarrow> string option \<Rightarrow>
   (auth_user \<Rightarrow> ('w, 'a) async) \<Rightarrow> ('w, 'a) async" where
  "guarded jwt bearer now authorization handler =
     (case JwtAuthGuard jwt bearer now authorization of
        Inl e \<Rightarrow> throw e
      | Inr user \<Rightarrow> handler user)"

record login_dto =
  lo_email :: string
  lo_password :: string

datatype auth_request = PostLogin login_dto | GetMe

datatype auth_response = AccessToken string | Me auth_user

fun auth_route ::
  "'d users_store \<Rightarrow> bcrypt \<Rightarrow> jwt_service \<Rightarrow> (string option \<Rightarrow> string option) \<Rightarrow> int \<Rightarrow> string option \<Rightarrow>
   auth_request \<Rightarrow> ('d, auth_response) async" where
  "auth_route us bc jwt bearer now authorization (PostLogin body) =
     await (login us bc jwt now (lo_email body) (lo_password body)) (\<lambda>t. resolve (AccessToken t))"
| "auth_route us bc jwt bearer now authorization GetMe =
     guarded jwt bearer now authorization (\<lambda>user. resolve (Me (auth_me user)))"

datatype files_request =
    PostPresign presign_file_dto
  | PostComplete complete_upload_dto
  | GetFile_route string

datatype files_response = Presigned presigned_upload | FileView file_view

fun files_route ::
  "('d, 's) files_deps \<Rightarrow> jwt_service \<Rightarrow> (string option \<Rightarrow> string option) \<Rightarrow> int \<Rightarrow> string option \<Rightarrow> string \<Rightarrow>
   files_request \<Rightarrow> (('d, 's) files_world, files_response) async" where
  "files_route deps jwt bearer now authorization fileId (PostPresign body) =
     guarded jwt bearer now authorization
       (\<lambda>user. await (createPresignedUpload deps fileId user body) (\<lambda>x. resolve (Presigned x)))"
| "files_route deps jwt bearer now authorization fileId (PostComplete body) =
     guarded jwt bearer now authorization
       (\<lambda>user. await (completeUpload deps body user) (\<lambda>x. resolve (FileView x)))"
| "files_route deps jwt bearer now authorization fileId (GetFile_route i) =
     guarded jwt bearer now authorization (\<lambda>user. await (getFileById deps i user) (\<lambda>x. resolve (FileView x)))"

end
