(* ===== verification/RoutesProperties.thy ===== *)
theory RoutesProperties
  imports Routes ReferenceAccounts FilesProperties
begin

text \<open>
  Authentication and the files service together: what a request to the files' routes may do is
  what the user of an unexpired token may do.
\<close>

lemma await_resolve_run:
  "await m (\<lambda>x. resolve (f x)) s = (case m s of (r, t) \<Rightarrow> (map_sum id f r, t))"
  by (simp add: await_def async_simps split: prod.split sum.split)

lemma guarded_run:
  assumes "tokens jwt ttl" and "guarded jwt bearer now header handler w = (v, w')"
  shows "(v = Inl (UnauthorizedException ''Unauthorized'') \<and> w' = w) \<or>
    (\<exists>t u signed. bearer header = Some t \<and> jwt_sign jwt signed u = Inr t \<and>
       now div 1000 < signed div 1000 + ttl \<and> handler u w = (v, w'))"
proof (cases "bearer header")
  case None
  with assms(2) show ?thesis by (simp add: guarded_def JwtAuthGuard_def async_simps)
next
  case (Some t)
  show ?thesis
  proof (cases "jwt_verify jwt now t")
    case (Inl e)
    with Some assms(2) show ?thesis by (simp add: guarded_def JwtAuthGuard_def async_simps)
  next
    case (Inr u)
    have "jwt_validate u = u" by (cases u) (simp add: jwt_validate_def)
    with Some Inr assms(2) have run: "handler u w = (v, w')" by (simp add: guarded_def JwtAuthGuard_def)
    from tokens.verify_signed [OF assms(1) Inr] obtain signed where
      "jwt_sign jwt signed u = Inr t" "now div 1000 < signed div 1000 + ttl" by blast
    with Some run show ?thesis by blast
  qed
qed

section \<open>Properties\<close>



end
