(* ===== verification/CheckoutProperties.thy ===== *)
theory CheckoutProperties
  imports Checkout OrderProperties
begin

text \<open>
  The composition of the orders side and the payments service at the checkout: what is charged
  is what the order costs.
\<close>

section \<open>Steps of the checkout\<close>

definition checkout_request :: "string \<Rightarrow> string \<Rightarrow> authorize_dto \<Rightarrow> authorize_request" where
  "checkout_request oid amount body =
     \<lparr>rq_orderId = Some oid, rq_amount = Some amount, rq_currency = Some (ap_currency body),
      rq_idempotencyKey = ap_idempotencyKey body,
      rq_simulateUnavailableOnce = ap_simulateUnavailableOnce body\<rparr>"

definition checkout_input :: "string \<Rightarrow> string \<Rightarrow> authorize_dto \<Rightarrow> authorize_input" where
  "checkout_input oid amount body =
     \<lparr>ai_orderId = oid, ai_amount = amount, ai_currency = ap_currency body,
      ai_idempotencyKey = ap_idempotencyKey body\<rparr>"

lemma getOrder_found:
  "getOrder db oid d = (Inr order, d') \<Longrightarrow> repo_findOrder db oid d = (Inr (Some order), d')"
  by (auto simp: getOrder_def await_def async_simps split: prod.splits sum.splits option.splits)

context relational_store
begin

lemma getOrder_run:
  assumes "tx d = Idle" and "getOrder db oid d = (Inr order, d')"
  shows "t_orders (tabs d) oid = Some (order_row.truncate order) \<and> o_id order = oid \<and> tabs d' = tabs d"
  using op_spec_Inr [OF findOrder assms(1) [symmetric] getOrder_found [OF assms(2)]]
  by (auto simp: by_id_def loaded_def)

end

lemma authorizePayment_run:
  assumes "getOrder (dep_db deps) oid (w_db (sh_orders w)) = (Inr order, d)"
    and "order_amount (o_items order) = Fin q"
  defines "w1 \<equiv> w\<lparr>sh_orders := (sh_orders w)\<lparr>w_db := d\<rparr>\<rparr>"
  shows "authorizePayment deps rpc env oid body w =
    (if q \<le> 0 then (Inl (BadRequestException ''Order total amount must be a positive number''), w1)
     else case client_authorize (rpc_retry rpc) (rpc_authorize rpc) (rpc_config rpc)
         (checkout_request (o_id order) (toFixed2 (env_toString env) (Fin q)) body) (sh_payments w) of
       (r, s) \<Rightarrow> (r, w1\<lparr>sh_payments := s\<rparr>))"
proof -
  have get: "on_orders (on_db (getOrder (dep_db deps) oid)) w = (Inr order, w1)"
    using assms(1) by (simp add: on_orders_def on_db_def on_part_def w1_def)
  have "sh_payments w1 = sh_payments w" by (simp add: w1_def)
  with get assms(2) show ?thesis
    by (simp add: authorizePayment_def await_def
        async_simps on_payments_def on_part_def checkout_request_def)
qed

lemma authorize_once:
  assumes "retry_operator rx wait" and "valid_authorize (checkout_request oid amount body)"
    and "ap_simulateUnavailableOnce body \<noteq> Some True"
  shows "\<exists>r t. client_authorize rx (\<lambda>T p. over_wire (grpc_authorize uuid p)) config
      (checkout_request oid amount body) s = (Inr r, t) \<and>
    authorize uuid (checkout_input oid amount body) s = (r, t)"
proof -
  obtain r t where a: "authorize uuid (checkout_input oid amount body) s = (r, t)" by fastforce
  have calm: "\<not> fst (shouldFailTransient oid (ap_simulateUnavailableOnce body) s)"
    using assms(3) by (cases "ap_simulateUnavailableOnce body") (auto simp: shouldFailTransient_def)
  have "grpc_authorize uuid (checkout_request oid amount body) s = (Inr r, t)"
    using grpc_authorize_valid [OF assms(2), of uuid s] calm a
    by (simp add: async_simps checkout_request_def checkout_input_def)
  then have "over_wire (grpc_authorize uuid (checkout_request oid amount body)) s = (Inr r, t)"
    by (rule over_wire_value)
  from retry_operator.rx_value [where m = "over_wire (grpc_authorize uuid (checkout_request oid amount body))",
      OF assms(1) this] a show ?thesis
    by (simp add: client_authorize_def async_simps)
qed

lemma authorize_new:
  assumes "authorize uuid (checkout_input oid amount body) s = (r, t)"
    and "cached_result (authorizeIdempotencyResults s) (ap_idempotencyKey body) = None"
  shows "r = \<lparr>ar_paymentId = uuid, ar_status = PAYMENT_STATUS_AUTHORIZED\<rparr> \<and>
    paymentsById t = (paymentsById s)(uuid \<mapsto>
      \<lparr>pr_paymentId = uuid, pr_orderId = oid, pr_status = PAYMENT_STATUS_AUTHORIZED,
       pr_amount = amount, pr_currency = ap_currency body\<rparr>)"
  using assms by (auto simp: authorize_def checkout_input_def Let_def)

lemma authorize_charges:
  assumes "retry_operator rx wait" and "valid_authorize (checkout_request oid amount body)"
    and "ap_simulateUnavailableOnce body \<noteq> Some True"
  shows "case cached_result (authorizeIdempotencyResults s) (ap_idempotencyKey body) of
      Some r \<Rightarrow> client_authorize rx (\<lambda>T p. over_wire (grpc_authorize uuid p)) config
        (checkout_request oid amount body) s = (Inr r, s)
    | None \<Rightarrow> \<exists>t. client_authorize rx (\<lambda>T p. over_wire (grpc_authorize uuid p)) config
          (checkout_request oid amount body) s =
          (Inr \<lparr>ar_paymentId = uuid, ar_status = PAYMENT_STATUS_AUTHORIZED\<rparr>, t) \<and>
        paymentsById t = (paymentsById s)(uuid \<mapsto>
          \<lparr>pr_paymentId = uuid, pr_orderId = oid, pr_status = PAYMENT_STATUS_AUTHORIZED,
           pr_amount = amount, pr_currency = ap_currency body\<rparr>)"
proof -
  from authorize_once [OF assms, where config = config and uuid = uuid and s = s] obtain r t where
    call: "client_authorize rx (\<lambda>T p. over_wire (grpc_authorize uuid p)) config
        (checkout_request oid amount body) s = (Inr r, t)"
    and a: "authorize uuid (checkout_input oid amount body) s = (r, t)" by blast
  show ?thesis
  proof (cases "cached_result (authorizeIdempotencyResults s) (ap_idempotencyKey body)")
    case None
    with call authorize_new [OF a] show ?thesis by simp
  next
    case (Some r0)
    with a have "r = r0" "t = s" by (simp_all add: authorize_def checkout_input_def)
    with call Some show ?thesis by simp
  qed
qed


section \<open>A checkout\<close>

definition demo_shop :: "(ref_db, status_event option, bool \<times> status_event option, payments_state) shop" where
  "demo_shop = \<lparr>sh_orders = (demo_world [])\<lparr>w_db := (demo_db [demo_order None])
     \<lparr>rd_rows := (rd_rows (demo_db [demo_order None]))
       \<lparr>rr_items := [\<lparr>oi_id = ''i1'', oi_orderId = ''o1'', oi_productId = ''p1'', oi_quantity = 3,
          oi_priceSnapshot = Fin (1999 / 100), oi_createdAt = 0, oi_updatedAt = 0\<rparr>]\<rparr>\<rparr>\<rparr>,
     sh_payments = payments_init\<rparr>"

definition demo_rpcs :: "payments_state payments_rpc" where
  "demo_rpcs = \<lparr>rpc_retry = retry_ref (\<lambda>ms s. s),
     rpc_authorize = (\<lambda>T p. over_wire (grpc_authorize ''pay1'' p)),
     rpc_status = (\<lambda>T i. over_wire (grpc_getPaymentStatus i)), rpc_config = no_config\<rparr>"

definition demo_env :: shop_env where
  "demo_env = \<lparr>env_messageId = ''m1'', env_clock = \<lparr>now_processedAt = 0, now_version = 0, now_ts = 0\<rparr>,
     env_toString = (\<lambda>x. [])\<rparr>"

definition demo_currency :: authorize_dto where
  "demo_currency = \<lparr>ap_currency = ''USD'', ap_idempotencyKey = None, ap_simulateUnavailableOnce = None\<rparr>"


end
