(* ===== verification/Pipeline.thy ===== *)
theory Pipeline
  imports WorkerProperties
begin

text \<open>
  The orders service, the broker and the worker together: from the creation of an order over
  the message it publishes to the order processed.
\<close>

lemma processing_run:
  assumes "reliable_store (dep_db deps) tabs tx fits" and "tx (w_db (ww_world ww)) = Idle"
    and "schema_ok (tabs (w_db (ww_world ww)))"
    and "property payload ''messageId'' = Some (JStr m)" and "property payload ''orderId'' = Some (JStr i)"
    and "payload \<noteq> JNull" and "t_orders (tabs (w_db (ww_world ww))) i = Some r"
  shows "processing deps clock payload a ww =
    Inr (if t_processed (tabs (w_db (ww_world ww))) m \<noteq> None then Deduplicated
      else if o_status r = PROCESSED then AlreadyProcessed else Processed, Some (JStr i))"
proof -
  have "property (process_input payload a) ''messageId'' = Some (JStr m)"
    "property (process_input payload a) ''orderId'' = Some (JStr i)"
    using assms(4-6) by (simp_all add: process_input_def map_of_spread_obj)
  from process_outcome [OF assms(1-3) this refl, of "dc_process clock"] assms(7) show ?thesis
    by (simp add: processing_def split: if_splits)
qed

lemma delivery_settled:
  assumes rel: "reliable_store (dep_db deps) tabs tx fits" and "accepting (dep_amqp deps)" and "wready ww"
    and idle: "tx (w_db (ww_world ww)) = Idle" and ok: "schema_ok (tabs (w_db (ww_world ww)))"
    and parsed: "parse (d_content m) = Some payload"
    and ids: "property payload ''messageId'' = Some (JStr mid)" "property payload ''orderId'' = Some (JStr i)"
    and payload: "payload \<noteq> JNull" and found: "t_orders (tabs (w_db (ww_world ww))) i = Some r"
  obtains ww' outcome where "worker_delivery deps cfg clock (Some m) ww = (Inr (), ww')" "wready ww'"
    "calls ww' = calls ww @ [Ack m]" "tx (w_db (ww_world ww')) = Idle" "schema_ok (tabs (w_db (ww_world ww')))"
    "process_effect (tabs (w_db (ww_world ww))) (process_input payload (attempt_of (property payload ''attempt'')))
      (now_processedAt (dc_process clock)) (Inr (outcome, Some (JStr i))) (tabs (w_db (ww_world ww')))"
    "outcome = (if t_processed (tabs (w_db (ww_world ww))) mid \<noteq> None then Deduplicated
      else if o_status r = PROCESSED then AlreadyProcessed else Processed)"
proof -
  let ?a = "attempt_of (property payload ''attempt'')"
  let ?outcome = "if t_processed (tabs (w_db (ww_world ww))) mid \<noteq> None then Deduplicated
      else if o_status r = PROCESSED then AlreadyProcessed else Processed"
  note outcome = processing_run [OF rel idle ok ids payload found, of clock ?a]
  from settle_processed [OF assms(2,3) parsed payload refl outcome] obtain ww' where
    ww': "worker_delivery deps cfg clock (Some m) ww = (Inr (), ww')" "wready ww'"
    "calls ww' = calls ww @ [Ack m]" "w_db (ww_world ww') = after_process deps clock payload ?a ww" by blast
  obtain v w' where run: "processOrderMessage deps (dc_process clock) (process_input payload ?a) (ww_world ww) = (v, w')"
    by fastforce
  with outcome have v: "v = Inr (?outcome, Some (JStr i))" by (simp add: processing_def)
  have rel': "relational_store (dep_db deps) tabs tx" using rel by (rule reliable_store.axioms(1))
  from process_run [OF rel' idle ok run] v have
    eff: "process_effect (tabs (w_db (ww_world ww))) (process_input payload ?a) (now_processedAt (dc_process clock))
      (Inr (?outcome, Some (JStr i))) (tabs (w_db w'))" "tx (w_db w') = Idle" by simp_all
  have db: "w_db (ww_world ww') = w_db w'" using ww'(4) run by (simp add: after_process_def)
  from process_effect_schema [OF eff(1) ok] have "schema_ok (tabs (w_db w'))" .
  with that [of ww' ?outcome] ww'(1-3) eff db show ?thesis by simp
qed

lemma same_after_dedup:
  "process_effect T message now (Inr (Deduplicated, x)) T' \<Longrightarrow> T' = T"
  by (auto simp: process_effect_def)

text \<open>
  A pending order's message delivered to a worker whose database has the order and has not seen
  the message: the order is processed once, however often the message comes.
\<close>

lemma order_message_ids:
  "property (order_message mid x t) ''messageId'' = Some (JStr mid)"
  "property (order_message mid x t) ''orderId'' = Some (JStr (o_id x))"
  "order_message mid x t \<noteq> JNull"
  by (simp_all add: order_message_def)

lemma pending_order_settled:
  assumes rel: "reliable_store (dep_db deps) tabs tx fits" and acc: "accepting (dep_amqp deps)"
    and rdy: "wready ww" and "tx (w_db (ww_world ww)) = Idle" and "schema_ok (tabs (w_db (ww_world ww)))"
    and content: "d_content m = JsonText (order_message messageId x createdAt)"
    and found: "t_orders (tabs (w_db (ww_world ww))) (o_id x) = Some (order_row.truncate x)"
    and new: "t_processed (tabs (w_db (ww_world ww))) messageId = None"
    and pending: "o_status x = PENDING"
  shows "\<exists>ww' r. worker_delivery deps cfg clock (Some m) ww = (Inr (), ww') \<and> calls ww' = calls ww @ [Ack m] \<and>
        t_orders (tabs (w_db (ww_world ww'))) (o_id x) = Some r \<and> o_status r = PROCESSED \<and>
        o_processedAt r = Some (now_processedAt (dc_process clock)) \<and> o_userId r = o_userId x \<and>
        (\<forall>clock2. \<exists>ww2. worker_delivery deps cfg clock2 (Some m) ww' = (Inr (), ww2) \<and>
           calls ww2 = calls ww' @ [Ack m] \<and> tabs (w_db (ww_world ww2)) = tabs (w_db (ww_world ww')))"
proof -
  let ?msg = "order_message messageId x createdAt"
  note ids = order_message_ids [of messageId x createdAt]
  have parsed: "parse (d_content m) = Some ?msg" using content by (simp add: parse_def)
  obtain ww' outcome where one: "worker_delivery deps cfg clock (Some m) ww = (Inr (), ww')" "wready ww'"
    "calls ww' = calls ww @ [Ack m]" "tx (w_db (ww_world ww')) = Idle" "schema_ok (tabs (w_db (ww_world ww')))"
    "process_effect (tabs (w_db (ww_world ww))) (process_input ?msg (attempt_of (property ?msg ''attempt'')))
      (now_processedAt (dc_process clock)) (Inr (outcome, Some (JStr (o_id x)))) (tabs (w_db (ww_world ww')))"
    "outcome = (if t_processed (tabs (w_db (ww_world ww))) messageId \<noteq> None then Deduplicated
      else if o_status (order_row.truncate x) = PROCESSED then AlreadyProcessed else Processed)"
    by (rule delivery_settled [OF rel acc rdy assms(4,5) parsed ids found])
  have outcome: "outcome = Processed" using one(7) new pending by simp
  have inp: "property (process_input ?msg (attempt_of (property ?msg ''attempt''))) ''messageId'' = Some (JStr messageId)"
    using ids by (simp add: process_input_def map_of_spread_obj)
  obtain ts uat where T': "tabs (w_db (ww_world ww')) = (marked (tabs (w_db (ww_world ww))) messageId (o_id x) ts)
      \<lparr>t_orders := (t_orders (tabs (w_db (ww_world ww))))(o_id x \<mapsto>
        processed_row (now_processedAt (dc_process clock)) uat (order_row.truncate x))\<rparr>"
    using one(6) inp found by (auto simp: process_effect_def outcome)
  let ?r = "processed_row (now_processedAt (dc_process clock)) uat (order_row.truncate x)"
  have row: "t_orders (tabs (w_db (ww_world ww'))) (o_id x) = Some ?r"
    "t_processed (tabs (w_db (ww_world ww'))) messageId \<noteq> None"
    by (simp_all add: T' marked_def)
  have again: "\<exists>ww2. worker_delivery deps cfg clock2 (Some m) ww' = (Inr (), ww2) \<and>
         calls ww2 = calls ww' @ [Ack m] \<and> tabs (w_db (ww_world ww2)) = tabs (w_db (ww_world ww'))" for clock2
  proof -
    obtain ww2 outcome2 where two: "worker_delivery deps cfg clock2 (Some m) ww' = (Inr (), ww2)"
      "calls ww2 = calls ww' @ [Ack m]"
      "process_effect (tabs (w_db (ww_world ww'))) (process_input ?msg (attempt_of (property ?msg ''attempt'')))
        (now_processedAt (dc_process clock2)) (Inr (outcome2, Some (JStr (o_id x)))) (tabs (w_db (ww_world ww2)))"
      "outcome2 = (if t_processed (tabs (w_db (ww_world ww'))) messageId \<noteq> None then Deduplicated
        else if o_status ?r = PROCESSED then AlreadyProcessed else Processed)"
      by (rule delivery_settled [OF rel acc one(2,4,5) parsed ids row(1)])
    have "outcome2 = Deduplicated" using two(4) row(2) by simp
    with two(1-3) same_after_dedup show ?thesis by blast
  qed
  have "o_status ?r = PROCESSED" "o_processedAt ?r = Some (now_processedAt (dc_process clock))"
    "o_userId ?r = o_userId x" by (simp_all add: processed_row_def)
  with one(1,3) row(1) again show ?thesis by blast
qed

section \<open>Property\<close>

text \<open>
  C4. From order to processed: on a database that fails only on constraints and a broker that
  takes everything, a created order puts exactly one message on the main queue; whenever that
  message is delivered to a worker on the database as the creation left it, the worker settles
  it with one acknowledgement and the order is processed, and every further delivery of it is
  acknowledged too and changes nothing.
\<close>

theorem order_pipeline:
  assumes "reliable_store (dep_db deps) tabs tx fits" and "accepting (dep_amqp deps)"
    and "tx (w_db w) = Idle" and "schema_ok (tabs (w_db w))" and "ready (w_rabbit w)"
    and "t_processed (tabs (w_db w)) messageId = None"
    and "create deps messageId dto ik w = (Inr (x, False), w')"
  shows "\<exists>message options. rb_calls (w_rabbit w') =
      rb_calls (w_rabbit w) @ [SendToQueue ''orders.process'' (JsonText message) options] \<and>
    (\<forall>m ww cfg clock. d_content m = JsonText message \<longrightarrow> w_db (ww_world ww) = w_db w' \<longrightarrow> wready ww \<longrightarrow>
      (\<exists>ww' r. worker_delivery deps cfg clock (Some m) ww = (Inr (), ww') \<and> calls ww' = calls ww @ [Ack m] \<and>
        t_orders (tabs (w_db (ww_world ww'))) (o_id x) = Some r \<and> o_status r = PROCESSED \<and>
        o_processedAt r = Some (now_processedAt (dc_process clock)) \<and> o_userId r = co_userId dto \<and>
        (\<forall>clock2. \<exists>ww2. worker_delivery deps cfg clock2 (Some m) ww' = (Inr (), ww2) \<and>
           calls ww2 = calls ww' @ [Ack m] \<and>
           tabs (w_db (ww_world ww2)) = tabs (w_db (ww_world ww')))))"
proof -
  have rel: "relational_store (dep_db deps) tabs tx" using assms(1) by (rule reliable_store.axioms(1))
  from create_message [OF rel assms(3,4,7)] assms(5) obtain createdAt options where
    sent: "rb_calls (w_rabbit w') = rb_calls (w_rabbit w) @
      [SendToQueue ''orders.process'' (JsonText (order_message messageId x createdAt)) options]"
    and stored: "t_orders (tabs (w_db w')) (o_id x) = Some (order_row.truncate x)" "o_status x = PENDING" by auto
  let ?msg = "order_message messageId x createdAt"
  obtain u d where cs: "create_stored (dep_db deps) dto ik (w_db w) = (u, d)" by fastforce
  from relational_store.create_stored_run [OF rel assms(3,4) refl cs] have
    eff: "tx d = Idle" "create_effect (tabs (w_db w)) dto (nullish ik (co_idempotencyKey dto)) u (tabs d)" by simp_all
  from assms(7) create_run [OF cs, of messageId] have u: "u = Inr (x, False)" "w_db w' = d"
    by (auto split: sum.splits prod.splits if_splits)
  with eff obtain items where placed: "order_placed (tabs (w_db w)) (co_userId dto)
      (nullish ik (co_idempotencyKey dto)) items x (tabs (w_db w'))" by auto
  from placed_schema_ok [OF placed assms(4)] have ok: "schema_ok (tabs (w_db w'))" .
  have new: "t_processed (tabs (w_db w')) messageId = None"
    using placed assms(6) by (simp add: order_placed_def)
  have user: "o_userId x = co_userId dto" using placed by (simp add: order_placed_def)
  have "\<exists>ww' r. worker_delivery deps cfg clock (Some m) ww = (Inr (), ww') \<and> calls ww' = calls ww @ [Ack m] \<and>
        t_orders (tabs (w_db (ww_world ww'))) (o_id x) = Some r \<and> o_status r = PROCESSED \<and>
        o_processedAt r = Some (now_processedAt (dc_process clock)) \<and> o_userId r = co_userId dto \<and>
        (\<forall>clock2. \<exists>ww2. worker_delivery deps cfg clock2 (Some m) ww' = (Inr (), ww2) \<and>
           calls ww2 = calls ww' @ [Ack m] \<and> tabs (w_db (ww_world ww2)) = tabs (w_db (ww_world ww')))"
    if "d_content m = JsonText ?msg" and "w_db (ww_world ww) = w_db w'" and "wready ww" for m ww cfg clock
    using pending_order_settled [OF assms(1,2) that(3) _ _ that(1), of cfg clock] that(2) eff(1) u(2) ok stored new user
    by simp
  with sent show ?thesis by blast
qed

theorem order_pipeline_witness:
  "\<exists>x w' message options. create demo_deps ''m1'' (demo_dto 5) None (demo_world []) = (Inr (x, False), w') \<and>
    rb_calls (w_rabbit w') = [SendToQueue ''orders.process'' (JsonText message) options] \<and>
    (\<exists>ww' r. worker_delivery demo_deps demo_config demo_dclock (Some (demo_delivery (JsonText message)))
        \<lparr>ww_world = (demo_world [])\<lparr>w_db := w_db w'\<rparr>, ww_log = []\<rparr> = (Inr (), ww') \<and>
      calls ww' = [Ack (demo_delivery (JsonText message))] \<and>
      t_orders (ref_tabs (w_db (ww_world ww'))) (o_id x) = Some r \<and> o_status r = PROCESSED)"
proof -
  obtain x w' where run: "create demo_deps ''m1'' (demo_dto 5) None (demo_world []) = (Inr (x, False), w')"
    using demo_create by blast
  have rdy: "ready (w_rabbit (demo_world []))" "rb_calls (w_rabbit (demo_world [])) = []"
    by (simp_all add: ready_def demo_world_def)
  have hyps: "reliable_store (dep_db demo_deps) ref_tabs ref_tx (\<lambda>q. True)" by (simp add: ref.reliable_store_axioms)
  have "\<exists>message options. rb_calls (w_rabbit w') =
      rb_calls (w_rabbit (demo_world [])) @ [SendToQueue ''orders.process'' (JsonText message) options] \<and>
    (\<forall>m ww cfg clock. d_content m = JsonText message \<longrightarrow> w_db (ww_world ww) = w_db w' \<longrightarrow> wready ww \<longrightarrow>
      (\<exists>ww' r. worker_delivery demo_deps cfg clock (Some m) ww = (Inr (), ww') \<and> calls ww' = calls ww @ [Ack m] \<and>
        t_orders (ref_tabs (w_db (ww_world ww'))) (o_id x) = Some r \<and> o_status r = PROCESSED \<and>
        o_processedAt r = Some (now_processedAt (dc_process clock)) \<and> o_userId r = co_userId (demo_dto 5) \<and>
        (\<forall>clock2. \<exists>ww2. worker_delivery demo_deps cfg clock2 (Some m) ww' = (Inr (), ww2) \<and>
           calls ww2 = calls ww' @ [Ack m] \<and>
           ref_tabs (w_db (ww_world ww2)) = ref_tabs (w_db (ww_world ww')))))"
    by (rule order_pipeline [OF hyps demo_accepting _ _ rdy(1) _ run]) (simp_all add: demo_db_ok)
  then obtain message options where
    sent: "rb_calls (w_rabbit w') = [SendToQueue ''orders.process'' (JsonText message) options]"
    and each: "\<forall>m ww cfg clock. d_content m = JsonText message \<longrightarrow> w_db (ww_world ww) = w_db w' \<longrightarrow> wready ww \<longrightarrow>
      (\<exists>ww' r. worker_delivery demo_deps cfg clock (Some m) ww = (Inr (), ww') \<and> calls ww' = calls ww @ [Ack m] \<and>
        t_orders (ref_tabs (w_db (ww_world ww'))) (o_id x) = Some r \<and> o_status r = PROCESSED)"
    unfolding rdy(2) by (simp, meson)
  let ?ww = "\<lparr>ww_world = (demo_world [])\<lparr>w_db := w_db w'\<rparr>, ww_log = []\<rparr>"
  have "wready ?ww" "calls ?ww = []" using rdy by (simp_all add: wready_def calls_def)
  with each [rule_format, of "demo_delivery (JsonText message)" ?ww demo_config demo_dclock]
  have "\<exists>ww' r. worker_delivery demo_deps demo_config demo_dclock (Some (demo_delivery (JsonText message))) ?ww = (Inr (), ww') \<and>
      calls ww' = [Ack (demo_delivery (JsonText message))] \<and>
      t_orders (ref_tabs (w_db (ww_world ww'))) (o_id x) = Some r \<and> o_status r = PROCESSED" by simp
  with run sent show ?thesis by blast
qed

end
