(* ===== verification/MessageTypes.thy ===== *)
theory MessageTypes
  imports ScriptsProperties
begin

text \<open>
  The type of a message for the worker (\<^verbatim>\<open>src/orders/order-process-message.type.ts\<close>) as a
  predicate on JSON values, and every producer against it: the orders service, the worker's own
  retries and the publishing script.
\<close>

section \<open>The type\<close>

definition is_string :: "json option \<Rightarrow> bool" where
  "is_string v \<longleftrightarrow> (case v of Some (JStr s) \<Rightarrow> True | _ \<Rightarrow> False)"

definition is_count :: "json option \<Rightarrow> bool" where
  "is_count v \<longleftrightarrow> (case v of Some (JNum x) \<Rightarrow> isInteger x \<and> js_nonneg x | _ \<Rightarrow> False)"

definition order_process_message :: "json \<Rightarrow> bool" where
  "order_process_message v \<longleftrightarrow>
     is_string (property v ''messageId'') \<and> is_string (property v ''orderId'') \<and>
     is_string (property v ''createdAt'') \<and> is_count (property v ''attempt'') \<and>
     (property v ''correlationId'' = None \<or> is_string (property v ''correlationId'')) \<and>
     property v ''producer'' \<in> {None, Some (JStr ''orders-api'')} \<and>
     property v ''eventName'' \<in> {None, Some (JStr ''order.created'')}"

text \<open>A body is of the type when it is the text of a value of the type.\<close>

definition typed_body :: "content \<Rightarrow> bool" where
  "typed_body c \<longleftrightarrow> (\<exists>v. parse c = Some v \<and> order_process_message v)"

lemma is_string_JStr [simp]: "is_string (Some (JStr s))"
  by (simp add: is_string_def)

lemma is_string_written [simp]: "is_string (map_option json_written v) = is_string v"
  by (auto simp: is_string_def split: option.split json.split)

lemma is_count_written [simp]: "is_count (map_option json_written v) = is_count v"
  using isInteger_finite by (auto simp: is_count_def split: option.split json.split)

lemma written_text_iff [simp]: "(json_written v = JStr s) = (v = JStr s)"
  by (cases v) simp_all

lemma message_written [simp]: "order_process_message (json_written v) = order_process_message v"
proof -
  have "(map_option json_written w \<in> {None, Some (JStr s)}) = (w \<in> {None, Some (JStr s)})" for w s
    by (cases w) auto
  then show ?thesis unfolding order_process_message_def property_written by simp
qed

lemma typed_stringify [simp]: "typed_body (stringify v) = order_process_message v"
  by (simp add: typed_body_def)

section \<open>Producers\<close>

lemma order_message_typed: "order_process_message (order_message messageId x createdAt)"
  by (simp add: order_process_message_def order_message_def is_count_def)

lemma script_payload_typed:
  "isInteger (pr_attempt r) \<Longrightarrow> js_nonneg (pr_attempt r) \<Longrightarrow> order_process_message (script_payload r)"
  by (simp add: order_process_message_def script_payload_def is_count_def)

lemma retry_typed:
  assumes "order_process_message p" and "0 \<le> a"
  shows "order_process_message (retry_payload p a t e)"
proof -
  obtain ps where ps: "p = JObj ps"
    using assms(1) by (cases p) (simp_all add: order_process_message_def property_def is_string_def)
  have "is_count (Some (JNum (Fin (of_int (a + 1)))))" using assms(2) by (simp add: is_count_def)
  with assms(1) show ?thesis unfolding ps by (simp add: order_process_message_def retry_payload_def spread_def)
qed

text \<open>What \<open>create\<close> sends: at most its own message.\<close>

lemma publish_calls:
  assumes "publishOrderCreated amqp messageId x s = (v, s')"
  shows "rb_calls s' = rb_calls s \<or>
    (\<exists>t options. rb_calls s' = rb_calls s @ [SendToQueue ''orders.process'' (stringify (order_message messageId x t)) options])"
proof (cases "toISOString (o_createdAt x)")
  case (Inl e)
  with assms show ?thesis by (auto simp: publishOrderCreated_def async_simps)
next
  case (Inr t)
  define options where "options = \<lparr>po_messageId = Some (JStr messageId), po_correlationId = Some (JStr (o_id x)),
    po_timestamp = Some (o_createdAt x), po_expiration = None\<rparr>"
  let ?send = "publishToQueue amqp ''orders.process'' (order_message messageId x t) options"
  have calls: "rb_calls s' = rb_calls (snd (?send s))"
    using assms Inr
    by (auto simp: publishOrderCreated_def await_def async_simps options_def split: prod.splits sum.splits)
  show ?thesis
  proof (cases "ready s")
    case True
    then have "rb_calls s' = rb_calls s @ [SendToQueue ''orders.process'' (stringify (order_message messageId x t)) (sent options)]"
      unfolding calls by (simp add: publish_ready)
    then show ?thesis by blast
  next
    case False
    then show ?thesis unfolding calls by (simp add: publish_not_ready)
  qed
qed

lemma create_calls:
  assumes "create deps messageId dto ik w = (v, w')"
  shows "rb_calls (w_rabbit w') = rb_calls (w_rabbit w) \<or>
    (\<exists>x t options. rb_calls (w_rabbit w') = rb_calls (w_rabbit w) @
      [SendToQueue ''orders.process'' (stringify (order_message messageId x t)) options])"
proof -
  obtain u d where cs: "create_stored (dep_db deps) dto ik (w_db w) = (u, d)" by fastforce
  note run = create_run [OF cs, of messageId] assms
  show ?thesis
  proof (cases u)
    case (Inl e)
    with run show ?thesis by auto
  next
    case (Inr p)
    obtain x dup where p: "p = (x, dup)" by fastforce
    obtain q b where pub: "publishOrderCreated (dep_amqp deps) messageId x (w_rabbit w) = (q, b)" by fastforce
    with run Inr p have "w_rabbit w' = (if dup then w_rabbit w else b)" by (auto split: if_splits)
    with publish_calls [OF pub] show ?thesis by auto
  qed
qed

text \<open>What a delivery sends to the retry queue: its own message with the attempt counted up.\<close>

definition retries_of :: "json \<Rightarrow> int \<Rightarrow> amqp_call list \<Rightarrow> bool" where
  "retries_of payload a new \<longleftrightarrow>
     (\<forall>c options. SendToQueue retryQueue c options \<in> set new \<longrightarrow> (\<exists>t e. c = stringify (retry_payload payload a t e)))"

lemma forward_new:
  assumes "forward amqp q payload options l m ww = (v, ww')"
  obtains new where "calls ww' = calls ww @ new" "set new \<subseteq> {send q payload options, Ack m}"
proof -
  from forward_calls [OF assms] have "calls ww' \<in> {calls ww @ [], calls ww @ [send q payload options],
      calls ww @ [send q payload options, Ack m]}" by auto
  then show thesis using that by (auto simp del: append_Nil2)
qed

lemma failure_retries:
  assumes "handle_failure amqp cfg clock payload a m e ww = (v, ww')"
  shows "\<exists>new. calls ww' = calls ww @ new \<and> retries_of payload a new"
proof (cases "a < wc_maxAttempts cfg - 1")
  case True
  from handle_failure_retry [OF this, of amqp clock payload m e] obtain l where
    run: "handle_failure amqp cfg clock payload a m e ww =
      (case toISOString (dc_now clock + computeRetryDelayMs cfg (a + 1)) of
         Inl x \<Rightarrow> (Inl x, ww)
       | Inr retryAt \<Rightarrow> forward amqp retryQueue (retry_payload payload a retryAt e)
           (options_of payload (Some (string_of_int (computeRetryDelayMs cfg (a + 1))))) l m ww)" by blast
  show ?thesis
  proof (cases "toISOString (dc_now clock + computeRetryDelayMs cfg (a + 1))")
    case (Inl x)
    with assms run have "calls ww' = calls ww @ []" by simp
    then show ?thesis by (force simp: retries_of_def)
  next
    case (Inr t)
    with assms run have "forward amqp retryQueue (retry_payload payload a t e)
      (options_of payload (Some (string_of_int (computeRetryDelayMs cfg (a + 1))))) l m ww = (v, ww')" by simp
    then show ?thesis by (rule forward_new) (auto simp: retries_of_def send_def)
  qed
next
  case False
  then have "wc_maxAttempts cfg - 1 \<le> a" by simp
  from handle_failure_last [OF this, of amqp clock payload m e] obtain l where
    run: "handle_failure amqp cfg clock payload a m e ww =
      (case toISOString (dc_now clock) of
         Inl x \<Rightarrow> (Inl x, ww)
       | Inr t \<Rightarrow> forward amqp dlqQueue (final_payload payload a t e) (options_of payload None) l m ww)" by blast
  show ?thesis
  proof (cases "toISOString (dc_now clock)")
    case (Inl x)
    with assms run have "calls ww' = calls ww @ []" by simp
    then show ?thesis by (force simp: retries_of_def)
  next
    case (Inr t)
    with assms run have "forward amqp dlqQueue (final_payload payload a t e) (options_of payload None) l m ww = (v, ww')"
      by simp
    then show ?thesis
      by (rule forward_new) (auto simp: retries_of_def send_def retryQueue_def dlqQueue_def)
  qed
qed

lemma retries_append [simp]: "retries_of p a (xs @ ys) \<longleftrightarrow> retries_of p a xs \<and> retries_of p a ys"
  by (auto simp: retries_of_def)

lemma retries_other [simp]:
  "retries_of p a []" "retries_of p a (Ack m # xs) = retries_of p a xs"
  "retries_of p a (Nack m x y # xs) = retries_of p a xs"
  by (simp_all add: retries_of_def)

lemma handle_retries:
  assumes payload: "parse (d_content m) = Some payload" "payload \<noteq> JNull"
    and "handleMessage deps cfg clock m ww = (v, w2)" and a: "a = attempt_of (property payload ''attempt'')"
  shows "\<exists>new. calls w2 = calls ww @ new \<and> retries_of payload a new"
proof -
  obtain w l where proc:
    "\<And>e. processing deps clock payload a ww = Inl e \<Longrightarrow> handle_processing deps clock payload a m ww = (Inl e, w)"
    "\<And>x. processing deps clock payload a ww = Inr x \<Longrightarrow> handle_processing deps clock payload a m ww =
        (map_sum id (\<lambda>_. ()) (dep_amqp deps (calls ww @ [Ack m])), after (Ack m) (logged l w))"
    and same: "calls w = calls ww"
    using handle_processing_run [of deps clock payload a ww m] by metis
  note run = assms(3) [unfolded handle_value [OF payload] try_catch_def, folded a]
  show ?thesis
  proof (cases "processing deps clock payload a ww")
    case (Inl e)
    from proc(1) [OF this] run have "handle_failure (dep_amqp deps) cfg clock payload a m e w = (v, w2)" by simp
    from failure_retries [OF this] same show ?thesis by simp
  next
    case (Inr x)
    show ?thesis
    proof (cases "dep_amqp deps (calls ww @ [Ack m])")
      case (Inl e)
      with proc(2) [OF Inr] run have
        "handle_failure (dep_amqp deps) cfg clock payload a m e (after (Ack m) (logged l w)) = (v, w2)" by simp
      from failure_retries [OF this] same obtain new where
        "calls w2 = calls ww @ ([Ack m] @ new)" "retries_of payload a ([Ack m] @ new)" by auto
      then show ?thesis by blast
    next
      case (Inr b)
      with proc(2) [OF \<open>processing deps clock payload a ww = Inr x\<close>] run same
      have "calls w2 = calls ww @ [Ack m]" by auto
      then show ?thesis by fastforce
    qed
  qed
qed

lemma delivery_retries:
  assumes payload: "parse (d_content m) = Some payload" "payload \<noteq> JNull"
    and run: "worker_delivery deps cfg clock (Some m) ww = (v, ww')"
    and a: "a = attempt_of (property payload ''attempt'')"
  shows "\<exists>new. calls ww' = calls ww @ new \<and> retries_of payload a new"
proof -
  obtain u w2 where hm: "handleMessage deps cfg clock m ww = (u, w2)" by fastforce
  from handle_retries [OF payload hm a] obtain new where
    new: "calls w2 = calls ww @ new" "retries_of payload a new" by blast
  have "calls ww' \<in> {calls w2 @ [], calls w2 @ [Nack m False True]}"
  proof (cases u)
    case (Inl e)
    from thrown_calls [OF hm [unfolded Inl] run] show ?thesis by simp
  next
    case (Inr y)
    with delivery_resolved [OF hm [unfolded Inr]] run show ?thesis by simp
  qed
  with new obtain more where "calls ww' = calls ww @ (new @ more)" "retries_of payload a (new @ more)" by auto
  then show ?thesis by blast
qed

section \<open>What the queues hold\<close>

text \<open>
  The bodies that can be on the main and the retry queue: those the orders service and the script
  publish, and those a worker sends to the retry queue, which come back to the main queue.
\<close>

inductive on_queue :: "('d, 'ds, 'th) deps \<Rightarrow> content \<Rightarrow> bool" for deps where
  created: "create deps messageId dto ik w = (v, w') \<Longrightarrow>
    rb_calls (w_rabbit w') = rb_calls (w_rabbit w) @ new \<Longrightarrow> SendToQueue q c options \<in> set new \<Longrightarrow>
    on_queue deps c"
| scripted: "publish_main amqp url uuid now argv = (r, s) \<Longrightarrow> SendToQueue q c options \<in> set (rb_calls s) \<Longrightarrow>
    on_queue deps c"
| retried: "on_queue deps (d_content m) \<Longrightarrow> worker_delivery deps cfg clock (Some m) ww = (v, ww') \<Longrightarrow>
    calls ww' = calls ww @ new \<Longrightarrow> SendToQueue retryQueue c options \<in> set new \<Longrightarrow> on_queue deps c"

lemma publish_request_sends:
  assumes "publish_request amqp r rabbit_init = (v, s)" and "SendToQueue q c options \<in> set (rb_calls s)"
  shows "c = stringify (script_payload r)"
  using assms
  by (auto simp: publish_request_def await_def try_finally_def async_simps amqp_call_run rabbit_init_def
      called_def split: sum.splits prod.splits if_splits)

lemma script_sends_typed:
  assumes "publish_main amqp url uuid now argv = (e, s)" and "SendToQueue q c options \<in> set (rb_calls s)"
  shows "typed_body c"
proof (cases "publish_request_of url uuid now argv")
  case (Inl message)
  with assms show ?thesis by (auto simp: publish_main_def rabbit_init_def)
next
  case (Inr r)
  obtain v s' where run: "publish_request amqp r rabbit_init = (v, s')" by fastforce
  with assms(1) Inr have "s' = s" by (auto simp: publish_main_def split: sum.splits)
  with publish_request_sends [OF run] assms(2) have "c = stringify (script_payload r)" by simp
  with request_of_ok [OF Inr] show ?thesis by (simp add: script_payload_typed)
qed

section \<open>Property\<close>

text \<open>
  C22. Every body that can come to the worker, published by the orders service or by the script or
  sent back by the worker itself any number of times, and whatever the broker and the database
  answer, is the text of a value of the message type.
\<close>

theorem queue_messages_typed:
  assumes "on_queue deps c"
  shows "typed_body c"
  using assms
proof induction
  case (created messageId dto ik w v w' new q c options)
  from create_calls [OF created(1)] created(2,3) show ?case by (auto simp: order_message_typed)
next
  case (scripted amqp url uuid now argv e s q c options)
  then show ?case by (rule script_sends_typed)
next
  case (retried m cfg clock ww v ww' new c options)
  from retried.IH obtain p where p: "parse (d_content m) = Some p" "order_process_message p"
    by (auto simp: typed_body_def)
  have "p \<noteq> JNull" using p(2) by (auto simp: order_process_message_def property_def is_string_def)
  from delivery_retries [OF p(1) this retried.hyps(2) refl] retried.hyps(3,4)
  have "\<exists>t e. c = stringify (retry_payload p (attempt_of (property p ''attempt'')) t e)"
    by (auto simp: retries_of_def)
  with retry_typed [OF p(2) attempt_of_nonneg] show ?case by auto
qed

theorem queue_messages_typed_witness:
  "typed_body (stringify (script_payload (demo_request ''o9'')))"
proof -
  obtain s where s: "publish_main (\<lambda>cs. Inr True) None ''m0'' ''2026-01-01T00:00:00.000Z'' (demo_argv ''o9'') =
    (Published True (demo_request ''o9''), s)" "rb_calls s = script_calls (demo_request ''o9'')"
    using demo_published [of "''o9''"] by blast
  have "SendToQueue ''orders.process'' (stringify (script_payload (demo_request ''o9'')))
      (script_options (demo_request ''o9'')) \<in> set (rb_calls s)"
    by (simp add: s(2) script_calls_def stringify_def payload_written demo_request_def)
  from on_queue.scripted [OF s(1) this, of demo_deps] show ?thesis by (rule queue_messages_typed)
qed

end
