(* ===== verification/Seed.thy ===== *)
theory Seed
  imports Accounts Products JsFixed
begin

text \<open>
  The seed (\<^verbatim>\<open>src/seeds/seed.ts\<close>): its data, the stock keeping units it derives from names, and
  the script that upserts users, products, orders and items. The repositories are a record of
  operations with the locale \<open>seed_database\<close>; an upsert is one statement that inserts or updates
  row by row. The salt of the hashes and the language's general conversion of a number to a text
  are arguments.
\<close>

section \<open>Data\<close>

record user_seed =
  us_email :: string
  us_password :: string
  us_roles :: "string list"
  us_scopes :: "string list"

definition usersSeed :: "user_seed list" where
  "usersSeed =
     [\<lparr>us_email = ''alice@example.com'', us_password = ''password123'', us_roles = [''user''],
       us_scopes = [''orders:read'', ''orders:write'', ''files:write'']\<rparr>,
      \<lparr>us_email = ''bob@example.com'', us_password = ''password123'', us_roles = [''support''],
       us_scopes = [''orders:read'']\<rparr>,
      \<lparr>us_email = ''charlie@example.com'', us_password = ''password123'', us_roles = [''admin''],
       us_scopes = [''orders:read'', ''orders:write'', ''products:images:assign:any'']\<rparr>]"

definition productNames :: "string list" where
  "productNames =
     [''Coffee Mug'', ''Notebook'', ''Desk Lamp'', ''Mechanical Keyboard'', ''Wireless Mouse'',
      ''USB-C Cable'', ''Webcam'', ''Laptop Stand'', ''Monitor 24\"'', ''Monitor 27\"'',
      ''Headphones'', ''Microphone'', ''Backpack'', ''Water Bottle'', ''Sticker Pack'',
      ''T-Shirt'', ''Hoodie'', ''Pen Set'', ''Mouse Pad'', ''External SSD'',
      ''Power Bank'', ''Smart Plug'', ''Smart Bulb'', ''Router'', ''Keyboard Wrist Rest'']"

record item_seed =
  is_id :: string
  is_productName :: string
  is_quantity :: int

record order_seed =
  os_id :: string
  os_userEmail :: string
  os_items :: "item_seed list"

definition ordersSeed :: "order_seed list" where
  "ordersSeed =
     [\<lparr>os_id = ''11111111-1111-1111-1111-111111111111'', os_userEmail = ''alice@example.com'',
       os_items =
         [\<lparr>is_id = ''aaaaaaaa-aaaa-aaaa-aaaa-aaaaaaaaaaa1'', is_productName = ''Coffee Mug'',
           is_quantity = 1\<rparr>,
          \<lparr>is_id = ''aaaaaaaa-aaaa-aaaa-aaaa-aaaaaaaaaaa2'', is_productName = ''Mechanical Keyboard'',
           is_quantity = 1\<rparr>]\<rparr>,
      \<lparr>os_id = ''22222222-2222-2222-2222-222222222222'', os_userEmail = ''bob@example.com'',
       os_items =
         [\<lparr>is_id = ''bbbbbbbb-bbbb-bbbb-bbbb-bbbbbbbbbbb1'', is_productName = ''Notebook'',
           is_quantity = 2\<rparr>,
          \<lparr>is_id = ''bbbbbbbb-bbbb-bbbb-bbbb-bbbbbbbbbbb2'', is_productName = ''Wireless Mouse'',
           is_quantity = 1\<rparr>]\<rparr>]"

section \<open>Stock keeping units\<close>

definition upper_char :: "char \<Rightarrow> char" where
  "upper_char c = (let n = of_char c :: nat in if 97 \<le> n \<and> n \<le> 122 then char_of (n - 32) else c)"

definition sku_char :: "char \<Rightarrow> bool" where
  "sku_char c = (let n = of_char c :: nat in 48 \<le> n \<and> n \<le> 57 \<or> 65 \<le> n \<and> n \<le> 90)"

text \<open>\<open>replace(/[^A-Z0-9]+/g, '-')\<close>: every run of other characters becomes one dash.\<close>

function dash_runs :: "string \<Rightarrow> string" where
  "dash_runs [] = []"
| "dash_runs (c # cs) =
     (if sku_char c then c # dash_runs cs
      else CHR ''-'' # dash_runs (dropWhile (\<lambda>x. \<not> sku_char x) cs))"
  by pat_completeness auto

termination dash_runs
  by (relation "measure length") (auto simp: less_Suc_eq_le length_dropWhile_le)

text \<open>\<open>replace(/(^-|-$)/g, '')\<close>: a dash at either end goes.\<close>

definition strip_first :: "string \<Rightarrow> string" where
  "strip_first s = (case s of c # cs \<Rightarrow> if c = CHR ''-'' then cs else s | [] \<Rightarrow> [])"

definition strip_dashes :: "string \<Rightarrow> string" where
  "strip_dashes s = rev (strip_first (rev (strip_first s)))"

definition makeSku :: "string \<Rightarrow> nat \<Rightarrow> string" where
  "makeSku name index =
     ''SKU-'' @ pad 3 (index + 1) @ ''-'' @ strip_dashes (dash_runs (map upper_char name))"

definition product_of_name :: "(jsnum \<Rightarrow> string) \<Rightarrow> string \<Rightarrow> nat \<Rightarrow> new_product" where
  "product_of_name toString name index =
     (let basePrice = 5 + index * 3; lowStock = index mod 5 = 0 in
      \<lparr>np_name = name, np_sku = makeSku name index, np_description = None,
       np_price = js_Number (toFixed2 toString (js_add (Fin (of_nat basePrice)) (Fin (99 / 100)))),
       np_stock = Some (if lowStock then 2 else 20), np_isActive = Some True\<rparr>)"

definition productsSeed :: "(jsnum \<Rightarrow> string) \<Rightarrow> new_product list" where
  "productsSeed toString =
     map (\<lambda>(name, index). product_of_name toString name index)
       (zip productNames [0..<length productNames])"

section \<open>The repositories\<close>

record item_upsert =
  iu_id :: string
  iu_orderId :: string
  iu_productId :: string
  iu_quantity :: int
  iu_priceSnapshot :: jsnum

record 'd seed_store =
  sd_initialize :: "('d, unit) async"
  sd_upsertUsers :: "new_user list \<Rightarrow> ('d, unit) async"
  sd_upsertProducts :: "new_product list \<Rightarrow> ('d, unit) async"
  sd_usersByEmail :: "string list \<Rightarrow> ('d, user_row list) async"
  sd_productsByName :: "string list \<Rightarrow> ('d, product_row list) async"
  sd_upsertOrders :: "(string \<times> string) list \<Rightarrow> ('d, unit) async"
  sd_upsertItems :: "item_upsert list \<Rightarrow> ('d, unit) async"
  sd_destroy :: "('d, unit) async"

text \<open>The rows of one statement, one after the other.\<close>

fun each :: "('x \<Rightarrow> tables \<Rightarrow> tables \<Rightarrow> bool) \<Rightarrow> 'x list \<Rightarrow> tables \<Rightarrow> tables \<Rightarrow> bool" where
  "each R [] T T' \<longleftrightarrow> T' = T"
| "each R (x # xs) T T' \<longleftrightarrow> (\<exists>S. R x T S \<and> each R xs S T')"

definition user_upserted :: "new_user \<Rightarrow> tables \<Rightarrow> tables \<Rightarrow> bool" where
  "user_upserted n T T' \<longleftrightarrow>
     (\<exists>u. user_added n T u T') \<or>
     (\<exists>i u ts. t_users T i = Some u \<and> u_email u = nu_email n \<and>
        T' = T\<lparr>t_users := (t_users T)(i \<mapsto>
          u\<lparr>u_passwordHash := nullish (nu_passwordHash n) (u_passwordHash u),
            u_roles := some_or (nu_roles n) (u_roles u),
            u_scopes := some_or (nu_scopes n) (u_scopes u), u_updatedAt := ts\<rparr>)\<rparr>)"

text \<open>The price and the snapshot go through the column's two decimals, \<open>numeric2\<close>.\<close>

definition product_upserted :: "(jsnum \<Rightarrow> jsnum) \<Rightarrow> new_product \<Rightarrow> tables \<Rightarrow> tables \<Rightarrow> bool" where
  "product_upserted numeric2 n T T' \<longleftrightarrow>
     (\<exists>p. t_products T (p_id p) = None \<and> sku_free T (np_sku n) (p_id p) \<and>
        p_name p = np_name n \<and> p_sku p = np_sku n \<and> p_description p = np_description n \<and>
        p_price p = numeric2 (np_price n) \<and> p_stock p = some_or (np_stock n) 0 \<and>
        p_isActive p = some_or (np_isActive n) True \<and> p_imageFileId p = None \<and>
        T' = T\<lparr>t_products := (t_products T)(p_id p \<mapsto> p)\<rparr>) \<or>
     (\<exists>i p ts. t_products T i = Some p \<and> p_sku p = np_sku n \<and>
        T' = T\<lparr>t_products := (t_products T)(i \<mapsto>
          p\<lparr>p_name := np_name n, p_description := np_description n, p_price := numeric2 (np_price n),
            p_stock := some_or (np_stock n) (p_stock p),
            p_isActive := some_or (np_isActive n) (p_isActive p), p_updatedAt := ts\<rparr>)\<rparr>)"

definition order_upserted :: "string \<times> string \<Rightarrow> tables \<Rightarrow> tables \<Rightarrow> bool" where
  "order_upserted ou T T' \<longleftrightarrow>
     t_users T (snd ou) \<noteq> None \<and>
     (\<exists>r. o_id r = fst ou \<and> o_userId r = snd ou \<and>
        (case t_orders T (fst ou) of
           None \<Rightarrow> o_status r = PENDING \<and> o_idempotencyKey r = None \<and> o_processedAt r = None
         | Some q \<Rightarrow> \<exists>ts. r = q\<lparr>o_userId := snd ou, o_updatedAt := ts\<rparr>) \<and>
        T' = T\<lparr>t_orders := (t_orders T)(fst ou \<mapsto> r)\<rparr>)"

definition item_upserted :: "(jsnum \<Rightarrow> jsnum) \<Rightarrow> item_upsert \<Rightarrow> tables \<Rightarrow> tables \<Rightarrow> bool" where
  "item_upserted numeric2 x T T' \<longleftrightarrow>
     t_orders T (iu_orderId x) \<noteq> None \<and>
     (\<exists>created updated.
        T' = T\<lparr>t_items := (t_items T)(iu_id x \<mapsto>
          \<lparr>oi_id = iu_id x, oi_orderId = iu_orderId x, oi_productId = iu_productId x,
           oi_quantity = iu_quantity x, oi_priceSnapshot = numeric2 (iu_priceSnapshot x),
           oi_createdAt = created, oi_updatedAt = updated\<rparr>)\<rparr>)"

locale seed_database =
  fixes sd :: "'d seed_store" and tabs :: "'d \<Rightarrow> tables" and tx :: "'d \<Rightarrow> tables txn"
    and numeric2 :: "jsnum \<Rightarrow> jsnum"
  assumes initialize: "op_spec tabs tx ((=) Idle) (sd_initialize sd) (reads (\<lambda>T u. True))"
    and upsertUsers: "op_spec tabs tx ((=) Idle) (sd_upsertUsers sd ns) (\<lambda>T u. each user_upserted ns T)"
    and upsertProducts: "op_spec tabs tx ((=) Idle) (sd_upsertProducts sd ps)
      (\<lambda>T u. each (product_upserted numeric2) ps T)"
    and usersByEmail: "op_spec tabs tx ((=) Idle) (sd_usersByEmail sd es)
      (reads (\<lambda>T v. set v = hidden ` {u \<in> ran (t_users T). u_email u \<in> set es}))"
    and productsByName: "op_spec tabs tx ((=) Idle) (sd_productsByName sd names)
      (reads (\<lambda>T v. set v = {p \<in> ran (t_products T). p_name p \<in> set names}))"
    and upsertOrders: "op_spec tabs tx ((=) Idle) (sd_upsertOrders sd os) (\<lambda>T u. each order_upserted os T)"
    and upsertItems: "op_spec tabs tx ((=) Idle) (sd_upsertItems sd xs)
      (\<lambda>T u. each (item_upserted numeric2) xs T)"
    and destroy: "op_spec tabs tx ((=) Idle) (sd_destroy sd) (reads (\<lambda>T u. True))"
    and two_decimals: "c < 10 ^ 12 \<Longrightarrow> numeric2 (Fin (of_nat c / 100)) = Fin (of_nat c / 100)"

section \<open>The script\<close>

text \<open>
  The loop over the orders, with what it has collected: an order of an unknown user is left out,
  an unknown product throws.
\<close>

fun seed_items ::
  "(string \<rightharpoonup> product_row) \<Rightarrow> string \<Rightarrow> item_seed list \<Rightarrow> item_upsert list \<Rightarrow> exn + item_upsert list" where
  "seed_items productsByName oid [] acc = Inr acc"
| "seed_items productsByName oid (item # items) acc =
     (case productsByName (is_productName item) of
        None \<Rightarrow> Inl (JsError (''Missing product: '' @ is_productName item))
      | Some product \<Rightarrow>
          seed_items productsByName oid items
            (acc @ [\<lparr>iu_id = is_id item, iu_orderId = oid, iu_productId = p_id product,
                     iu_quantity = is_quantity item, iu_priceSnapshot = p_price product\<rparr>]))"

fun seed_orders ::
  "(string \<rightharpoonup> user_row) \<Rightarrow> (string \<rightharpoonup> product_row) \<Rightarrow> order_seed list \<Rightarrow>
   (string \<times> string) list \<times> item_upsert list \<Rightarrow> exn + (string \<times> string) list \<times> item_upsert list" where
  "seed_orders usersByEmail productsByName [] acc = Inr acc"
| "seed_orders usersByEmail productsByName (orderSeed # seeds) (orders, items) =
     (case usersByEmail (os_userEmail orderSeed) of
        None \<Rightarrow> seed_orders usersByEmail productsByName seeds (orders, items)
      | Some user \<Rightarrow>
          (case seed_items productsByName (os_id orderSeed) (os_items orderSeed) items of
             Inl e \<Rightarrow> Inl e
           | Inr items' \<Rightarrow>
               seed_orders usersByEmail productsByName seeds (orders @ [(os_id orderSeed, u_id user)], items')))"

definition hashed_user :: "bcrypt \<Rightarrow> (string \<Rightarrow> string) \<Rightarrow> user_seed \<Rightarrow> new_user" where
  "hashed_user bc salt user =
     \<lparr>nu_email = us_email user,
      nu_passwordHash = Some (bc_hash bc 10 (us_password user) (salt (us_email user))),
      nu_roles = Some (us_roles user), nu_scopes = Some (us_scopes user)\<rparr>"

definition seed_body :: "'d seed_store \<Rightarrow> bcrypt \<Rightarrow> (string \<Rightarrow> string) \<Rightarrow> (jsnum \<Rightarrow> string) \<Rightarrow> ('d, unit) async" where
  "seed_body sd bc salt toString =
     await (sd_upsertUsers sd (map (hashed_user bc salt) usersSeed)) (\<lambda>_.
     await (sd_upsertProducts sd (productsSeed toString)) (\<lambda>_.
     await (sd_usersByEmail sd (map us_email usersSeed)) (\<lambda>users.
     await (sd_productsByName sd productNames) (\<lambda>products.
       (let usersByEmail = map_of (rev (map (\<lambda>u. (u_email u, u)) users));
            productsByName = map_of (rev (map (\<lambda>p. (p_name p, p)) products)) in
        case seed_orders usersByEmail productsByName ordersSeed ([], []) of
          Inl e \<Rightarrow> throw e
        | Inr (orders, items) \<Rightarrow>
            await (if 0 < length orders then sd_upsertOrders sd orders else resolve ()) (\<lambda>_.
            if 0 < length items then sd_upsertItems sd items else resolve ()))))))"

definition seed ::
  "'d seed_store \<Rightarrow> bcrypt \<Rightarrow> (string \<Rightarrow> string) \<Rightarrow> (jsnum \<Rightarrow> string) \<Rightarrow> string option \<Rightarrow> ('d, unit) async" where
  "seed sd bc salt toString NODE_ENV =
     (if NODE_ENV = Some ''production'' then throw (JsError ''Seeding is disabled in production'')
      else await (sd_initialize sd) (\<lambda>_.
        try_finally (seed_body sd bc salt toString) (sd_destroy sd)))"

end
