(* ===== verification/SeedProperties.thy ===== *)
theory SeedProperties
  imports Seed ReferenceAccounts
begin

text \<open>
  What the seed leaves in the tables: rows upserted one after the other make what their keys say,
  and the script as a whole succeeds on a database that refuses only what breaks a foreign key.
\<close>

section \<open>Rows one after the other\<close>

lemma each_keeps:
  assumes "each R xs T T'" and "\<And>x S S'. x \<in> set xs \<Longrightarrow> R x S S' \<Longrightarrow> P S \<Longrightarrow> P S'" and "P T"
  shows "P T'"
  using assms
proof (induction xs arbitrary: T)
  case (Cons x xs)
  from Cons.prems(1) obtain S where S: "R x T S" "each R xs S T'" by auto
  from Cons.prems(2) [OF _ S(1) Cons.prems(3)] have "P S" by simp
  with Cons.IH [OF S(2)] Cons.prems(2) show ?case by (meson list.set_intros(2))
qed simp

text \<open>A row makes \<open>Q\<close>, and the other rows do not break it.\<close>

lemma each_makes:
  assumes "each R xs T T'" and "x \<in> set xs" and "I T"
    and inv: "\<And>y S S'. y \<in> set xs \<Longrightarrow> R y S S' \<Longrightarrow> I S \<Longrightarrow> I S'"
    and makes: "\<And>S S'. I S \<Longrightarrow> R x S S' \<Longrightarrow> Q S'"
    and keeps: "\<And>y S S'. y \<in> set xs \<Longrightarrow> y \<noteq> x \<Longrightarrow> I S \<Longrightarrow> R y S S' \<Longrightarrow> Q S \<Longrightarrow> Q S'"
  shows "Q T'"
proof -
  have later: "Q U'" if "each R ys U U'" "set ys \<subseteq> set xs" "I U" "Q U" for ys U U'
  proof -
    have "I U' \<and> Q U'"
      by (rule each_keeps [OF that(1), where P = "\<lambda>S. I S \<and> Q S"]) (use inv makes keeps that in blast)+
    then show ?thesis by simp
  qed
  have "Q U'" if "each R ys U U'" "set ys \<subseteq> set xs" "I U" "x \<in> set ys" for ys U U'
    using that
  proof (induction ys arbitrary: U)
    case (Cons y ys)
    from Cons.prems(1) obtain S where S: "R y U S" "each R ys S U'" by auto
    from inv S(1) Cons.prems(2,3) have I: "I S" by (meson list.set_intros(1) subsetD)
    show ?case
    proof (cases "y = x")
      case True
      with makes S(1) Cons.prems(3) later [OF S(2) _ I] Cons.prems(2) show ?thesis by auto
    next
      case False
      with Cons.IH [OF S(2) _ I] Cons.prems(2,4) show ?thesis by auto
    qed
  qed simp
  from this [OF assms(1) subset_refl assms(3,2)] show ?thesis .
qed

section \<open>Rows with a unique key\<close>

definition keyed :: "('r \<Rightarrow> string) \<Rightarrow> ('r \<Rightarrow> string) \<Rightarrow> (string \<rightharpoonup> 'r) \<Rightarrow> bool" where
  "keyed idf key t \<longleftrightarrow>
     (\<forall>i r. t i = Some r \<longrightarrow> idf r = i \<and> (\<forall>j q. t j = Some q \<longrightarrow> key q = key r \<longrightarrow> j = i))"

text \<open>A row put under an identifier, new with its key or in the place of the row with its key.\<close>

definition puts :: "('r \<Rightarrow> string) \<Rightarrow> ('r \<Rightarrow> string) \<Rightarrow> 'r \<Rightarrow> (string \<rightharpoonup> 'r) \<Rightarrow> (string \<rightharpoonup> 'r) \<Rightarrow> bool" where
  "puts idf key r t t' \<longleftrightarrow> t' = t(idf r \<mapsto> r) \<and>
     (t (idf r) = None \<and> (\<forall>j q. t j = Some q \<longrightarrow> key q \<noteq> key r) \<or>
      (\<exists>q. t (idf r) = Some q \<and> key q = key r))"

lemma puts_keyed: "keyed idf key t \<Longrightarrow> puts idf key r t t' \<Longrightarrow> keyed idf key t'"
  by (auto simp: keyed_def puts_def split: if_splits) metis+

lemma puts_here: "puts idf key r t t' \<Longrightarrow> t' (idf r) = Some r"
  by (simp add: puts_def)

lemma puts_other: "puts idf key r t t' \<Longrightarrow> t j = Some q \<Longrightarrow> key q \<noteq> key r \<Longrightarrow> t' j = Some q"
  by (auto simp: puts_def)

section \<open>The rows of each statement\<close>

abbreviation users_keyed :: "tables \<Rightarrow> bool" where
  "users_keyed T \<equiv> keyed u_id u_email (t_users T)"

abbreviation products_keyed :: "tables \<Rightarrow> bool" where
  "products_keyed T \<equiv> keyed p_id p_sku (t_products T)"

definition is_user :: "new_user \<Rightarrow> user_row \<Rightarrow> bool" where
  "is_user n u \<longleftrightarrow> u_email u = nu_email n \<and> u_passwordHash u = nu_passwordHash n \<and>
     Some (u_roles u) = nu_roles n \<and> Some (u_scopes u) = nu_scopes n"

definition is_product :: "new_product \<Rightarrow> product_row \<Rightarrow> bool" where
  "is_product n p \<longleftrightarrow> p_sku p = np_sku n \<and> p_name p = np_name n \<and> p_price p = np_price n \<and>
     Some (p_stock p) = np_stock n \<and> Some (p_isActive p) = np_isActive n"

text \<open>A user, or a product, given in full.\<close>

definition full_user :: "new_user \<Rightarrow> bool" where
  "full_user n \<longleftrightarrow> nu_passwordHash n \<noteq> None \<and> nu_roles n \<noteq> None \<and> nu_scopes n \<noteq> None"

definition full_product :: "(jsnum \<Rightarrow> jsnum) \<Rightarrow> new_product \<Rightarrow> bool" where
  "full_product numeric2 n \<longleftrightarrow>
     np_stock n \<noteq> None \<and> np_isActive n \<noteq> None \<and> numeric2 (np_price n) = np_price n"

lemma user_upserted_puts:
  assumes "user_upserted n T T'" and "users_keyed T"
  shows "\<exists>u. puts u_id u_email u (t_users T) (t_users T') \<and> u_email u = nu_email n \<and>
    (full_user n \<longrightarrow> is_user n u)"
  using assms(1) unfolding user_upserted_def
proof (elim disjE exE conjE)
  fix u
  assume "user_added n T u T'"
  then show ?thesis
    by (intro exI [of _ u]) (auto simp: user_added_def email_free_def puts_def is_user_def full_user_def)
next
  fix i u ts
  assume u: "t_users T i = Some u" "u_email u = nu_email n"
    and T': "T' = T\<lparr>t_users := (t_users T)(i \<mapsto>
          u\<lparr>u_passwordHash := nullish (nu_passwordHash n) (u_passwordHash u),
            u_roles := some_or (nu_roles n) (u_roles u),
            u_scopes := some_or (nu_scopes n) (u_scopes u), u_updatedAt := ts\<rparr>)\<rparr>"
  from u(1) assms(2) have "u_id u = i" by (simp add: keyed_def)
  with u T' show ?thesis
    by (intro exI [of _ "u\<lparr>u_passwordHash := nullish (nu_passwordHash n) (u_passwordHash u),
            u_roles := some_or (nu_roles n) (u_roles u),
            u_scopes := some_or (nu_scopes n) (u_scopes u), u_updatedAt := ts\<rparr>"])
      (auto simp: puts_def is_user_def full_user_def)
qed

lemma product_upserted_puts:
  assumes "product_upserted numeric2 n T T'" and "products_keyed T"
  shows "\<exists>p. puts p_id p_sku p (t_products T) (t_products T') \<and> p_sku p = np_sku n \<and>
    (full_product numeric2 n \<longrightarrow> is_product n p)"
  using assms(1) unfolding product_upserted_def
proof (elim disjE exE conjE)
  fix p
  assume "t_products T (p_id p) = None" "sku_free T (np_sku n) (p_id p)"
    "p_name p = np_name n" "p_sku p = np_sku n" "p_price p = numeric2 (np_price n)"
    "p_stock p = some_or (np_stock n) 0" "p_isActive p = some_or (np_isActive n) True"
    "T' = T\<lparr>t_products := (t_products T)(p_id p \<mapsto> p)\<rparr>"
  then show ?thesis
    by (intro exI [of _ p]) (auto simp: sku_free_def puts_def is_product_def full_product_def)
next
  fix i p ts
  assume p: "t_products T i = Some p" "p_sku p = np_sku n"
    and T': "T' = T\<lparr>t_products := (t_products T)(i \<mapsto>
          p\<lparr>p_name := np_name n, p_description := np_description n, p_price := numeric2 (np_price n),
            p_stock := some_or (np_stock n) (p_stock p),
            p_isActive := some_or (np_isActive n) (p_isActive p), p_updatedAt := ts\<rparr>)\<rparr>"
  from p(1) assms(2) have "p_id p = i" by (simp add: keyed_def)
  with p T' show ?thesis
    by (intro exI [of _ "p\<lparr>p_name := np_name n, p_description := np_description n,
            p_price := numeric2 (np_price n), p_stock := some_or (np_stock n) (p_stock p),
            p_isActive := some_or (np_isActive n) (p_isActive p), p_updatedAt := ts\<rparr>"])
      (auto simp: puts_def is_product_def full_product_def)
qed

lemma user_upserted_keyed:
  assumes "user_upserted n T T'" and "users_keyed T"
  shows "users_keyed T'"
proof -
  from user_upserted_puts [OF assms] obtain u where "puts u_id u_email u (t_users T) (t_users T')" by blast
  from puts_keyed [OF assms(2) this] show ?thesis .
qed

lemma product_upserted_keyed:
  assumes "product_upserted numeric2 n T T'" and "products_keyed T"
  shows "products_keyed T'"
proof -
  from product_upserted_puts [OF assms] obtain p where "puts p_id p_sku p (t_products T) (t_products T')" by blast
  from puts_keyed [OF assms(2) this] show ?thesis .
qed

lemma user_upserted_only: "user_upserted n T T' \<Longrightarrow> T' = T\<lparr>t_users := t_users T'\<rparr>"
  by (auto simp: user_upserted_def user_added_def)

lemma product_upserted_only: "product_upserted numeric2 n T T' \<Longrightarrow> T' = T\<lparr>t_products := t_products T'\<rparr>"
  by (auto simp: product_upserted_def)

text \<open>Users: every row of the statement is there afterwards, and users of other emails are as before.\<close>

lemma users_upserted:
  assumes run: "each user_upserted ns T T'" and keyed: "users_keyed T" and n: "n \<in> set ns"
    and full: "full_user n" and inj: "inj_on nu_email (set ns)"
  shows "\<exists>i u. t_users T' i = Some u \<and> is_user n u"
proof (rule each_makes [OF run n, where I = users_keyed and Q = "\<lambda>S. \<exists>i u. t_users S i = Some u \<and> is_user n u"])
  show "users_keyed S'" if "user_upserted y S S'" "users_keyed S" for y S S'
    using that by (rule user_upserted_keyed)
  show "\<exists>i u. t_users S' i = Some u \<and> is_user n u" if k: "users_keyed S" and r: "user_upserted n S S'" for S S'
  proof -
    obtain u where u: "puts u_id u_email u (t_users S) (t_users S')" "is_user n u"
      using user_upserted_puts [OF r k] full by blast
    from puts_here [OF u(1)] u(2) show ?thesis by (intro exI conjI)
  qed
  show "\<exists>i u. t_users S' i = Some u \<and> is_user n u"
    if y: "y \<in> set ns" "y \<noteq> n" and S: "users_keyed S" "user_upserted y S S'"
      and there: "\<exists>i u. t_users S i = Some u \<and> is_user n u" for y S S'
  proof -
    from there obtain j v where v: "t_users S j = Some v" "is_user n v" by blast
    have "nu_email y \<noteq> nu_email n" using inj n y by (auto simp: inj_on_def)
    obtain u where u: "puts u_id u_email u (t_users S) (t_users S')" "u_email u = nu_email y"
      using user_upserted_puts [OF S(2,1)] by blast
    have "u_email v \<noteq> u_email u" using v(2) u(2) \<open>nu_email y \<noteq> nu_email n\<close> by (simp add: is_user_def)
    from puts_other [OF u(1) v(1) this] have "t_users S' j = Some v" .
    with v(2) show ?thesis by blast
  qed
qed (fact keyed)

lemma users_upserted_keyed: "each user_upserted ns T T' \<Longrightarrow> users_keyed T \<Longrightarrow> users_keyed T'"
  by (erule each_keeps [where P = users_keyed]) (erule (1) user_upserted_keyed)

lemma users_upserted_frame:
  assumes "each user_upserted ns T T'" and "users_keyed T"
  shows "T' = T\<lparr>t_users := t_users T'\<rparr> \<and>
    (\<forall>i u. t_users T i = Some u \<longrightarrow> u_email u \<notin> nu_email ` set ns \<longrightarrow> t_users T' i = Some u)"
proof -
  let ?P = "\<lambda>S. users_keyed S \<and> S = T\<lparr>t_users := t_users S\<rparr> \<and>
    (\<forall>i u. t_users T i = Some u \<longrightarrow> u_email u \<notin> nu_email ` set ns \<longrightarrow> t_users S i = Some u)"
  have "?P T'"
  proof (rule each_keeps [OF assms(1), where P = ?P])
    fix n S S'
    assume n: "n \<in> set ns" and S: "user_upserted n S S'" "?P S"
    obtain u where u: "puts u_id u_email u (t_users S) (t_users S')"
      "u_email u = nu_email n" using user_upserted_puts [OF S(1) conjunct1 [OF S(2)]] by blast
    note only = user_upserted_only [OF S(1)] and before = conjunct2 [OF S(2)]
    have "users_keyed S'" by (rule puts_keyed [OF conjunct1 [OF S(2)] u(1)])
    moreover have "S' = T\<lparr>t_users := t_users S'\<rparr>"
      by (subst only, subst conjunct1 [OF before]) simp
    moreover have "t_users S' i = Some v" if "t_users T i = Some v" "u_email v \<notin> nu_email ` set ns" for i v
    proof -
      from conjunct2 [OF before] that have "t_users S i = Some v" by blast
      moreover have "u_email v \<noteq> u_email u" using that(2) n u(2) by auto
      ultimately show ?thesis using puts_other [OF u(1)] by blast
    qed
    ultimately show "?P S'" by (intro conjI allI impI)
  qed (use assms(2) in simp)
  then show ?thesis by blast
qed

lemma products_upserted:
  assumes run: "each (product_upserted numeric2) ns T T'" and keyed: "products_keyed T" and n: "n \<in> set ns"
    and full: "full_product numeric2 n" and inj: "inj_on np_sku (set ns)"
  shows "\<exists>i p. t_products T' i = Some p \<and> is_product n p"
proof (rule each_makes [OF run n, where I = products_keyed
      and Q = "\<lambda>S. \<exists>i p. t_products S i = Some p \<and> is_product n p"])
  show "products_keyed S'" if "product_upserted numeric2 y S S'" "products_keyed S" for y S S'
    using that by (rule product_upserted_keyed)
  show "\<exists>i p. t_products S' i = Some p \<and> is_product n p"
    if k: "products_keyed S" and r: "product_upserted numeric2 n S S'" for S S'
  proof -
    obtain p where p: "puts p_id p_sku p (t_products S) (t_products S')" "is_product n p"
      using product_upserted_puts [OF r k] full by blast
    from puts_here [OF p(1)] p(2) show ?thesis by (intro exI conjI)
  qed
  show "\<exists>i p. t_products S' i = Some p \<and> is_product n p"
    if y: "y \<in> set ns" "y \<noteq> n" and S: "products_keyed S" "product_upserted numeric2 y S S'"
      and there: "\<exists>i p. t_products S i = Some p \<and> is_product n p" for y S S'
  proof -
    from there obtain j v where v: "t_products S j = Some v" "is_product n v" by blast
    have "np_sku y \<noteq> np_sku n" using inj n y by (auto simp: inj_on_def)
    obtain p where p: "puts p_id p_sku p (t_products S) (t_products S')" "p_sku p = np_sku y"
      using product_upserted_puts [OF S(2,1)] by blast
    have "p_sku v \<noteq> p_sku p" using v(2) p(2) \<open>np_sku y \<noteq> np_sku n\<close> by (simp add: is_product_def)
    from puts_other [OF p(1) v(1) this] have "t_products S' j = Some v" .
    with v(2) show ?thesis by blast
  qed
qed (fact keyed)

lemma products_upserted_frame:
  assumes "each (product_upserted numeric2) ns T T'" and "products_keyed T"
  shows "products_keyed T' \<and> T' = T\<lparr>t_products := t_products T'\<rparr> \<and>
    (\<forall>i p. t_products T i = Some p \<longrightarrow> p_sku p \<notin> np_sku ` set ns \<longrightarrow> t_products T' i = Some p)"
proof -
  let ?P = "\<lambda>S. products_keyed S \<and> S = T\<lparr>t_products := t_products S\<rparr> \<and>
    (\<forall>i p. t_products T i = Some p \<longrightarrow> p_sku p \<notin> np_sku ` set ns \<longrightarrow> t_products S i = Some p)"
  show ?thesis
  proof (rule each_keeps [OF assms(1), where P = ?P])
    fix n S S'
    assume n: "n \<in> set ns" and S: "product_upserted numeric2 n S S'" "?P S"
    obtain p where p: "puts p_id p_sku p (t_products S) (t_products S')"
      "p_sku p = np_sku n" using product_upserted_puts [OF S(1) conjunct1 [OF S(2)]] by blast
    note only = product_upserted_only [OF S(1)] and before = conjunct2 [OF S(2)]
    have "products_keyed S'" by (rule puts_keyed [OF conjunct1 [OF S(2)] p(1)])
    moreover have "S' = T\<lparr>t_products := t_products S'\<rparr>"
      by (subst only, subst conjunct1 [OF before]) simp
    moreover have "t_products S' i = Some v"
      if "t_products T i = Some v" "p_sku v \<notin> np_sku ` set ns" for i v
    proof -
      from conjunct2 [OF before] that have "t_products S i = Some v" by blast
      moreover have "p_sku v \<noteq> p_sku p" using that(2) n p(2) by auto
      ultimately show ?thesis using puts_other [OF p(1)] by blast
    qed
    ultimately show "?P S'" by (intro conjI allI impI)
  qed (use assms(2) in simp)
qed

text \<open>Orders and items, by their identifiers.\<close>

lemma orders_upserted:
  assumes run: "each order_upserted xs T T'" and x: "x \<in> set xs" and inj: "inj_on fst (set xs)"
  shows "\<exists>r. t_orders T' (fst x) = Some r \<and> o_userId r = snd x"
proof (rule each_makes [OF run x, where I = "\<lambda>S. True"
      and Q = "\<lambda>S. \<exists>r. t_orders S (fst x) = Some r \<and> o_userId r = snd x"])
  show "\<exists>r. t_orders S' (fst x) = Some r \<and> o_userId r = snd x" if "order_upserted x S S'" for S S'
    using that by (auto simp: order_upserted_def)
  show "\<exists>r. t_orders S' (fst x) = Some r \<and> o_userId r = snd x"
    if y: "y \<in> set xs" "y \<noteq> x" and S: "order_upserted y S S'"
      and there: "\<exists>r. t_orders S (fst x) = Some r \<and> o_userId r = snd x" for y S S'
  proof -
    have "fst y \<noteq> fst x" using inj x y by (auto simp: inj_on_def)
    with S there show ?thesis by (auto simp: order_upserted_def)
  qed
qed simp_all

lemma orders_upserted_frame:
  assumes "each order_upserted xs T T'"
  shows "T' = T\<lparr>t_orders := t_orders T'\<rparr> \<and> (\<forall>i. i \<notin> fst ` set xs \<longrightarrow> t_orders T' i = t_orders T i)"
proof (rule each_keeps [OF assms, where P = "\<lambda>S. S = T\<lparr>t_orders := t_orders S\<rparr> \<and>
    (\<forall>i. i \<notin> fst ` set xs \<longrightarrow> t_orders S i = t_orders T i)"])
  fix x S S'
  assume x: "x \<in> set xs" and S': "order_upserted x S S'"
    and S: "S = T\<lparr>t_orders := t_orders S\<rparr> \<and> (\<forall>i. i \<notin> fst ` set xs \<longrightarrow> t_orders S i = t_orders T i)"
  obtain r where r: "S' = S\<lparr>t_orders := (t_orders S)(fst x \<mapsto> r)\<rparr>" using S' by (auto simp: order_upserted_def)
  have "S' = T\<lparr>t_orders := t_orders S'\<rparr>" by (subst r, subst conjunct1 [OF S]) (simp add: r)
  with r x conjunct2 [OF S] show "S' = T\<lparr>t_orders := t_orders S'\<rparr> \<and>
      (\<forall>i. i \<notin> fst ` set xs \<longrightarrow> t_orders S' i = t_orders T i)" by auto
qed simp

definition is_item :: "(jsnum \<Rightarrow> jsnum) \<Rightarrow> item_upsert \<Rightarrow> order_item \<Rightarrow> bool" where
  "is_item numeric2 x it \<longleftrightarrow> oi_orderId it = iu_orderId x \<and> oi_productId it = iu_productId x \<and>
     oi_quantity it = iu_quantity x \<and> oi_priceSnapshot it = numeric2 (iu_priceSnapshot x)"

lemma items_upserted:
  assumes run: "each (item_upserted numeric2) xs T T'" and x: "x \<in> set xs" and inj: "inj_on iu_id (set xs)"
  shows "\<exists>it. t_items T' (iu_id x) = Some it \<and> is_item numeric2 x it"
proof (rule each_makes [OF run x, where I = "\<lambda>S. True"
      and Q = "\<lambda>S. \<exists>it. t_items S (iu_id x) = Some it \<and> is_item numeric2 x it"])
  show "\<exists>it. t_items S' (iu_id x) = Some it \<and> is_item numeric2 x it" if "item_upserted numeric2 x S S'" for S S'
    using that by (auto simp: item_upserted_def is_item_def)
  show "\<exists>it. t_items S' (iu_id x) = Some it \<and> is_item numeric2 x it"
    if y: "y \<in> set xs" "y \<noteq> x" and S: "item_upserted numeric2 y S S'"
      and there: "\<exists>it. t_items S (iu_id x) = Some it \<and> is_item numeric2 x it" for y S S'
  proof -
    have "iu_id y \<noteq> iu_id x" using inj x y by (auto simp: inj_on_def)
    with S there show ?thesis by (auto simp: item_upserted_def)
  qed
qed simp_all

lemma items_upserted_frame:
  assumes "each (item_upserted numeric2) xs T T'"
  shows "T' = T\<lparr>t_items := t_items T'\<rparr> \<and> (\<forall>i. i \<notin> iu_id ` set xs \<longrightarrow> t_items T' i = t_items T i)"
proof (rule each_keeps [OF assms, where P = "\<lambda>S. S = T\<lparr>t_items := t_items S\<rparr> \<and>
    (\<forall>i. i \<notin> iu_id ` set xs \<longrightarrow> t_items S i = t_items T i)"])
  fix x S S'
  assume x: "x \<in> set xs" and S': "item_upserted numeric2 x S S'"
    and S: "S = T\<lparr>t_items := t_items S\<rparr> \<and> (\<forall>i. i \<notin> iu_id ` set xs \<longrightarrow> t_items S i = t_items T i)"
  obtain r where r: "S' = S\<lparr>t_items := (t_items S)(iu_id x \<mapsto> r)\<rparr>" using S' by (auto simp: item_upserted_def)
  have "S' = T\<lparr>t_items := t_items S'\<rparr>" by (subst r, subst conjunct1 [OF S]) (simp add: r)
  with r x conjunct2 [OF S] show "S' = T\<lparr>t_items := t_items S'\<rparr> \<and>
      (\<forall>i. i \<notin> iu_id ` set xs \<longrightarrow> t_items S' i = t_items T i)" by auto
qed simp

section \<open>The loop over the orders\<close>

definition item_row :: "(string \<rightharpoonup> product_row) \<Rightarrow> string \<Rightarrow> item_seed \<Rightarrow> item_upsert" where
  "item_row P oid item =
     (let product = the (P (is_productName item)) in
      \<lparr>iu_id = is_id item, iu_orderId = oid, iu_productId = p_id product,
       iu_quantity = is_quantity item, iu_priceSnapshot = p_price product\<rparr>)"

definition order_pair :: "(string \<rightharpoonup> user_row) \<Rightarrow> order_seed \<Rightarrow> string \<times> string" where
  "order_pair U o' = (os_id o', u_id (the (U (os_userEmail o'))))"

lemma seed_items_all:
  "\<forall>item \<in> set items. P (is_productName item) \<noteq> None \<Longrightarrow>
   seed_items P oid items acc = Inr (acc @ map (item_row P oid) items)"
  by (induction items arbitrary: acc) (auto simp: item_row_def Let_def)

lemma seed_orders_all:
  "\<forall>o' \<in> set seeds. U (os_userEmail o') \<noteq> None \<and> (\<forall>item \<in> set (os_items o'). P (is_productName item) \<noteq> None) \<Longrightarrow>
   seed_orders U P seeds (orders, items) =
     Inr (orders @ map (order_pair U) seeds, items @ concat (map (\<lambda>o'. map (item_row P (os_id o')) (os_items o')) seeds))"
  by (induction seeds arbitrary: orders items) (auto simp: seed_items_all order_pair_def)

lemma last_entry_Some:
  assumes "map_of (rev (map (\<lambda>x. (key x, x)) xs)) k = Some x"
  shows "x \<in> set xs \<and> key x = k"
  using map_of_SomeD [OF assms] by auto

lemma last_entry_None: "map_of (rev (map (\<lambda>x. (key x, x)) xs)) k = None \<longleftrightarrow> k \<notin> key ` set xs"
  by (simp add: map_of_eq_None_iff image_image)

section \<open>The seed's own data\<close>

lemma seed_emails: "distinct (map us_email usersSeed)"
  by (simp add: usersSeed_def)

lemma seed_order_ids: "distinct (map os_id ordersSeed)"
  by (simp add: ordersSeed_def)

lemma seed_item_ids: "distinct (concat (map (\<lambda>o'. map is_id (os_items o')) ordersSeed))"
  by (simp add: ordersSeed_def)

lemma seed_known_users: "os_userEmail ` set ordersSeed \<subseteq> us_email ` set usersSeed"
  by (simp add: ordersSeed_def usersSeed_def)

lemma seed_known_products:
  "o' \<in> set ordersSeed \<Longrightarrow> item \<in> set (os_items o') \<Longrightarrow> is_productName item \<in> set productNames"
  by (auto simp: ordersSeed_def productNames_def)

lemma seed_names: "length productNames = 25"
  by (simp add: productNames_def)

lemma padded: "distinct (map (\<lambda>i. pad 3 (i + 1)) [0..<25])" "\<forall>i \<in> set [0..<25]. length (pad 3 (i + 1)) = 3"
  by code_simp+

lemma makeSku_inject:
  assumes "i < 25" and "j < 25" and "makeSku n i = makeSku m j"
  shows "i = j"
proof -
  have l: "length (pad 3 (i + 1)) = 3" "length (pad 3 (j + 1)) = 3" using padded(2) assms(1,2) by simp_all
  with assms(3) have "pad 3 (i + 1) = pad 3 (j + 1)" by (simp add: makeSku_def)
  moreover have "inj_on (\<lambda>i. pad 3 (i + 1)) (set [0..<25])" using padded(1) unfolding distinct_map by blast
  ultimately show ?thesis using assms(1,2) unfolding inj_on_def by (metis atLeast0LessThan lessThan_iff set_upt)
qed

lemma productsSeed_nth:
  "length (productsSeed ts) = 25"
  "i < 25 \<Longrightarrow> productsSeed ts ! i = product_of_name ts (productNames ! i) i"
  by (simp_all add: productsSeed_def seed_names)

lemma productsSeed_skus: "inj_on np_sku (set (productsSeed ts))"
proof (rule inj_onI)
  fix x y
  assume "x \<in> set (productsSeed ts)" "y \<in> set (productsSeed ts)" and sku: "np_sku x = np_sku y"
  then obtain i j where ij: "i < 25" "j < 25" "x = product_of_name ts (productNames ! i) i"
    "y = product_of_name ts (productNames ! j) j"
    by (metis in_set_conv_nth productsSeed_nth)
  with sku have "i = j" by (intro makeSku_inject) (simp_all add: product_of_name_def Let_def)
  with ij show "x = y" by simp
qed

lemma productsSeed_distinct: "distinct (map np_sku (productsSeed ts))"
proof -
  have "np_sku (productsSeed ts ! i) \<noteq> np_sku (productsSeed ts ! j)" if "i < 25" "j < 25" "i \<noteq> j" for i j
    using that makeSku_inject by (fastforce simp: productsSeed_nth product_of_name_def Let_def)
  then show ?thesis by (simp add: distinct_conv_nth productsSeed_nth(1))
qed

lemma productsSeed_price:
  assumes "n \<in> set (productsSeed ts)"
  obtains c where "c < 10 ^ 12" "np_price n = Fin (of_nat c / 100)"
proof -
  from assms obtain i where i: "i < 25" "n = product_of_name ts (productNames ! i) i"
    by (metis in_set_conv_nth productsSeed_nth)
  let ?c = "100 * (5 + i * 3) + 99"
  have sum: "js_add (Fin (of_nat (5 + i * 3))) (Fin (99 / 100)) = Fin (of_nat ?c / 100)"
    by (simp add: field_simps)
  have price: "np_price n = js_Number (toFixed2 ts (js_add (Fin (of_nat (5 + i * 3))) (Fin (99 / 100))))"
    by (simp only: i(2) product_of_name_def Let_def new_product.simps)
  have "?c < 10 ^ 23" "?c < 10 ^ 12" using i(1) by simp_all
  then show thesis using toFixed2_cents [of ?c ts] price unfolding sum by (intro that [of ?c]) simp_all
qed

lemma productsSeed_names: "np_name ` set (productsSeed ts) = set productNames"
proof -
  have "map np_name (productsSeed ts) = productNames"
    by (rule nth_equalityI) (simp_all add: productsSeed_nth seed_names product_of_name_def Let_def)
  then show ?thesis by (metis list.set_map)
qed

lemma makeSku_quote: "makeSku ''Monitor 24\"'' 8 = ''SKU-009-MONITOR-24''"
  by code_simp

section \<open>The script\<close>

text \<open>A database on which the seed's statements fail only on a key given twice or a missing row.\<close>

locale reliable_seed = seed_database +
  assumes works_initialize: "tx s = Idle \<Longrightarrow> works (sd_initialize sd) s"
    and works_destroy: "tx s = Idle \<Longrightarrow> works (sd_destroy sd) s"
    and works_upsertUsers: "tx s = Idle \<Longrightarrow> distinct (map nu_email ns) \<Longrightarrow> works (sd_upsertUsers sd ns) s"
    and works_upsertProducts: "tx s = Idle \<Longrightarrow> distinct (map np_sku ps) \<Longrightarrow> works (sd_upsertProducts sd ps) s"
    and works_usersByEmail: "tx s = Idle \<Longrightarrow> works (sd_usersByEmail sd es) s"
    and works_productsByName: "tx s = Idle \<Longrightarrow> works (sd_productsByName sd names) s"
    and works_upsertOrders: "tx s = Idle \<Longrightarrow> distinct (map fst os) \<Longrightarrow>
      \<forall>ou \<in> set os. t_users (tabs s) (snd ou) \<noteq> None \<Longrightarrow> works (sd_upsertOrders sd os) s"
    and works_upsertItems: "tx s = Idle \<Longrightarrow> distinct (map iu_id xs) \<Longrightarrow>
      \<forall>x \<in> set xs. t_orders (tabs s) (iu_orderId x) \<noteq> None \<Longrightarrow> works (sd_upsertItems sd xs) s"

lemma op_works:
  assumes "op_spec tabs tx ((=) Idle) m R" and "works m s" and "tx s = Idle"
  shows "\<exists>x t. m s = (Inr x, t) \<and> R (tabs s) x (tabs t) \<and> tx t = Idle"
  using assms op_spec_Inr [OF assms(1)] unfolding works_def by metis

text \<open>What a seeded database holds.\<close>

definition seeded ::
  "(jsnum \<Rightarrow> jsnum) \<Rightarrow> bcrypt \<Rightarrow> (string \<Rightarrow> string) \<Rightarrow> (jsnum \<Rightarrow> string) \<Rightarrow> tables \<Rightarrow> bool" where
  "seeded numeric2 bc salt toString T \<longleftrightarrow>
     (\<forall>s \<in> set usersSeed. \<exists>i u. t_users T i = Some u \<and> is_user (hashed_user bc salt s) u) \<and>
     (\<forall>n \<in> set (productsSeed toString). \<exists>i p. t_products T i = Some p \<and> is_product n p) \<and>
     (\<forall>o' \<in> set ordersSeed. \<exists>r u.
        t_orders T (os_id o') = Some r \<and> t_users T (o_userId r) = Some u \<and> u_email u = os_userEmail o' \<and>
        (\<forall>item \<in> set (os_items o'). \<exists>it p.
           t_items T (is_id item) = Some it \<and> oi_orderId it = os_id o' \<and> oi_quantity it = is_quantity item \<and>
           t_products T (oi_productId it) = Some p \<and> p_name p = is_productName item \<and>
           oi_priceSnapshot it = numeric2 (p_price p)))"

text \<open>What the seed leaves alone: the rows of other keys.\<close>

definition seed_kept :: "(jsnum \<Rightarrow> string) \<Rightarrow> tables \<Rightarrow> tables \<Rightarrow> bool" where
  "seed_kept toString T T' \<longleftrightarrow>
     (\<forall>i u. t_users T i = Some u \<longrightarrow> u_email u \<notin> us_email ` set usersSeed \<longrightarrow> t_users T' i = Some u) \<and>
     (\<forall>i p. t_products T i = Some p \<longrightarrow> p_sku p \<notin> np_sku ` set (productsSeed toString) \<longrightarrow>
        t_products T' i = Some p) \<and>
     (\<forall>i. i \<notin> os_id ` set ordersSeed \<longrightarrow> t_orders T' i = t_orders T i) \<and>
     (\<forall>i. i \<notin> is_id ` (\<Union>o' \<in> set ordersSeed. set (os_items o')) \<longrightarrow> t_items T' i = t_items T i) \<and>
     t_processed T' = t_processed T \<and> t_files T' = t_files T"

text \<open>The tables through the four statements, given what the two queries found.\<close>

lemma seed_tables:
  assumes keyed: "users_keyed T" "products_keyed T"
    and two: "\<And>c. c < 10 ^ 12 \<Longrightarrow> numeric2 (Fin (of_nat c / 100)) = Fin (of_nat c / 100)"
    and A: "each user_upserted (map (hashed_user bc salt) usersSeed) T A"
    and B: "each (product_upserted numeric2) (productsSeed ts) A B"
  shows "(\<forall>s \<in> set usersSeed. \<exists>i u. t_users B i = Some u \<and> is_user (hashed_user bc salt s) u) \<and>
    (\<forall>n \<in> set (productsSeed ts). \<exists>i p. t_products B i = Some p \<and> is_product n p) \<and>
    users_keyed B \<and> products_keyed B \<and> t_orders B = t_orders T \<and> t_items B = t_items T \<and>
    t_processed B = t_processed T \<and> t_files B = t_files T \<and>
    (\<forall>i u. t_users T i = Some u \<longrightarrow> u_email u \<notin> us_email ` set usersSeed \<longrightarrow> t_users B i = Some u) \<and>
    (\<forall>i p. t_products T i = Some p \<longrightarrow> p_sku p \<notin> np_sku ` set (productsSeed ts) \<longrightarrow> t_products B i = Some p)"
proof -
  have emails: "nu_email ` set (map (hashed_user bc salt) usersSeed) = us_email ` set usersSeed"
    by (simp add: image_image hashed_user_def)
  have inj: "inj_on nu_email (set (map (hashed_user bc salt) usersSeed))"
  proof -
    have "distinct (map nu_email (map (hashed_user bc salt) usersSeed))"
      using seed_emails by (simp add: comp_def hashed_user_def)
    then show ?thesis unfolding distinct_map [of nu_email] by blast
  qed
  note fA = users_upserted_frame [OF A keyed(1)]
  have onlyA: "A = T\<lparr>t_users := t_users A\<rparr>" using fA by (rule conjunct1)
  have sameA: "t_products A = t_products T" "t_orders A = t_orders T" "t_items A = t_items T"
    "t_processed A = t_processed T" "t_files A = t_files T"
    by (subst onlyA, simp)+
  have keyedA: "products_keyed A" using keyed(2) sameA(1) by simp
  note fB = products_upserted_frame [OF B keyedA]
  have onlyB: "B = A\<lparr>t_products := t_products B\<rparr>" using fB by (rule conjunct1 [OF conjunct2])
  have sameB: "t_users B = t_users A" "t_orders B = t_orders T" "t_items B = t_items T"
    "t_processed B = t_processed T" "t_files B = t_files T"
    by (subst onlyB, simp add: sameA)+
  have users: "\<exists>i u. t_users B i = Some u \<and> is_user (hashed_user bc salt s) u" if "s \<in> set usersSeed" for s
    unfolding sameB
    by (rule users_upserted [OF A keyed(1) _ _ inj]) (use that in \<open>simp_all add: full_user_def hashed_user_def\<close>)
  have products: "\<exists>i p. t_products B i = Some p \<and> is_product n p" if n: "n \<in> set (productsSeed ts)" for n
  proof (rule products_upserted [OF B keyedA n _ productsSeed_skus])
    obtain c where "c < 10 ^ 12" "np_price n = Fin (of_nat c / 100)" using productsSeed_price [OF n] .
    then have "numeric2 (np_price n) = np_price n" using two by simp
    moreover obtain i where "n = product_of_name ts (productNames ! i) i"
      using n by (metis in_set_conv_nth productsSeed_nth)
    ultimately show "full_product numeric2 n" by (simp add: full_product_def product_of_name_def Let_def)
  qed
  have kb: "users_keyed B" "products_keyed B"
    using users_upserted_keyed [OF A keyed(1)] fB sameB(1) by simp_all
  have "t_users B i = Some u" if "t_users T i = Some u" "u_email u \<notin> us_email ` set usersSeed" for i u
    using conjunct2 [OF fA] that unfolding emails sameB by blast
  moreover have "t_products B i = Some p"
    if "t_products T i = Some p" "p_sku p \<notin> np_sku ` set (productsSeed ts)" for i p
    using conjunct2 [OF conjunct2 [OF fB]] that unfolding sameA by blast
  ultimately show ?thesis using users products kb sameB(2-5) by (intro conjI ballI allI impI) simp_all
qed

text \<open>The two queries as the maps the script makes of them.\<close>

definition by_email :: "user_row list \<Rightarrow> string \<rightharpoonup> user_row" where
  "by_email users = map_of (rev (map (\<lambda>u. (u_email u, u)) users))"

definition by_name :: "product_row list \<Rightarrow> string \<rightharpoonup> product_row" where
  "by_name products = map_of (rev (map (\<lambda>p. (p_name p, p)) products))"

lemma by_email_None: "by_email users e = None \<longleftrightarrow> e \<notin> u_email ` set users"
  by (simp add: by_email_def last_entry_None)

lemma by_name_None: "by_name products n = None \<longleftrightarrow> n \<notin> p_name ` set products"
  by (simp add: by_name_def last_entry_None)

definition seed_order_rows :: "(string \<rightharpoonup> user_row) \<Rightarrow> (string \<times> string) list" where
  "seed_order_rows U = map (order_pair U) ordersSeed"

definition seed_item_rows :: "(string \<rightharpoonup> product_row) \<Rightarrow> item_upsert list" where
  "seed_item_rows P = concat (map (\<lambda>o'. map (item_row P (os_id o')) (os_items o')) ordersSeed)"

lemma seed_order_rows_ids [simp]: "map fst (seed_order_rows U) = map os_id ordersSeed"
  by (simp add: seed_order_rows_def order_pair_def comp_def)

lemma seed_item_rows_ids: "map iu_id (seed_item_rows P) = concat (map (\<lambda>o'. map is_id (os_items o')) ordersSeed)"
  by (simp add: seed_item_rows_def map_concat item_row_def Let_def comp_def)

lemma seed_rows_nonempty: "seed_order_rows U \<noteq> []" "seed_item_rows P \<noteq> []"
  by (simp_all add: seed_order_rows_def seed_item_rows_def ordersSeed_def)

lemma queries_cover:
  assumes B: "\<forall>s \<in> set usersSeed. \<exists>i u. t_users B i = Some u \<and> is_user (hashed_user bc salt s) u"
      "\<forall>n \<in> set (productsSeed ts). \<exists>i p. t_products B i = Some p \<and> is_product n p"
    and keyed: "users_keyed B" "products_keyed B"
    and users: "set users = hidden ` {u \<in> ran (t_users B). u_email u \<in> set (map us_email usersSeed)}"
    and products: "set products = {p \<in> ran (t_products B). p_name p \<in> set productNames}"
  shows "(\<forall>e \<in> us_email ` set usersSeed. \<exists>u v. by_email users e = Some u \<and> t_users B (u_id u) = Some v \<and> u_email v = e) \<and>
    (\<forall>n \<in> set productNames. \<exists>p. by_name products n = Some p \<and> t_products B (p_id p) = Some p \<and> p_name p = n)"
proof (intro conjI ballI)
  fix e
  assume e: "e \<in> us_email ` set usersSeed"
  with B(1) obtain i v where v: "t_users B i = Some v" "u_email v = e"
    by (force simp: is_user_def hashed_user_def)
  then have "hidden v \<in> set users" using users e by (auto simp: ran_def)
  then have "by_email users e \<noteq> None"
    using v(2) imageI [of "hidden v" "set users" u_email] by (simp add: by_email_None hidden_def)
  then obtain u where u: "by_email users e = Some u" by blast
  from last_entry_Some [OF u [unfolded by_email_def]] users obtain w where
    w: "u = hidden w" "w \<in> ran (t_users B)" "u_email u = e" by auto
  then obtain j where j: "t_users B j = Some w" by (auto simp: ran_def)
  then have "u_id w = j" using keyed(1) by (simp add: keyed_def)
  with u w j show "\<exists>u v. by_email users e = Some u \<and> t_users B (u_id u) = Some v \<and> u_email v = e"
    by (auto simp: hidden_def)
next
  fix n
  assume n: "n \<in> set productNames"
  then obtain x where "x \<in> set (productsSeed ts)" "np_name x = n"
    using productsSeed_names [of ts] by (metis imageE)
  with B(2) obtain i q where q: "t_products B i = Some q" "p_name q = n"
    unfolding is_product_def by blast
  then have "q \<in> set products" using products n by (auto simp: ran_def)
  then have "by_name products n \<noteq> None"
    using q(2) by (auto simp: by_name_None)
  then obtain p where p: "by_name products n = Some p" by blast
  from last_entry_Some [OF p [unfolded by_name_def]] products obtain j where
    j: "t_products B j = Some p" "p_name p = n" by (auto simp: ran_def)
  then have "p_id p = j" using keyed(2) by (simp add: keyed_def)
  with p j show "\<exists>p. by_name products n = Some p \<and> t_products B (p_id p) = Some p \<and> p_name p = n" by blast
qed

text \<open>The last two statements on such maps.\<close>

lemma seed_order_tables:
  assumes U: "\<forall>e \<in> us_email ` set usersSeed. \<exists>u v. U e = Some u \<and> t_users B (u_id u) = Some v \<and> u_email v = e"
    and P: "\<forall>n \<in> set productNames. \<exists>p. P n = Some p \<and> t_products B (p_id p) = Some p \<and> p_name p = n"
    and C: "each order_upserted (seed_order_rows U) B C"
    and D: "each (item_upserted numeric2) (seed_item_rows P) C D"
  shows "t_users D = t_users B \<and> t_products D = t_products B \<and> t_processed D = t_processed B \<and> t_files D = t_files B \<and>
    (\<forall>i. i \<notin> os_id ` set ordersSeed \<longrightarrow> t_orders D i = t_orders B i) \<and>
    (\<forall>i. i \<notin> is_id ` (\<Union>o' \<in> set ordersSeed. set (os_items o')) \<longrightarrow> t_items D i = t_items B i) \<and>
    (\<forall>o' \<in> set ordersSeed. \<exists>r u.
        t_orders D (os_id o') = Some r \<and> t_users D (o_userId r) = Some u \<and> u_email u = os_userEmail o' \<and>
        (\<forall>item \<in> set (os_items o'). \<exists>it p.
           t_items D (is_id item) = Some it \<and> oi_orderId it = os_id o' \<and> oi_quantity it = is_quantity item \<and>
           t_products D (oi_productId it) = Some p \<and> p_name p = is_productName item \<and>
           oi_priceSnapshot it = numeric2 (p_price p)))"
proof -
  have fC: "C = B\<lparr>t_orders := t_orders C\<rparr>" "\<forall>i. i \<notin> fst ` set (seed_order_rows U) \<longrightarrow> t_orders C i = t_orders B i"
    using orders_upserted_frame [OF C] by (rule conjunct1, rule conjunct2)
  have fD: "D = C\<lparr>t_items := t_items D\<rparr>" "\<forall>i. i \<notin> iu_id ` set (seed_item_rows P) \<longrightarrow> t_items D i = t_items C i"
    using items_upserted_frame [OF D] by (rule conjunct1, rule conjunct2)
  have sC: "t_users C = t_users B" "t_products C = t_products B" "t_processed C = t_processed B"
    "t_files C = t_files B" "t_items C = t_items B" by (subst fC(1), simp)+
  have sD: "t_users D = t_users B" "t_products D = t_products B" "t_processed D = t_processed B"
    "t_files D = t_files B" "t_orders D = t_orders C" by (subst fD(1), simp add: sC)+
  have oids: "fst ` set (seed_order_rows U) = os_id ` set ordersSeed"
    by (metis list.set_map seed_order_rows_ids)
  have iids: "iu_id ` set (seed_item_rows P) = is_id ` (\<Union>o' \<in> set ordersSeed. set (os_items o'))"
  proof -
    have "iu_id ` set (seed_item_rows P) = set (concat (map (\<lambda>o'. map is_id (os_items o')) ordersSeed))"
      by (metis list.set_map seed_item_rows_ids)
    then show ?thesis by auto
  qed
  have injO: "inj_on fst (set (seed_order_rows U))"
    using seed_order_ids distinct_map [of fst "seed_order_rows U"] by simp
  have injI: "inj_on iu_id (set (seed_item_rows P))"
    using seed_item_ids distinct_map [of iu_id "seed_item_rows P"] by (simp add: seed_item_rows_ids)
  have order: "\<exists>r u. t_orders D (os_id o') = Some r \<and> t_users D (o_userId r) = Some u \<and> u_email u = os_userEmail o'"
    if o': "o' \<in> set ordersSeed" for o'
  proof -
    have mem: "order_pair U o' \<in> set (seed_order_rows U)" using o' by (simp add: seed_order_rows_def)
    from orders_upserted [OF C mem injO] obtain r where
      "t_orders C (os_id o') = Some r" "o_userId r = u_id (the (U (os_userEmail o')))"
      by (auto simp: order_pair_def)
    moreover have "os_userEmail o' \<in> us_email ` set usersSeed" using seed_known_users o' by blast
    ultimately show ?thesis using U unfolding sD by fastforce
  qed
  have item: "\<exists>it p. t_items D (is_id item) = Some it \<and> oi_orderId it = os_id o' \<and> oi_quantity it = is_quantity item \<and>
      t_products D (oi_productId it) = Some p \<and> p_name p = is_productName item \<and> oi_priceSnapshot it = numeric2 (p_price p)"
    if o': "o' \<in> set ordersSeed" and item: "item \<in> set (os_items o')" for o' item
  proof -
    have mem: "item_row P (os_id o') item \<in> set (seed_item_rows P)"
      using o' item by (auto simp: seed_item_rows_def)
    from P seed_known_products [OF o' item] obtain p where
      p: "P (is_productName item) = Some p" "t_products B (p_id p) = Some p" "p_name p = is_productName item" by blast
    from items_upserted [OF D mem injI] p show ?thesis
      unfolding sD by (auto simp: item_row_def is_item_def)
  qed
  have same_orders: "\<forall>i. i \<notin> os_id ` set ordersSeed \<longrightarrow> t_orders D i = t_orders B i"
    using fC(2) unfolding oids sD .
  have same_items: "\<forall>i. i \<notin> is_id ` (\<Union>o' \<in> set ordersSeed. set (os_items o')) \<longrightarrow> t_items D i = t_items B i"
    using fD(2) unfolding iids sC .
  have both: "\<exists>r u. t_orders D (os_id o') = Some r \<and> t_users D (o_userId r) = Some u \<and> u_email u = os_userEmail o' \<and>
        (\<forall>item \<in> set (os_items o'). \<exists>it p.
           t_items D (is_id item) = Some it \<and> oi_orderId it = os_id o' \<and> oi_quantity it = is_quantity item \<and>
           t_products D (oi_productId it) = Some p \<and> p_name p = is_productName item \<and>
           oi_priceSnapshot it = numeric2 (p_price p))"
    if o': "o' \<in> set ordersSeed" for o'
  proof -
    obtain r u where r: "t_orders D (os_id o') = Some r" "t_users D (o_userId r) = Some u" "u_email u = os_userEmail o'"
      using order [OF o'] by blast
    show ?thesis by (rule exI [of _ r], rule exI [of _ u]) (use r item [OF o'] in blast)
  qed
  show ?thesis by (intro conjI sD(1-4) same_orders same_items ballI both)
qed

text \<open>The loop succeeds on such maps, its orders have users and its items orders.\<close>

lemma seed_loop:
  assumes U: "\<forall>e \<in> us_email ` set usersSeed. \<exists>u v. U e = Some u \<and> t_users B (u_id u) = Some v \<and> u_email v = e"
    and P: "\<forall>n \<in> set productNames. \<exists>p. P n = Some p \<and> t_products B (p_id p) = Some p \<and> p_name p = n"
  shows "seed_orders U P ordersSeed ([], []) = Inr (seed_order_rows U, seed_item_rows P) \<and>
    (\<forall>ou \<in> set (seed_order_rows U). t_users B (snd ou) \<noteq> None)"
proof
  have user: "\<exists>u v. U (os_userEmail o') = Some u \<and> t_users B (u_id u) = Some v" if "o' \<in> set ordersSeed" for o'
  proof -
    have "os_userEmail o' \<in> us_email ` set usersSeed" using that seed_known_users by blast
    with U show ?thesis by blast
  qed
  have "\<forall>o' \<in> set ordersSeed. U (os_userEmail o') \<noteq> None \<and>
      (\<forall>item \<in> set (os_items o'). P (is_productName item) \<noteq> None)"
  proof (intro ballI conjI)
    fix o'
    assume o': "o' \<in> set ordersSeed"
    show "U (os_userEmail o') \<noteq> None" using user [OF o'] by auto
    show "P (is_productName item) \<noteq> None" if "item \<in> set (os_items o')" for item
      using P seed_known_products [OF o' that] by (metis option.distinct(1))
  qed
  from seed_orders_all [OF this] show
    "seed_orders U P ordersSeed ([], []) = Inr (seed_order_rows U, seed_item_rows P)"
    by (simp add: seed_order_rows_def seed_item_rows_def)
  show "\<forall>ou \<in> set (seed_order_rows U). t_users B (snd ou) \<noteq> None"
    using user by (fastforce simp: seed_order_rows_def order_pair_def)
qed

lemma seed_item_orders:
  assumes "each order_upserted (seed_order_rows U) B C"
  shows "\<forall>x \<in> set (seed_item_rows P). t_orders C (iu_orderId x) \<noteq> None"
proof
  fix x
  assume "x \<in> set (seed_item_rows P)"
  then obtain o' where o': "o' \<in> set ordersSeed" "iu_orderId x = os_id o'"
    by (auto simp: seed_item_rows_def item_row_def Let_def)
  have "order_pair U o' \<in> set (seed_order_rows U)" using o'(1) by (simp add: seed_order_rows_def)
  moreover have "inj_on fst (set (seed_order_rows U))"
    using seed_order_ids distinct_map [of fst "seed_order_rows U"] by simp
  ultimately have "\<exists>r. t_orders C (fst (order_pair U o')) = Some r"
    using orders_upserted [OF assms] by blast
  then show "t_orders C (iu_orderId x) \<noteq> None" using o'(2) by (auto simp: order_pair_def)
qed

context reliable_seed
begin

text \<open>The first four statements: the users and products are there, and the queries find them.\<close>

lemma seed_reads_run:
  assumes idle: "tx d = Idle" and keyed: "users_keyed (tabs d)" "products_keyed (tabs d)"
  shows "\<exists>users products A d'.
    (\<forall>k. await (sd_upsertUsers sd (map (hashed_user bc salt) usersSeed)) (\<lambda>_.
       await (sd_upsertProducts sd (productsSeed ts)) (\<lambda>_.
       await (sd_usersByEmail sd (map us_email usersSeed)) (\<lambda>users.
       await (sd_productsByName sd productNames) (k users)))) d = (k users products d' :: (exn + unit) \<times> _)) \<and>
    tx d' = Idle \<and>
    each user_upserted (map (hashed_user bc salt) usersSeed) (tabs d) A \<and>
    each (product_upserted numeric2) (productsSeed ts) A (tabs d') \<and>
    set users = hidden ` {u \<in> ran (t_users (tabs d')). u_email u \<in> set (map us_email usersSeed)} \<and>
    set products = {p \<in> ran (t_products (tabs d')). p_name p \<in> set productNames}"
proof -
  let ?ns = "map (hashed_user bc salt) usersSeed"
  have emails: "distinct (map nu_email ?ns)" using seed_emails by (simp add: comp_def hashed_user_def)
  from op_works [OF upsertUsers works_upsertUsers [OF idle emails] idle] obtain u1 d1 where
    1: "sd_upsertUsers sd ?ns d = (Inr u1, d1)" "each user_upserted ?ns (tabs d) (tabs d1)" "tx d1 = Idle" by blast
  from op_works [OF upsertProducts works_upsertProducts [OF 1(3) productsSeed_distinct] 1(3)] obtain u2 d2 where
    2: "sd_upsertProducts sd (productsSeed ts) d1 = (Inr u2, d2)"
      "each (product_upserted numeric2) (productsSeed ts) (tabs d1) (tabs d2)" "tx d2 = Idle" by blast
  from op_works [OF usersByEmail works_usersByEmail [OF 2(3), of "map us_email usersSeed"] 2(3)] obtain users d3 where
    3: "sd_usersByEmail sd (map us_email usersSeed) d2 = (Inr users, d3)" "tx d3 = Idle" "tabs d3 = tabs d2"
      "set users = hidden ` {u \<in> ran (t_users (tabs d2)). u_email u \<in> set (map us_email usersSeed)}"
    by (auto simp: reads_def)
  from op_works [OF productsByName works_productsByName [OF 3(2), of productNames] 3(2)] obtain products d4 where
    4: "sd_productsByName sd productNames d3 = (Inr products, d4)" "tx d4 = Idle" "tabs d4 = tabs d2"
      "set products = {p \<in> ran (t_products (tabs d2)). p_name p \<in> set productNames}"
    using 3(3) by (auto simp: reads_def)
  show ?thesis
    by (rule exI [of _ users], rule exI [of _ products], rule exI [of _ "tabs d1"], rule exI [of _ d4])
      (use 1 2 3 4 in \<open>simp add: await_def\<close>)
qed

text \<open>The last two statements, on the maps of the queries.\<close>

lemma seed_writes_run:
  assumes idle: "tx d = Idle"
    and U: "\<forall>e \<in> us_email ` set usersSeed. \<exists>u v. U e = Some u \<and> t_users (tabs d) (u_id u) = Some v \<and> u_email v = e"
    and P: "\<forall>n \<in> set productNames. \<exists>p. P n = Some p \<and> t_products (tabs d) (p_id p) = Some p \<and> p_name p = n"
  shows "\<exists>C d'. await (sd_upsertOrders sd (seed_order_rows U)) (\<lambda>_. sd_upsertItems sd (seed_item_rows P)) d = (Inr (), d') \<and>
    tx d' = Idle \<and> each order_upserted (seed_order_rows U) (tabs d) C \<and>
    each (item_upserted numeric2) (seed_item_rows P) C (tabs d')"
proof -
  have known: "\<forall>ou \<in> set (seed_order_rows U). t_users (tabs d) (snd ou) \<noteq> None"
    using seed_loop [OF U P] by (rule conjunct2)
  from op_works [OF upsertOrders works_upsertOrders [OF idle _ known] idle] seed_order_ids obtain u5 d5 where
    5: "sd_upsertOrders sd (seed_order_rows U) d = (Inr u5, d5)" "tx d5 = Idle"
      "each order_upserted (seed_order_rows U) (tabs d) (tabs d5)" by auto
  from op_works [OF upsertItems works_upsertItems [OF 5(2) _ seed_item_orders [OF 5(3)]] 5(2)] seed_item_ids obtain u6 d6 where
    6: "sd_upsertItems sd (seed_item_rows P) d5 = (Inr u6, d6)" "tx d6 = Idle"
      "each (item_upserted numeric2) (seed_item_rows P) (tabs d5) (tabs d6)"
    by (auto simp: seed_item_rows_ids)
  show ?thesis
    by (rule exI [of _ "tabs d5"], rule exI [of _ d6]) (use 5 6 in \<open>simp add: await_def\<close>)
qed

lemma seed_body_runs:
  assumes idle: "tx d = Idle" and keyed: "users_keyed (tabs d)" "products_keyed (tabs d)"
  shows "\<exists>d'. seed_body sd bc salt ts d = (Inr (), d') \<and> tx d' = Idle \<and>
    users_keyed (tabs d') \<and> products_keyed (tabs d') \<and>
    seeded numeric2 bc salt ts (tabs d') \<and> seed_kept ts (tabs d) (tabs d')"
proof -
  obtain users products A d4 where
    4: "\<And>k. await (sd_upsertUsers sd (map (hashed_user bc salt) usersSeed)) (\<lambda>_.
       await (sd_upsertProducts sd (productsSeed ts)) (\<lambda>_.
       await (sd_usersByEmail sd (map us_email usersSeed)) (\<lambda>users.
       await (sd_productsByName sd productNames) (k users)))) d = (k users products d4 :: (exn + unit) \<times> _)"
    "tx d4 = Idle" "each user_upserted (map (hashed_user bc salt) usersSeed) (tabs d) A"
    "each (product_upserted numeric2) (productsSeed ts) A (tabs d4)"
    "set users = hidden ` {u \<in> ran (t_users (tabs d4)). u_email u \<in> set (map us_email usersSeed)}"
    "set products = {p \<in> ran (t_products (tabs d4)). p_name p \<in> set productNames}"
    using seed_reads_run [OF idle keyed, of bc salt ts] by blast
  note B = seed_tables [OF keyed two_decimals 4(3,4)]
  have B1: "\<forall>s \<in> set usersSeed. \<exists>i u. t_users (tabs d4) i = Some u \<and> is_user (hashed_user bc salt s) u"
    and B2: "\<forall>n \<in> set (productsSeed ts). \<exists>i p. t_products (tabs d4) i = Some p \<and> is_product n p"
    and kB: "users_keyed (tabs d4)" "products_keyed (tabs d4)" using B by blast+
  let ?U = "by_email users" and ?P = "by_name products"
  note cover = queries_cover [OF B1 B2 kB 4(5,6)]
  note U = cover [THEN conjunct1] and P = cover [THEN conjunct2]
  from seed_writes_run [OF 4(2) U P] obtain C d6 where
    6: "await (sd_upsertOrders sd (seed_order_rows ?U)) (\<lambda>_. sd_upsertItems sd (seed_item_rows ?P)) d4 = (Inr (), d6)"
      "tx d6 = Idle" "each order_upserted (seed_order_rows ?U) (tabs d4) C"
      "each (item_upserted numeric2) (seed_item_rows ?P) C (tabs d6)" by blast
  have run: "seed_body sd bc salt ts d = (Inr (), d6)"
    using 4(1) 6(1) seed_loop [OF U P] seed_rows_nonempty
    by (simp add: seed_body_def by_email_def by_name_def Let_def)
  note D = seed_order_tables [OF U P 6(3,4)]
  note sD = D [THEN conjunct1] D [THEN conjunct2, THEN conjunct1]
    D [THEN conjunct2, THEN conjunct2, THEN conjunct1]
    D [THEN conjunct2, THEN conjunct2, THEN conjunct2, THEN conjunct1]
  note rest = D [THEN conjunct2, THEN conjunct2, THEN conjunct2, THEN conjunct2]
  note sB = B [THEN conjunct2, THEN conjunct2, THEN conjunct2, THEN conjunct2]
  have "seeded numeric2 bc salt ts (tabs d6)"
    unfolding seeded_def
    by (intro conjI rest [THEN conjunct2, THEN conjunct2]) (unfold sD(1,2), fact B1, fact B2)
  moreover have "seed_kept ts (tabs d) (tabs d6)"
    unfolding seed_kept_def sD
    using sB rest [THEN conjunct1] rest [THEN conjunct2, THEN conjunct1] by simp
  ultimately show ?thesis using run 6(2) kB unfolding sD [symmetric] by blast
qed

lemma seed_runs:
  assumes "tx d = Idle" and "users_keyed (tabs d)" and "products_keyed (tabs d)" and "env \<noteq> Some ''production''"
  shows "\<exists>d'. seed sd bc salt ts env d = (Inr (), d') \<and> tx d' = Idle \<and>
    users_keyed (tabs d') \<and> products_keyed (tabs d') \<and> seeded numeric2 bc salt ts (tabs d') \<and> seed_kept ts (tabs d) (tabs d')"
proof -
  from op_works [OF initialize works_initialize [OF assms(1)] assms(1)] obtain u d1 where
    1: "sd_initialize sd d = (Inr u, d1)" "tx d1 = Idle" "tabs d1 = tabs d" by (auto simp: reads_def)
  from seed_body_runs [OF 1(2), of bc salt ts] assms(2,3) 1(3) obtain d2 where
    2: "seed_body sd bc salt ts d1 = (Inr (), d2)" "tx d2 = Idle" "seeded numeric2 bc salt ts (tabs d2)"
      "seed_kept ts (tabs d) (tabs d2)" "users_keyed (tabs d2)" "products_keyed (tabs d2)" by auto
  from op_works [OF destroy works_destroy [OF 2(2)] 2(2)] obtain d3 where
    3: "sd_destroy sd d2 = (Inr (), d3)" "tx d3 = Idle" "tabs d3 = tabs d2" by (auto simp: reads_def)
  have "seed sd bc salt ts env d = (Inr (), d3)"
    using assms(4) 1(1) 2(1) 3(1) by (simp add: seed_def await_def try_finally_def)
  with 2(3-6) 3(2,3) show ?thesis by simp
qed

end

end
