(* ===== verification/ReferenceSeed.thy ===== *)
theory ReferenceSeed
  imports SeedProperties ProductsProperties AccountsProperties
begin

text \<open>
  The repositories of the seed over the reference store, and what the seed does: the property of
  the script, run on any reliable database and then met by the login.
\<close>

section \<open>Rows\<close>

definition ref_numeric2 :: "jsnum \<Rightarrow> jsnum" where
  "ref_numeric2 v = (case v of Fin q \<Rightarrow> Fin (of_int (round (q * 100)) / 100) | _ \<Rightarrow> v)"

definition ref_upsertUser :: "int \<Rightarrow> new_user \<Rightarrow> ref_rows \<Rightarrow> ref_rows option" where
  "ref_upsertUser now n rs =
     (case ref_findEmail (nu_email n) rs of
        None \<Rightarrow> Some (rs\<lparr>rr_users :=
          \<lparr>u_id = fresh_id u_id (rr_users rs), u_email = nu_email n,
           u_passwordHash = nu_passwordHash n, u_roles = some_or (nu_roles n) [],
           u_scopes = some_or (nu_scopes n) [], u_avatarFileId = None,
           u_createdAt = now, u_updatedAt = now\<rparr> # rr_users rs\<rparr>)
      | Some u \<Rightarrow> Some (rs\<lparr>rr_users :=
          u\<lparr>u_passwordHash := nullish (nu_passwordHash n) (u_passwordHash u),
            u_roles := some_or (nu_roles n) (u_roles u),
            u_scopes := some_or (nu_scopes n) (u_scopes u), u_updatedAt := now\<rparr> # rr_users rs\<rparr>))"

definition ref_upsertProduct :: "int \<Rightarrow> new_product \<Rightarrow> ref_rows \<Rightarrow> ref_rows option" where
  "ref_upsertProduct now n rs =
     (case find (\<lambda>p. p_sku p = np_sku n) (visible p_id (rr_products rs)) of
        None \<Rightarrow> Some (rs\<lparr>rr_products :=
          \<lparr>p_id = fresh_id p_id (rr_products rs), p_name = np_name n, p_sku = np_sku n,
           p_description = np_description n, p_price = ref_numeric2 (np_price n),
           p_stock = some_or (np_stock n) 0, p_isActive = some_or (np_isActive n) True,
           p_imageFileId = None, p_createdAt = now, p_updatedAt = now\<rparr> # rr_products rs\<rparr>)
      | Some p \<Rightarrow> Some (rs\<lparr>rr_products :=
          p\<lparr>p_name := np_name n, p_description := np_description n, p_price := ref_numeric2 (np_price n),
            p_stock := some_or (np_stock n) (p_stock p),
            p_isActive := some_or (np_isActive n) (p_isActive p), p_updatedAt := now\<rparr> # rr_products rs\<rparr>))"

definition ref_upsertOrder :: "int \<Rightarrow> string \<times> string \<Rightarrow> ref_rows \<Rightarrow> ref_rows option" where
  "ref_upsertOrder now ou rs =
     (if row_map u_id (rr_users rs) (snd ou) = None then None
      else Some (rs\<lparr>rr_orders :=
        (case row_map o_id (rr_orders rs) (fst ou) of
           None \<Rightarrow> \<lparr>o_id = fst ou, o_userId = snd ou, o_status = PENDING, o_idempotencyKey = None,
             o_createdAt = now, o_updatedAt = Some now, o_processedAt = None\<rparr>
         | Some q \<Rightarrow> q\<lparr>o_userId := snd ou, o_updatedAt := Some now\<rparr>) # rr_orders rs\<rparr>))"

definition ref_upsertItem :: "int \<Rightarrow> item_upsert \<Rightarrow> ref_rows \<Rightarrow> ref_rows option" where
  "ref_upsertItem now x rs =
     (if row_map o_id (rr_orders rs) (iu_orderId x) = None then None
      else Some (rs\<lparr>rr_items :=
        \<lparr>oi_id = iu_id x, oi_orderId = iu_orderId x, oi_productId = iu_productId x,
         oi_quantity = iu_quantity x, oi_priceSnapshot = ref_numeric2 (iu_priceSnapshot x),
         oi_createdAt = now, oi_updatedAt = now\<rparr> # rr_items rs\<rparr>))"

text \<open>One statement: every row, or none.\<close>

fun ref_each :: "('x \<Rightarrow> ref_rows \<Rightarrow> ref_rows option) \<Rightarrow> 'x list \<Rightarrow> ref_rows \<Rightarrow> ref_rows option" where
  "ref_each f [] rs = Some rs"
| "ref_each f (x # xs) rs = Option.bind (f x rs) (ref_each f xs)"

definition ref_statement :: "(int \<Rightarrow> 'x \<Rightarrow> ref_rows \<Rightarrow> ref_rows option) \<Rightarrow> 'x list \<Rightarrow> (ref_db, unit) async" where
  "ref_statement f xs d =
     (case ref_each (f (rd_now d)) xs (rd_rows d) of
        None \<Rightarrow> refuse ''23503'' ''violates foreign key constraint'' d
      | Some rs \<Rightarrow> (Inr (), on_rows (\<lambda>_. rs) d))"

definition ref_seed :: "ref_db seed_store" where
  "ref_seed =
     \<lparr>sd_initialize = resolve (),
      sd_upsertUsers = ref_statement ref_upsertUser,
      sd_upsertProducts = ref_statement ref_upsertProduct,
      sd_usersByEmail = (\<lambda>es. gets (\<lambda>d.
        map hidden (filter (\<lambda>u. u_email u \<in> set es) (visible u_id (rr_users (rd_rows d)))))),
      sd_productsByName = (\<lambda>names. gets (\<lambda>d.
        filter (\<lambda>p. p_name p \<in> set names) (visible p_id (rr_products (rd_rows d))))),
      sd_upsertOrders = ref_statement ref_upsertOrder,
      sd_upsertItems = ref_statement ref_upsertItem,
      sd_destroy = resolve ()\<rparr>"

section \<open>They meet the contract\<close>

lemma ref_each_each:
  assumes "\<And>x rs rs'. f x rs = Some rs' \<Longrightarrow> R x (tables_of rs) (tables_of rs')"
  shows "ref_each f xs rs = Some rs' \<Longrightarrow> each R xs (tables_of rs) (tables_of rs')"
  by (induction xs arbitrary: rs) (auto simp: bind_eq_Some_conv dest: assms)

lemma ref_statement_spec:
  assumes "\<And>now x rs rs'. f now x rs = Some rs' \<Longrightarrow> R x (tables_of rs) (tables_of rs')"
  shows "op_spec ref_tabs ref_tx ((=) Idle) (ref_statement f xs) (\<lambda>T u. each R xs T)"
proof (rule op_specI)
  fix d
  show "(\<exists>c msg. ref_statement f xs d = refuse c msg d) \<or>
    (\<exists>x t. ref_statement f xs d = (Inr x, t) \<and> each R xs (ref_tabs d) (ref_tabs t) \<and> rd_tx t = rd_tx d)"
    using ref_each_each [of "f (rd_now d)" R, OF assms]
    by (cases "ref_each (f (rd_now d)) xs (rd_rows d)") (auto simp: ref_statement_def ref_tabs_def on_rows_def)
qed

lemma ref_each_runs:
  assumes "\<And>x rs. x \<in> set xs \<Longrightarrow> I rs \<Longrightarrow> \<exists>rs'. f x rs = Some rs' \<and> I rs'" and "I rs"
  shows "\<exists>rs'. ref_each f xs rs = Some rs'"
  using assms
proof (induction xs arbitrary: rs)
  case (Cons x xs)
  from Cons.prems(1) [of x rs] Cons.prems(2) obtain rs1 where "f x rs = Some rs1" "I rs1" by auto
  with Cons.IH [of rs1] Cons.prems(1) show ?case by auto
qed simp

lemma ref_statement_works:
  assumes "\<And>x rs. x \<in> set xs \<Longrightarrow> I rs \<Longrightarrow> \<exists>rs'. f (rd_now d) x rs = Some rs' \<and> I rs'" and "I (rd_rows d)"
  shows "works (ref_statement f xs) d"
  using ref_each_runs [of xs I "f (rd_now d)" "rd_rows d"] assms
  by (auto simp: ref_statement_def works_def)

lemma ref_upsertUser_spec: "ref_upsertUser now n rs = Some rs' \<Longrightarrow> user_upserted n (tables_of rs) (tables_of rs')"
proof (cases "ref_findEmail (nu_email n) rs")
  case None
  then have free: "email_free (tables_of rs) (nu_email n) i" for i
    by (simp add: email_free_def tables_of_def ref_findEmail_def find_visible_None)
  assume "ref_upsertUser now n rs = Some rs'"
  with None free show ?thesis
    unfolding user_upserted_def
    by (intro disjI1 exI [of _ "hd (rr_users rs')"]) (auto simp: ref_upsertUser_def user_added_def tables_of_def)
next
  case (Some u)
  assume "ref_upsertUser now n rs = Some rs'"
  with Some find_visible_Some [OF Some [unfolded ref_findEmail_def]] show ?thesis
    unfolding user_upserted_def
    by (intro disjI2 exI [of _ "u_id u"] exI [of _ u] exI [of _ now]) (auto simp: ref_upsertUser_def tables_of_def)
qed

lemma ref_upsertProduct_spec:
  "ref_upsertProduct now n rs = Some rs' \<Longrightarrow> product_upserted ref_numeric2 n (tables_of rs) (tables_of rs')"
proof (cases "find (\<lambda>p. p_sku p = np_sku n) (visible p_id (rr_products rs))")
  case None
  then have free: "sku_free (tables_of rs) (np_sku n) i" for i
    by (simp add: sku_free_def tables_of_def find_visible_None)
  assume "ref_upsertProduct now n rs = Some rs'"
  with None free show ?thesis
    unfolding product_upserted_def
    by (intro disjI1 exI [of _ "hd (rr_products rs')"]) (auto simp: ref_upsertProduct_def tables_of_def)
next
  case (Some p)
  assume "ref_upsertProduct now n rs = Some rs'"
  with Some find_visible_Some [OF Some] show ?thesis
    unfolding product_upserted_def
    by (intro disjI2 exI [of _ "p_id p"] exI [of _ p] exI [of _ now]) (auto simp: ref_upsertProduct_def tables_of_def)
qed

lemma ref_upsertOrder_spec:
  assumes "ref_upsertOrder now ou rs = Some rs'"
  shows "order_upserted ou (tables_of rs) (tables_of rs')"
proof -
  from assms have user: "row_map u_id (rr_users rs) (snd ou) \<noteq> None"
    and rs': "rs' = rs\<lparr>rr_orders := hd (rr_orders rs') # rr_orders rs\<rparr>"
    by (auto simp: ref_upsertOrder_def split: if_splits)
  from assms row_map_mem [of o_id "rr_orders rs" "fst ou"] user
  have "o_id (hd (rr_orders rs')) = fst ou" "o_userId (hd (rr_orders rs')) = snd ou"
    "case row_map o_id (rr_orders rs) (fst ou) of
       None \<Rightarrow> o_status (hd (rr_orders rs')) = PENDING \<and> o_idempotencyKey (hd (rr_orders rs')) = None \<and>
         o_processedAt (hd (rr_orders rs')) = None
     | Some q \<Rightarrow> \<exists>ts. hd (rr_orders rs') = q\<lparr>o_userId := snd ou, o_updatedAt := ts\<rparr>"
    by (auto simp: ref_upsertOrder_def split: option.splits)
  with user show ?thesis
    unfolding order_upserted_def
    by (subst rs') (auto simp: tables_of_def intro!: exI [of _ "hd (rr_orders rs')"])
qed

lemma ref_upsertItem_spec:
  "ref_upsertItem now x rs = Some rs' \<Longrightarrow> item_upserted ref_numeric2 x (tables_of rs) (tables_of rs')"
  unfolding item_upserted_def
  by (intro conjI exI [of _ now]) (auto simp: ref_upsertItem_def tables_of_def split: if_splits)

lemma ref_upsertOrder_users: "ref_upsertOrder now ou rs = Some rs' \<Longrightarrow> rr_users rs' = rr_users rs"
  by (auto simp: ref_upsertOrder_def split: if_splits)

lemma ref_upsertItem_orders: "ref_upsertItem now x rs = Some rs' \<Longrightarrow> rr_orders rs' = rr_orders rs"
  by (auto simp: ref_upsertItem_def split: if_splits)

lemma ref_numeric2_cents: "ref_numeric2 (Fin (of_nat c / 100)) = Fin (of_nat c / 100)"
  by (simp add: ref_numeric2_def)

interpretation ref_seed: reliable_seed ref_seed ref_tabs ref_tx ref_numeric2
proof unfold_locales
  show "op_spec ref_tabs ref_tx ((=) Idle) (sd_usersByEmail ref_seed es)
      (reads (\<lambda>T v. set v = hidden ` {u \<in> ran (t_users T). u_email u \<in> set es}))" for es
    unfolding ref_seed_def seed_store.simps
    by (intro op_spec_gets) (auto simp: ref_tabs_def tables_of_def)
  show "op_spec ref_tabs ref_tx ((=) Idle) (sd_productsByName ref_seed names)
      (reads (\<lambda>T v. set v = {p \<in> ran (t_products T). p_name p \<in> set names}))" for names
    unfolding ref_seed_def seed_store.simps
    by (intro op_spec_gets) (auto simp: ref_tabs_def tables_of_def)
  show "works (sd_upsertUsers ref_seed ns) s" for ns s
    unfolding ref_seed_def seed_store.simps
    by (rule ref_statement_works [where I = "\<lambda>_. True"]) (auto simp: ref_upsertUser_def split: option.split)
  show "works (sd_upsertProducts ref_seed ps) s" for ps s
    unfolding ref_seed_def seed_store.simps
    by (rule ref_statement_works [where I = "\<lambda>_. True"]) (auto simp: ref_upsertProduct_def split: option.split)
  show "works (sd_upsertOrders ref_seed os) s"
    if "\<forall>ou \<in> set os. t_users (ref_tabs s) (snd ou) \<noteq> None" for os s
    unfolding ref_seed_def seed_store.simps
    by (rule ref_statement_works [where I = "\<lambda>rs. rr_users rs = rr_users (rd_rows s)"])
      (use that in \<open>auto simp: ref_upsertOrder_def ref_tabs_def tables_of_def\<close>)
  show "works (sd_upsertItems ref_seed xs) s"
    if "\<forall>x \<in> set xs. t_orders (ref_tabs s) (iu_orderId x) \<noteq> None" for xs s
    unfolding ref_seed_def seed_store.simps
    by (rule ref_statement_works [where I = "\<lambda>rs. rr_orders rs = rr_orders (rd_rows s)"])
      (use that in \<open>auto simp: ref_upsertItem_def ref_tabs_def tables_of_def\<close>)
qed (simp_all add: ref_seed_def op_spec_resolve op_spec_gets works_def async_simps ref_numeric2_cents
    ref_statement_spec ref_upsertUser_spec ref_upsertProduct_spec ref_upsertOrder_spec ref_upsertItem_spec)

section \<open>What the seed does\<close>

lemma hashed_user_simps [simp]:
  "nu_email (hashed_user bc salt s) = us_email s"
  "nu_passwordHash (hashed_user bc salt s) = Some (bc_hash bc 10 (us_password s) (salt (us_email s)))"
  "nu_roles (hashed_user bc salt s) = Some (us_roles s)"
  "nu_scopes (hashed_user bc salt s) = Some (us_scopes s)"
  by (simp_all add: hashed_user_def)

lemma keyed_found:
  assumes "users_keyed T" and "t_users T i = Some u" and "with_email (u_email u) T x"
  shows "x = Some u"
proof (cases x)
  case None
  with assms(2,3) show ?thesis by (auto simp: with_email_def)
next
  case (Some y)
  with assms(3) have y: "t_users T (u_id y) = Some y" "u_email y = u_email u" by (simp_all add: with_email_def)
  with assms(1,2) have "u_id y = i" unfolding keyed_def by metis
  with y(1) assms(2) Some show ?thesis by simp
qed

text \<open>A user of the seed logs in.\<close>

lemma seeded_login:
  assumes us: "reliable_users us tabs tx" and bc: "password_hashing bc" and idle: "tx d = Idle"
    and keyed: "users_keyed (tabs d)" and seeded: "seeded numeric2 bc salt ts (tabs d)" and s: "s \<in> set usersSeed"
  shows "\<exists>uid. fst (login us bc jwt now (us_email s) q d) =
    (if take 72 q = take 72 (us_password s)
     then jwt_sign jwt now \<lparr>au_sub = uid, au_email = us_email s, au_roles = us_roles s, au_scopes = us_scopes s\<rparr>
     else Inl (UnauthorizedException ''Invalid credentials''))"
proof -
  from seeded s obtain i u where u: "t_users (tabs d) i = Some u" "is_user (hashed_user bc salt s) u"
    unfolding seeded_def by blast
  then have row: "u_email u = us_email s" "u_roles u = us_roles s" "u_scopes u = us_scopes s"
    "u_passwordHash u = Some (bc_hash bc 10 (us_password s) (salt (us_email s)))" by (simp_all add: is_user_def)
  have found: "x = Some u" if "with_email (us_email s) (tabs d) x" for x
    using keyed_found [OF keyed u(1)] that row(1) by simp
  from login_checks [OF us idle found row(4) password_hashing.hash_nonempty [OF bc], where jwt = jwt and now = now and q = q] row
    password_hashing.compare_hash [OF bc] show ?thesis by auto
qed



end
