(* ===== verification/Programs.thy ===== *)
theory Programs
  imports OrdersFacts
begin

text \<open>
  The database side of the orders service as programs: trees of statements, each followed by a
  continuation of its answer. A program run alone on a store is the method of \<open>Orders\<close> it stands
  for; \<open>Interleaving\<close> runs many of them at once, statement by statement.
\<close>

section \<open>Statements\<close>

datatype stmt =
    FindOrderByKey string
  | FindUser string
  | Connect
  | StartTransaction
  | CommitTransaction
  | RollbackTransaction
  | Release
  | InsertOrder new_order
  | FindProduct string
  | SaveProduct product_row
  | InsertItem new_item
  | FindOrder string
  | InsertProcessed "json option" "json option" string
  | TxFindOrder "json option"
  | TxSaveOrder order_row

datatype reply =
    AUnit
  | AnOrder "order option"
  | AUser "user_row option"
  | ARow order_row
  | AMaybeRow "order_row option"
  | AProduct "product_row option"
  | ASaved product_row
  | AnItem order_item

datatype 'a prog = Return "exn + 'a" | Do stmt "exn + reply \<Rightarrow> 'a prog"

text \<open>One program after another, which sees its outcome; \<open>await\<close>, \<open>catch\<close> and \<open>finally\<close> are cases of it.\<close>

primrec thenP :: "'a prog \<Rightarrow> (exn + 'a \<Rightarrow> 'b prog) \<Rightarrow> 'b prog" where
  "thenP (Return v) f = f v"
| "thenP (Do s k) f = Do s (\<lambda>r. thenP (k r) f)"

definition throwP :: "exn \<Rightarrow> 'a prog" where
  "throwP e = Return (Inl e)"

definition returnP :: "'a \<Rightarrow> 'a prog" where
  "returnP x = Return (Inr x)"

definition awaitP :: "'a prog \<Rightarrow> ('a \<Rightarrow> 'b prog) \<Rightarrow> 'b prog" where
  "awaitP m f = thenP m (\<lambda>v. case v of Inl e \<Rightarrow> Return (Inl e) | Inr x \<Rightarrow> f x)"

definition catchP :: "'a prog \<Rightarrow> (exn \<Rightarrow> 'a prog) \<Rightarrow> 'a prog" where
  "catchP m h = thenP m (\<lambda>v. case v of Inl e \<Rightarrow> h e | Inr x \<Rightarrow> Return (Inr x))"

definition finallyP :: "'a prog \<Rightarrow> unit prog \<Rightarrow> 'a prog" where
  "finallyP m f = thenP m (\<lambda>v. awaitP f (\<lambda>_. Return v))"

text \<open>One statement, its answer read by a partial function.\<close>

definition ask :: "stmt \<Rightarrow> (reply \<Rightarrow> 'a option) \<Rightarrow> 'a prog" where
  "ask s f = Do s (\<lambda>v. case v of
     Inl e \<Rightarrow> Return (Inl e)
   | Inr r \<Rightarrow> (case f r of None \<Rightarrow> Return (Inl (JsError ''reply'')) | Some x \<Rightarrow> Return (Inr x)))"

fun as_unit :: "reply \<Rightarrow> unit option" where
  "as_unit AUnit = Some ()" | "as_unit _ = None"

fun as_order :: "reply \<Rightarrow> order option option" where
  "as_order (AnOrder v) = Some v" | "as_order _ = None"

fun as_user :: "reply \<Rightarrow> user_row option option" where
  "as_user (AUser v) = Some v" | "as_user _ = None"

fun as_row :: "reply \<Rightarrow> order_row option" where
  "as_row (ARow r) = Some r" | "as_row _ = None"

fun as_maybe_row :: "reply \<Rightarrow> order_row option option" where
  "as_maybe_row (AMaybeRow v) = Some v" | "as_maybe_row _ = None"

fun as_product :: "reply \<Rightarrow> product_row option option" where
  "as_product (AProduct v) = Some v" | "as_product _ = None"

fun as_saved :: "reply \<Rightarrow> product_row option" where
  "as_saved (ASaved p) = Some p" | "as_saved _ = None"

fun as_item :: "reply \<Rightarrow> order_item option" where
  "as_item (AnItem it) = Some it" | "as_item _ = None"

section \<open>Creating an order\<close>

definition save_item_prog :: "string \<Rightarrow> create_item \<Rightarrow> order_item prog" where
  "save_item_prog orderId item =
     awaitP (ask (FindProduct (ci_productId item)) as_product) (\<lambda>product.
       case product of
         None \<Rightarrow> throwP (NotFoundException ''Product not found'')
       | Some p \<Rightarrow>
           if ci_quantity item \<le> 0 then
             throwP (BadRequestException ''Quantity must be greater than zero'')
           else if p_stock p < ci_quantity item then
             throwP (ConflictException ''Insufficient stock'')
           else
             awaitP (ask (SaveProduct (p\<lparr>p_stock := p_stock p - ci_quantity item\<rparr>)) as_saved) (\<lambda>_.
             ask (InsertItem
               \<lparr>ni_orderId = orderId, ni_productId = ci_productId item,
                ni_quantity = ci_quantity item, ni_priceSnapshot = ci_priceSnapshot item\<rparr>) as_item))"

fun save_items_prog :: "string \<Rightarrow> create_item list \<Rightarrow> order_item list prog" where
  "save_items_prog orderId [] = returnP []"
| "save_items_prog orderId (item # items) =
     awaitP (save_item_prog orderId item) (\<lambda>savedItem.
     awaitP (save_items_prog orderId items) (\<lambda>savedItems.
     returnP (savedItem # savedItems)))"

definition create_body :: "create_order_dto \<Rightarrow> create_item list \<Rightarrow> string option \<Rightarrow> order prog" where
  "create_body dto items key =
     awaitP (ask (InsertOrder
       \<lparr>no_userId = co_userId dto, no_status = PENDING, no_idempotencyKey = key\<rparr>) as_row) (\<lambda>savedOrder.
     awaitP (save_items_prog (o_id savedOrder) items) (\<lambda>savedItems.
     awaitP (ask (FindOrder (o_id savedOrder)) as_order) (\<lambda>createdOrder.
       case createdOrder of
         None \<Rightarrow> throwP (NotFoundException ''Order not found after creation'')
       | Some created \<Rightarrow> awaitP (ask CommitTransaction as_unit) (\<lambda>_. returnP created))))"

definition create_recovery :: "string option \<Rightarrow> exn \<Rightarrow> (order \<times> bool) prog" where
  "create_recovery key error =
     awaitP (ask RollbackTransaction as_unit) (\<lambda>_.
       if isUniqueViolation error \<and> truthy key then
         awaitP (ask (FindOrderByKey (the key)) as_order) (\<lambda>existingOrder.
           case existingOrder of
             Some x \<Rightarrow> returnP (x, True)
           | None \<Rightarrow> throwP error)
       else throwP error)"

definition create_attempt ::
  "create_order_dto \<Rightarrow> create_item list \<Rightarrow> string option \<Rightarrow> (order \<times> bool) prog" where
  "create_attempt dto items key =
     awaitP (ask Connect as_unit) (\<lambda>_.
     awaitP (ask StartTransaction as_unit) (\<lambda>_.
       finallyP
         (catchP
           (awaitP (create_body dto items key) (\<lambda>created. returnP (created, False)))
           (create_recovery key))
         (ask Release as_unit)))"

definition create_prog :: "create_order_dto \<Rightarrow> string option \<Rightarrow> (order \<times> bool) prog" where
  "create_prog dto idempotencyKey =
     (let key = nullish idempotencyKey (co_idempotencyKey dto) in
      awaitP (if truthy key then ask (FindOrderByKey (the key)) as_order else returnP None)
        (\<lambda>existingOrder.
          case existingOrder of
            Some x \<Rightarrow> returnP (x, True)
          | None \<Rightarrow>
              (case co_items dto of
                 None \<Rightarrow> throwP (BadRequestException ''Order items cannot be empty'')
               | Some items \<Rightarrow>
                   if items = [] then
                     throwP (BadRequestException ''Order items cannot be empty'')
                   else
                     awaitP (ask (FindUser (co_userId dto)) as_user) (\<lambda>user.
                       case user of
                         None \<Rightarrow> throwP (NotFoundException ''User not found'')
                       | Some u \<Rightarrow> create_attempt dto items key))))"

section \<open>Processing a message\<close>

definition process_body :: "int \<Rightarrow> json \<Rightarrow> process_tx_result prog" where
  "process_body processedAt message =
     awaitP
       (catchP
         (awaitP (ask (InsertProcessed (property message ''messageId'')
             (property message ''orderId'') ''orders.process'') as_unit)
           (\<lambda>_. returnP True))
         (\<lambda>error. if isUniqueViolation error then returnP False else throwP error))
       (\<lambda>inserted.
         if \<not> inserted then
           returnP \<lparr>ptr_deduplicated = True, ptr_order = None, ptr_statusChanged = False\<rparr>
         else
           awaitP (ask (TxFindOrder (property message ''orderId'')) as_maybe_row) (\<lambda>order.
             case order of
               None \<Rightarrow> throwP (NotFoundException ''Order not found'')
             | Some r \<Rightarrow>
                 if o_status r = PROCESSED then
                   returnP \<lparr>ptr_deduplicated = False, ptr_order = Some r, ptr_statusChanged = False\<rparr>
                 else
                   awaitP (ask (TxSaveOrder
                     (r\<lparr>o_status := PROCESSED, o_processedAt := Some processedAt\<rparr>)) as_row) (\<lambda>savedOrder.
                   returnP \<lparr>ptr_deduplicated = False, ptr_order = Some savedOrder,
                            ptr_statusChanged = True\<rparr>)))"

text \<open>
  \<open>dataSource.transaction\<close> around a callback, as the library documents it: started, committed
  when the callback resolves, rolled back and thrown on otherwise, released in any case.
\<close>

definition transaction_prog :: "'a prog \<Rightarrow> 'a prog" where
  "transaction_prog m =
     awaitP (ask StartTransaction as_unit) (\<lambda>_.
       finallyP
         (catchP
           (awaitP m (\<lambda>x. awaitP (ask CommitTransaction as_unit) (\<lambda>_. returnP x)))
           (\<lambda>e. thenP (ask RollbackTransaction as_unit) (\<lambda>_. throwP e)))
         (ask Release as_unit))"

definition process_prog :: "int \<Rightarrow> json \<Rightarrow> process_tx_result prog" where
  "process_prog processedAt message = transaction_prog (process_body processedAt message)"

section \<open>A program alone\<close>

text \<open>A statement on a store, and a program as the calls of its statements.\<close>

definition answered :: "('a \<Rightarrow> reply) \<Rightarrow> ('d, 'a) async \<Rightarrow> ('d, reply) async" where
  "answered f m = await m (\<lambda>x. resolve (f x))"

fun perform :: "'d store \<Rightarrow> stmt \<Rightarrow> ('d, reply) async" where
  "perform db (FindOrderByKey k) = answered AnOrder (repo_findOrderByKey db k)"
| "perform db (FindUser uid) = answered AUser (repo_findUser db uid)"
| "perform db Connect = answered (\<lambda>_. AUnit) (qr_connect db)"
| "perform db StartTransaction = answered (\<lambda>_. AUnit) (qr_startTransaction db)"
| "perform db CommitTransaction = answered (\<lambda>_. AUnit) (qr_commitTransaction db)"
| "perform db RollbackTransaction = answered (\<lambda>_. AUnit) (qr_rollbackTransaction db)"
| "perform db Release = answered (\<lambda>_. AUnit) (qr_release db)"
| "perform db (InsertOrder n) = answered ARow (qr_insertOrder db n)"
| "perform db (FindProduct pid) = answered AProduct (qr_findProduct db pid)"
| "perform db (SaveProduct p) = answered ASaved (qr_saveProduct db p)"
| "perform db (InsertItem n) = answered AnItem (qr_insertItem db n)"
| "perform db (FindOrder oid) = answered AnOrder (qr_findOrder db oid)"
| "perform db (InsertProcessed m oid h) = answered (\<lambda>_. AUnit) (tx_insertProcessed db m oid h)"
| "perform db (TxFindOrder oid) = answered AMaybeRow (tx_findOrder db oid)"
| "perform db (TxSaveOrder r) = answered ARow (tx_saveOrder db r)"

primrec exec :: "'d store \<Rightarrow> 'a prog \<Rightarrow> ('d, 'a) async" where
  "exec db (Return v) = (\<lambda>s. (v, s))"
| "exec db (Do st k) = (\<lambda>s. case perform db st s of (r, t) \<Rightarrow> exec db (k r) t)"

lemma exec_thenP: "exec db (thenP m f) = (\<lambda>s. case exec db m s of (v, t) \<Rightarrow> exec db (f v) t)"
  by (induction m) (auto simp: fun_eq_iff split: prod.split)

lemma exec_returns [simp]:
  "exec db (throwP e) = throw e"
  "exec db (returnP x) = resolve x"
  by (simp_all add: throwP_def returnP_def throw_def resolve_def)

lemma exec_awaitP [simp]: "exec db (awaitP m f) = await (exec db m) (\<lambda>x. exec db (f x))"
  by (auto simp: awaitP_def exec_thenP await_def fun_eq_iff split: prod.split sum.split)

lemma exec_catchP [simp]: "exec db (catchP m h) = try_catch (exec db m) (\<lambda>e. exec db (h e))"
  by (auto simp: catchP_def exec_thenP try_catch_def fun_eq_iff split: prod.split sum.split)

lemma exec_finallyP [simp]: "exec db (finallyP m f) = try_finally (exec db m) (exec db f)"
  by (auto simp: finallyP_def exec_thenP try_finally_def await_def fun_eq_iff split: prod.split sum.split)

lemma exec_ask:
  assumes "perform db st = answered g m" and "\<And>x. f (g x) = Some (h x)"
  shows "exec db (ask st f) = await m (\<lambda>x. resolve (h x))"
  using assms
  by (auto simp: ask_def answered_def await_def resolve_def fun_eq_iff split: prod.split sum.split)

lemma await_answer: "await m (\<lambda>x. resolve x) = m"
  by (auto simp: await_def resolve_def fun_eq_iff split: prod.split sum.split)

lemma exec_statements [simp]:
  "exec db (ask (FindOrderByKey k) as_order) = repo_findOrderByKey db k"
  "exec db (ask (FindUser uid) as_user) = repo_findUser db uid"
  "exec db (ask Connect as_unit) = qr_connect db"
  "exec db (ask StartTransaction as_unit) = qr_startTransaction db"
  "exec db (ask CommitTransaction as_unit) = qr_commitTransaction db"
  "exec db (ask RollbackTransaction as_unit) = qr_rollbackTransaction db"
  "exec db (ask Release as_unit) = qr_release db"
  "exec db (ask (InsertOrder n) as_row) = qr_insertOrder db n"
  "exec db (ask (FindProduct pid) as_product) = qr_findProduct db pid"
  "exec db (ask (SaveProduct p) as_saved) = qr_saveProduct db p"
  "exec db (ask (InsertItem ni) as_item) = qr_insertItem db ni"
  "exec db (ask (FindOrder oid) as_order) = qr_findOrder db oid"
  "exec db (ask (InsertProcessed mid roid h) as_unit) = tx_insertProcessed db mid roid h"
  "exec db (ask (TxFindOrder roid) as_maybe_row) = tx_findOrder db roid"
  "exec db (ask (TxSaveOrder r) as_row) = tx_saveOrder db r"
  by (simp_all add: exec_ask [OF perform.simps(1)] exec_ask [OF perform.simps(2)] exec_ask [OF perform.simps(3)]
      exec_ask [OF perform.simps(4)] exec_ask [OF perform.simps(5)] exec_ask [OF perform.simps(6)]
      exec_ask [OF perform.simps(7)] exec_ask [OF perform.simps(8)] exec_ask [OF perform.simps(9)]
      exec_ask [OF perform.simps(10)] exec_ask [OF perform.simps(11)] exec_ask [OF perform.simps(12)]
      exec_ask [OF perform.simps(13)] exec_ask [OF perform.simps(14)] exec_ask [OF perform.simps(15)]
      await_answer)

lemmas exec_cases = option.case_distrib [where h = "exec db" for db] if_distrib [where f = "exec db" for db]

lemma exec_save_item: "exec db (save_item_prog oid item) = save_item db oid item"
  by (simp add: save_item_prog_def save_item_def exec_cases cong: option.case_cong if_cong)

lemma exec_save_items: "exec db (save_items_prog oid items) = save_items db oid items"
  by (induction items) (simp_all add: exec_save_item)

lemma exec_create_body: "exec db (create_body dto items key) = create_in_transaction db dto items key"
  by (simp add: create_body_def create_in_transaction_def exec_save_items exec_cases cong: option.case_cong)

lemma exec_create_recovery: "exec db (create_recovery key e) = create_failed db key e"
  by (simp add: create_recovery_def create_failed_def exec_cases cong: option.case_cong if_cong)

lemma exec_process: "exec db (process_body at_ms message) = process_in_transaction db at_ms message"
  by (simp add: process_body_def process_in_transaction_def exec_cases cong: option.case_cong if_cong)


end
