(* ===== verification/Interleaving.thy ===== *)
theory Interleaving
  imports Programs
begin

text \<open>
  Many programs at once on one database, statement by statement, at PostgreSQL's level read
  committed: a statement reads the committed rows and its own, and waits while it needs a row or
  a unique key that another transaction holds. What each program guarantees about its commits,
  proved of it alone under what the others may do meanwhile, holds of all of them together: their
  commits happened one after the other.
\<close>

section \<open>Transactions\<close>

text \<open>
  An open transaction keeps the rows it has inserted, updated or locked. A statement that fails
  aborts it, and with it its locks.
\<close>

definition overlay :: "tables \<Rightarrow> tables \<Rightarrow> tables" where
  "overlay T D =
     T\<lparr>t_products := t_products T ++ t_products D, t_orders := t_orders T ++ t_orders D,
       t_items := t_items T ++ t_items D, t_processed := t_processed T ++ t_processed D\<rparr>"

definition own :: "tables txn \<Rightarrow> tables" where
  "own tx = (case tx of Active D \<Rightarrow> D | _ \<Rightarrow> empty_tables)"

text \<open>Two transactions that hold no row and no idempotency key in common.\<close>

definition apart :: "tables \<Rightarrow> tables \<Rightarrow> bool" where
  "apart D E \<longleftrightarrow>
     dom (t_products D) \<inter> dom (t_products E) = {} \<and> dom (t_orders D) \<inter> dom (t_orders E) = {} \<and>
     dom (t_items D) \<inter> dom (t_items E) = {} \<and> dom (t_processed D) \<inter> dom (t_processed E) = {} \<and>
     (\<forall>i r j q k. t_orders D i = Some r \<longrightarrow> t_orders E j = Some q \<longrightarrow>
        o_idempotencyKey r = Some k \<longrightarrow> o_idempotencyKey q \<noteq> Some k)"

text \<open>The answer of a statement: the committed tables and the transaction, before and after.\<close>

fun effect :: "stmt \<Rightarrow> tables \<Rightarrow> tables txn \<Rightarrow> reply \<Rightarrow> tables \<Rightarrow> tables txn \<Rightarrow> bool" where
  "effect (FindOrderByKey k) T tx a T' tx' \<longleftrightarrow>
     T' = T \<and> tx' = tx \<and> (\<exists>v. a = AnOrder v \<and> by_key k T v)"
| "effect (FindUser uid) T tx a T' tx' \<longleftrightarrow> T' = T \<and> tx' = tx \<and> a = AUser (t_users T uid)"
| "effect Connect T tx a T' tx' \<longleftrightarrow> T' = T \<and> tx' = tx \<and> a = AUnit"
| "effect StartTransaction T tx a T' tx' \<longleftrightarrow>
     T' = T \<and> tx = Idle \<and> tx' = Active empty_tables \<and> a = AUnit"
| "effect CommitTransaction T tx a T' tx' \<longleftrightarrow>
     tx \<noteq> Idle \<and> T' = overlay T (own tx) \<and> tx' = Idle \<and> a = AUnit"
| "effect RollbackTransaction T tx a T' tx' \<longleftrightarrow> T' = T \<and> tx' = Idle \<and> a = AUnit"
| "effect Release T tx a T' tx' \<longleftrightarrow> T' = T \<and> tx' = tx \<and> a = AUnit"
| "effect (InsertOrder n) T tx a T' tx' \<longleftrightarrow>
     T' = T \<and> (\<exists>D r V. tx = Active D \<and> a = ARow r \<and> orders_added n (overlay T D) r V \<and>
       tx' = Active (D\<lparr>t_orders := (t_orders D)(o_id r \<mapsto> r)\<rparr>))"
| "effect (FindProduct pid) T tx a T' tx' \<longleftrightarrow>
     T' = T \<and> (\<exists>D v. tx = Active D \<and> a = AProduct v \<and> v = t_products (overlay T D) pid \<and>
       tx' = Active (D\<lparr>t_products :=
         (case v of None \<Rightarrow> t_products D | Some p \<Rightarrow> (t_products D)(pid \<mapsto> p))\<rparr>))"
| "effect (SaveProduct p) T tx a T' tx' \<longleftrightarrow>
     T' = T \<and> (\<exists>D p' V. tx = Active D \<and> a = ASaved p' \<and> product_saved p (overlay T D) p' V \<and>
       tx' = Active (D\<lparr>t_products := (t_products D)(p_id p \<mapsto> p')\<rparr>))"
| "effect (InsertItem n) T tx a T' tx' \<longleftrightarrow>
     T' = T \<and> (\<exists>D it V. tx = Active D \<and> a = AnItem it \<and> item_added n (overlay T D) it V \<and>
       tx' = Active (D\<lparr>t_items := (t_items D)(oi_id it := t_items V (oi_id it))\<rparr>))"
| "effect (FindOrder oid) T tx a T' tx' \<longleftrightarrow>
     T' = T \<and> tx' = tx \<and> (\<exists>D v. tx = Active D \<and> a = AnOrder v \<and> by_id oid (overlay T D) v)"
| "effect (InsertProcessed mid roid h) T tx a T' tx' \<longleftrightarrow>
     T' = T \<and> a = AUnit \<and> (\<exists>D m V. tx = Active D \<and> mid = Some (JStr m) \<and>
       processed_added mid roid h (overlay T D) () V \<and>
       tx' = Active (D\<lparr>t_processed := (t_processed D)(m := t_processed V m)\<rparr>))"
| "effect (TxFindOrder roid) T tx a T' tx' \<longleftrightarrow>
     T' = T \<and> tx' = tx \<and> (\<exists>D oid. tx = Active D \<and> roid = Some (JStr oid) \<and>
       a = AMaybeRow (t_orders (overlay T D) oid))"
| "effect (TxSaveOrder r) T tx a T' tx' \<longleftrightarrow>
     T' = T \<and> (\<exists>D r' V. tx = Active D \<and> a = ARow r' \<and> t_orders (overlay T D) (o_id r) \<noteq> None \<and>
       order_saved r (overlay T D) r' V \<and>
       tx' = Active (D\<lparr>t_orders := (t_orders D)(o_id r \<mapsto> r')\<rparr>))"

text \<open>A failure, of whatever kind: a constraint, a deadlock found, a lost connection.\<close>

fun fails :: "stmt \<Rightarrow> tables txn \<Rightarrow> tables txn \<Rightarrow> bool" where
  "fails RollbackTransaction tx tx' \<longleftrightarrow> tx' = Idle"
| "fails Release tx tx' \<longleftrightarrow> False"
| "fails _ tx tx' \<longleftrightarrow> lost tx tx'"

section \<open>Sessions\<close>

record 'a session =
  se_prog :: "'a prog"
  se_tx :: "tables txn"

type_synonym ('p, 'a) system = "tables \<times> ('p \<Rightarrow> 'a session)"

inductive step :: "'p \<Rightarrow> ('p, 'a) system \<Rightarrow> ('p, 'a) system \<Rightarrow> bool" where
  answer: "se_prog (S p) = Do st k \<Longrightarrow> effect st T (se_tx (S p)) a T' tx' \<Longrightarrow>
     (\<And>q. q \<noteq> p \<Longrightarrow> apart (own tx') (own (se_tx (S q)))) \<Longrightarrow>
     step p (T, S) (T', S(p := \<lparr>se_prog = k (Inr a), se_tx = tx'\<rparr>))"
| failure: "se_prog (S p) = Do st k \<Longrightarrow> fails st (se_tx (S p)) tx' \<Longrightarrow>
     step p (T, S) (T, S(p := \<lparr>se_prog = k (Inl e), se_tx = tx'\<rparr>))"

inductive_cases stepE: "step p (T, S) c"

inductive reaches :: "('p, 'a) system \<Rightarrow> ('p, 'a) system \<Rightarrow> bool" for c where
  start: "reaches c c"
| further: "reaches c d \<Longrightarrow> step p d e \<Longrightarrow> reaches c e"

definition launch :: "('p \<Rightarrow> 'a prog) \<Rightarrow> 'p \<Rightarrow> 'a session" where
  "launch progs p = \<lparr>se_prog = progs p, se_tx = Idle\<rparr>"

lemma launch_simps [simp]: "se_prog (launch progs p) = progs p" "se_tx (launch progs p) = Idle"
  by (simp_all add: launch_def)

section \<open>Rows of one transaction\<close>

lemma overlay_simps [simp]:
  "t_users (overlay T D) = t_users T" "t_files (overlay T D) = t_files T"
  "t_products (overlay T D) = t_products T ++ t_products D"
  "t_orders (overlay T D) = t_orders T ++ t_orders D"
  "t_items (overlay T D) = t_items T ++ t_items D"
  "t_processed (overlay T D) = t_processed T ++ t_processed D"
  by (simp_all add: overlay_def)

lemma empty_tables_simps [simp]:
  "t_products empty_tables = Map.empty" "t_orders empty_tables = Map.empty"
  "t_items empty_tables = Map.empty" "t_processed empty_tables = Map.empty"
  by (simp_all add: empty_tables_def)

lemma overlay_empty [simp]: "overlay T empty_tables = T"
  by (simp add: overlay_def)

lemma own_simps [simp]: "own Idle = empty_tables" "own (Active D) = D" "own (Aborted D) = empty_tables"
  by (simp_all add: own_def)

lemma apart_empty [simp]: "apart D empty_tables" "apart empty_tables D"
  by (simp_all add: apart_def)

lemma apart_sym: "apart D E \<Longrightarrow> apart E D"
  unfolding apart_def by (metis Int_commute)

lemma effect_tables: "effect st T tx a T' tx' \<Longrightarrow> T' = T \<or> T' = overlay T (own tx)"
  by (cases st) auto

lemma own_lost: "lost tx tx' \<Longrightarrow> own tx' = own tx \<or> own tx' = empty_tables"
  by (auto simp: lost_def)

lemma own_fails: "fails st tx tx' \<Longrightarrow> own tx' = own tx \<or> own tx' = empty_tables"
  by (cases st) (auto dest: own_lost)

section \<open>What the others may do\<close>

text \<open>The tables over time: rows of orders and markers stay, with what identifies them.\<close>

definition evolves :: "tables \<Rightarrow> tables \<Rightarrow> bool" where
  "evolves T T' \<longleftrightarrow> (schema_ok T \<longrightarrow> schema_ok T') \<and> t_users T' = t_users T \<and>
     (\<forall>i r. t_orders T i = Some r \<longrightarrow>
        (\<exists>r'. t_orders T' i = Some r' \<and> o_id r' = o_id r \<and> o_userId r' = o_userId r \<and>
           o_idempotencyKey r' = o_idempotencyKey r \<and> o_createdAt r' = o_createdAt r \<and>
           (o_status r = PROCESSED \<longrightarrow> o_status r' = PROCESSED))) \<and>
     dom (t_processed T) \<subseteq> dom (t_processed T')"

text \<open>The rows a transaction holds stay as they are, and a key it has found free stays free.\<close>

definition stays :: "tables \<Rightarrow> tables \<Rightarrow> tables \<Rightarrow> bool" where
  "stays D T T' \<longleftrightarrow>
     (\<forall>i \<in> dom (t_products D). t_products T' i = t_products T i) \<and>
     (\<forall>i \<in> dom (t_orders D). t_orders T' i = t_orders T i) \<and>
     (\<forall>i \<in> dom (t_items D). t_items T' i = t_items T i) \<and>
     (\<forall>i \<in> dom (t_processed D). t_processed T' i = t_processed T i) \<and>
     (\<forall>i r. t_orders D i = Some r \<longrightarrow>
        key_free T (o_idempotencyKey r) i \<longrightarrow> key_free T' (o_idempotencyKey r) i)"

definition rely :: "tables txn \<Rightarrow> tables \<Rightarrow> tables \<Rightarrow> bool" where
  "rely tx T T' \<longleftrightarrow> evolves T T' \<and> stays (own tx) T T'"

lemma evolves_refl [simp]: "evolves T T"
  by (simp add: evolves_def)

lemma evolves_trans:
  assumes "evolves T U" and "evolves U V"
  shows "evolves T V"
proof -
  have "\<exists>r'. t_orders V i = Some r' \<and> o_id r' = o_id r \<and> o_userId r' = o_userId r \<and>
      o_idempotencyKey r' = o_idempotencyKey r \<and> o_createdAt r' = o_createdAt r \<and>
      (o_status r = PROCESSED \<longrightarrow> o_status r' = PROCESSED)" if "t_orders T i = Some r" for i r
  proof -
    from assms(1) that obtain q where "t_orders U i = Some q" "o_id q = o_id r" "o_userId q = o_userId r"
      "o_idempotencyKey q = o_idempotencyKey r" "o_createdAt q = o_createdAt r"
      "o_status r = PROCESSED \<longrightarrow> o_status q = PROCESSED" unfolding evolves_def by blast
    with assms(2) show ?thesis unfolding evolves_def by metis
  qed
  with assms show ?thesis unfolding evolves_def by (intro conjI allI impI) (simp_all, blast)
qed

lemma rely_refl [simp]: "rely tx T T"
  by (simp add: rely_def stays_def)

lemma rely_trans: "rely tx T U \<Longrightarrow> rely tx U V \<Longrightarrow> rely tx T V"
  unfolding rely_def stays_def by (auto dest: evolves_trans)

lemma apart_stays:
  assumes "apart D E"
  shows "stays D T (overlay T E)"
proof -
  have "key_free (overlay T E) (o_idempotencyKey r) i"
    if r: "t_orders D i = Some r" and free: "key_free T (o_idempotencyKey r) i" for i r
    unfolding key_free_def
  proof (intro allI impI)
    fix k j q
    assume q: "o_idempotencyKey r = Some k" "t_orders (overlay T E) j = Some q" "j \<noteq> i"
    from q(2) consider "t_orders E j = Some q" | "t_orders T j = Some q" by (auto simp: map_add_Some_iff)
    then show "o_idempotencyKey q \<noteq> Some k"
    proof cases
      case 1
      with assms r q(1) show ?thesis unfolding apart_def by blast
    next
      case 2
      with free q(1,3) show ?thesis unfolding key_free_def by blast
    qed
  qed
  moreover have "(m ++ e) i = m i" if "dom d \<inter> dom e = {}" "i \<in> dom d" for m d e :: "string \<rightharpoonup> 'z" and i
    using that by (auto simp: map_add_def domIff split: option.split)
  ultimately show ?thesis
    using assms by (auto simp: stays_def apart_def map_add_dom_app_simps disjoint_iff domIff)
qed

section \<open>A program alone, the others around it\<close>

text \<open>What is noted of a commit: at most one, with its effect.\<close>

definition noted :: "(tables \<Rightarrow> 'x \<Rightarrow> tables \<Rightarrow> bool) \<Rightarrow> tables \<Rightarrow> tables \<Rightarrow> 'x option \<Rightarrow> 'x option \<Rightarrow> bool" where
  "noted G T T' c c' \<longleftrightarrow> (T' = T \<and> c' = c) \<or> (\<exists>x. c = None \<and> c' = Some x \<and> G T x T')"

text \<open>
  A program is safe when, whatever the others do before each of its statements, the statement
  meets \<open>A\<close>, a commit has an effect \<open>G\<close>, and the outcome meets \<open>Q\<close>.
\<close>

primrec safe ::
  "(stmt \<Rightarrow> tables txn \<Rightarrow> bool) \<Rightarrow> (tables \<Rightarrow> 'x \<Rightarrow> tables \<Rightarrow> bool) \<Rightarrow> 'a prog \<Rightarrow>
   (exn + 'a \<Rightarrow> tables \<Rightarrow> tables txn \<Rightarrow> 'x option \<Rightarrow> bool) \<Rightarrow> tables \<Rightarrow> tables txn \<Rightarrow> 'x option \<Rightarrow> bool" where
  "safe A G (Return v) Q T tx c \<longleftrightarrow> (\<forall>T'. rely tx T T' \<longrightarrow> schema_ok T' \<longrightarrow> Q v T' tx c)"
| "safe A G (Do st k) Q T tx c \<longleftrightarrow>
     (\<forall>T'. rely tx T T' \<longrightarrow> schema_ok T' \<longrightarrow> A st tx \<and>
        (\<forall>a T'' tx'. effect st T' tx a T'' tx' \<longrightarrow>
           (\<exists>c'. noted G T' T'' c c' \<and> safe A G (k (Inr a)) Q T'' tx' c')) \<and>
        (\<forall>e tx'. fails st tx tx' \<longrightarrow> safe A G (k (Inl e)) Q T' tx' c))"

lemma safe_rely: "safe A G m Q T tx c \<Longrightarrow> rely tx T T' \<Longrightarrow> safe A G m Q T' tx c"
  by (cases m) (auto dest: rely_trans)

lemma safe_later:
  assumes "\<And>T'. rely tx T T' \<Longrightarrow> schema_ok T' \<Longrightarrow> safe A G m Q T' tx c"
  shows "safe A G m Q T tx c"
proof (cases m)
  case (Return v)
  with assms show ?thesis using rely_refl by fastforce
next
  case (Do st k)
  have "A st tx \<and>
        (\<forall>a T'' tx'. effect st T' tx a T'' tx' \<longrightarrow>
           (\<exists>c'. noted G T' T'' c c' \<and> safe A G (k (Inr a)) Q T'' tx' c')) \<and>
        (\<forall>e tx'. fails st tx tx' \<longrightarrow> safe A G (k (Inl e)) Q T' tx' c)"
    if "rely tx T T'" "schema_ok T'" for T'
    using assms [OF that] that(2) rely_refl [of tx T'] unfolding Do safe.simps by blast
  then show ?thesis unfolding Do safe.simps by blast
qed

lemma safe_now:
  assumes "safe A G (Do st k) Q T tx c" and "schema_ok T"
  shows "A st tx"
    and "effect st T tx a T' tx' \<Longrightarrow> \<exists>c'. noted G T T' c c' \<and> safe A G (k (Inr a)) Q T' tx' c'"
    and "fails st tx tx' \<Longrightarrow> safe A G (k (Inl e)) Q T tx' c"
  using assms(1) [unfolded safe.simps, rule_format, OF rely_refl assms(2)] by blast+

lemma safe_thenP:
  "safe A G m (\<lambda>v. safe A G (f v) Q) T tx c \<Longrightarrow> safe A G (thenP m f) Q T tx c"
proof (induction m arbitrary: T tx c)
  case (Return v)
  then show ?case by (auto intro: safe_later)
next
  case (Do st k)
  show ?case
    unfolding thenP.simps safe.simps
  proof (intro allI impI conjI)
    fix T'
    assume T': "rely tx T T'" "schema_ok T'"
    note here = Do.prems [unfolded safe.simps, rule_format, OF T']
    from here show "A st tx" by blast
    show "\<exists>c'. noted G T' T'' c c' \<and> safe A G (thenP (k (Inr a)) f) Q T'' tx' c'"
      if "effect st T' tx a T'' tx'" for a T'' tx'
      using here that Do.IH [OF rangeI] by blast
    show "safe A G (thenP (k (Inl e)) f) Q T' tx' c" if "fails st tx tx'" for e tx'
      using here that Do.IH [OF rangeI] by blast
  qed
qed

lemma safe_weaken:
  assumes "safe A G m Q T tx c" and "\<And>v T tx c. Q v T tx c \<Longrightarrow> schema_ok T \<Longrightarrow> Q' v T tx c"
  shows "safe A G m Q' T tx c"
  using assms(1)
proof (induction m arbitrary: T tx c)
  case (Return v)
  then show ?case by (auto intro: assms(2))
next
  case (Do st k)
  show ?case
    unfolding safe.simps
  proof (intro allI impI conjI)
    fix T'
    assume T': "rely tx T T'" "schema_ok T'"
    note here = Do.prems [unfolded safe.simps, rule_format, OF T']
    from here show "A st tx" by blast
    show "\<exists>c'. noted G T' T'' c c' \<and> safe A G (k (Inr a)) Q' T'' tx' c'"
      if "effect st T' tx a T'' tx'" for a T'' tx'
      using here that Do.IH [OF rangeI] by blast
    show "safe A G (k (Inl e)) Q' T' tx' c" if "fails st tx tx'" for e tx'
      using here that Do.IH [OF rangeI] by blast
  qed
qed

section \<open>All of them\<close>

text \<open>The commits one after the other.\<close>

fun serial :: "('p \<Rightarrow> tables \<Rightarrow> 'x \<Rightarrow> tables \<Rightarrow> bool) \<Rightarrow> tables \<Rightarrow> ('p \<times> 'x) list \<Rightarrow> tables \<Rightarrow> bool" where
  "serial G T [] T' \<longleftrightarrow> T' = T"
| "serial G T ((p, x) # l) T' \<longleftrightarrow> (\<exists>S. G p T x S \<and> serial G S l T')"

lemma serial_snoc: "serial G T (l @ [(p, x)]) T' \<longleftrightarrow> (\<exists>S. serial G T l S \<and> G p S x T')"
  by (induction G T l T' rule: serial.induct) auto

text \<open>What holds between the statements of a system of safe programs.\<close>

definition serialized ::
  "('p \<Rightarrow> stmt \<Rightarrow> tables txn \<Rightarrow> bool) \<Rightarrow> ('p \<Rightarrow> tables \<Rightarrow> 'x \<Rightarrow> tables \<Rightarrow> bool) \<Rightarrow>
   ('p \<Rightarrow> exn + 'a \<Rightarrow> tables \<Rightarrow> tables txn \<Rightarrow> 'x option \<Rightarrow> bool) \<Rightarrow>
   tables \<Rightarrow> ('p, 'a) system \<Rightarrow> ('p \<times> 'x) list \<Rightarrow> bool" where
  "serialized A G Q T0 c l \<longleftrightarrow>
     (case c of (T, S) \<Rightarrow>
        schema_ok T \<and> serial G T0 l T \<and> distinct (map fst l) \<and>
        (\<forall>p q. p \<noteq> q \<longrightarrow> apart (own (se_tx (S p))) (own (se_tx (S q)))) \<and>
        (\<forall>p. safe (A p) (G p) (se_prog (S p)) (Q p) T (se_tx (S p)) (map_of l p)))"

lemma serializedD:
  assumes "serialized A G Q T0 (T, S) l"
  shows "schema_ok T" and "serial G T0 l T" and "distinct (map fst l)"
    and "p \<noteq> q \<Longrightarrow> apart (own (se_tx (S p))) (own (se_tx (S q)))"
    and "safe (A p) (G p) (se_prog (S p)) (Q p) T (se_tx (S p)) (map_of l p)"
  using assms by (simp_all add: serialized_def)

locale serial_effects =
  fixes G :: "'p \<Rightarrow> tables \<Rightarrow> 'x \<Rightarrow> tables \<Rightarrow> bool"
  assumes effect_evolves: "schema_ok T \<Longrightarrow> G p T x T' \<Longrightarrow> evolves T T'"
begin

lemma step_serialized:
  assumes "step p c d" and inv: "serialized A G Q T0 c l"
  shows "\<exists>l'. serialized A G Q T0 d l'"
  using assms(1)
proof cases
  case (answer S st k T a T' tx')
  then have c: "c = (T, S)" and d: "d = (T', S(p := \<lparr>se_prog = k (Inr a), se_tx = tx'\<rparr>))" by simp_all
  have ok: "schema_ok T" and l: "serial G T0 l T" "distinct (map fst l)"
    and sep: "\<And>p q. p \<noteq> q \<Longrightarrow> apart (own (se_tx (S p))) (own (se_tx (S q)))"
    and sf: "\<And>p. safe (A p) (G p) (se_prog (S p)) (Q p) T (se_tx (S p)) (map_of l p)"
    using inv by (auto simp: serialized_def c)
  from safe_now(2) [OF sf [of p, unfolded answer(3)] ok answer(4)] obtain c' where
    c': "noted (G p) T T' (map_of l p) c'" "safe (A p) (G p) (k (Inr a)) (Q p) T' tx' c'" by blast
  let ?S = "S(p := \<lparr>se_prog = k (Inr a), se_tx = tx'\<rparr>)"
  have sep': "apart (own (se_tx (?S i))) (own (se_tx (?S j)))" if "i \<noteq> j" for i j
    using that sep [OF that] answer(5) apart_sym by (cases "i = p"; cases "j = p") auto
  have others: "safe (A q) (G q) (se_prog (S q)) (Q q) T' (se_tx (S q)) (map_of l q)"
    if "q \<noteq> p" and "evolves T T'" for q
  proof (rule safe_rely [OF sf])
    show "rely (se_tx (S q)) T T'"
      using effect_tables [OF answer(4)] that(2) apart_stays [OF sep [OF that(1)], of T]
      by (auto simp: rely_def stays_def)
  qed
  from c'(1) consider (same) "T' = T" "c' = map_of l p"
    | (commit) x where "map_of l p = None" "c' = Some x" "G p T x T'" by (auto simp: noted_def)
  then show ?thesis
  proof cases
    case same
    have "serialized A G Q T0 d l"
      using ok l sep' others c'(2) same by (auto simp: serialized_def d)
    then show ?thesis ..
  next
    case commit
    have ev: "evolves T T'" by (rule effect_evolves [OF ok commit(3)])
    then have "schema_ok T'" using ok by (simp add: evolves_def)
    moreover have "serial G T0 (l @ [(p, x)]) T'" using l(1) commit(3) by (auto simp: serial_snoc)
    moreover have "distinct (map fst (l @ [(p, x)]))" using l(2) commit(1) by (auto simp: map_of_eq_None_iff)
    moreover have "safe (A q) (G q) (se_prog (?S q)) (Q q) T' (se_tx (?S q)) (map_of (l @ [(p, x)]) q)" for q
      using others [OF _ ev, of q] c'(2) commit(1,2) by (auto simp: map_add_def split: option.split)
    ultimately have "serialized A G Q T0 d (l @ [(p, x)])"
      using sep' by (simp add: serialized_def d)
    then show ?thesis ..
  qed
next
  case (failure S st k tx' T e)
  then have c: "c = (T, S)" and d: "d = (T, S(p := \<lparr>se_prog = k (Inl e), se_tx = tx'\<rparr>))" by simp_all
  have ok: "schema_ok T" and sep: "\<And>p q. p \<noteq> q \<Longrightarrow> apart (own (se_tx (S p))) (own (se_tx (S q)))"
    and sf: "\<And>p. safe (A p) (G p) (se_prog (S p)) (Q p) T (se_tx (S p)) (map_of l p)"
    using inv by (auto simp: serialized_def c)
  note safe_now(3) [OF sf [of p, unfolded failure(3)] ok failure(4), of e]
  moreover have "apart (own tx') (own (se_tx (S q)))" if "q \<noteq> p" for q
    using own_fails [OF failure(4)] sep [of p q] that by auto
  ultimately have "serialized A G Q T0 d l"
    using inv apart_sym by (auto simp: serialized_def c d)
  then show ?thesis ..
qed

text \<open>Whatever the order of the statements, the commits are those of a serial run.\<close>

lemma reaches_serialized:
  assumes "reaches (T0, launch progs) c" and "schema_ok T0"
    and "\<And>p. safe (A p) (G p) (progs p) (Q p) T0 Idle None"
  shows "\<exists>l. serialized A G Q T0 c l"
  using assms(1)
proof induction
  case start
  show ?case using assms(2,3) by (intro exI [of _ "[]"]) (simp add: serialized_def)
next
  case (further d p e)
  then show ?case using step_serialized by blast
qed

lemma outcome_serialized:
  assumes "serialized A G Q T0 (T, S) l" and "se_prog (S p) = Return v"
  shows "Q p v T (se_tx (S p)) (map_of l p)"
  using serializedD(5) [OF assms(1), of p, unfolded assms(2)] serializedD(1) [OF assms(1)] by simp

lemma statement_serialized:
  assumes "serialized A G Q T0 (T, S) l" and "se_prog (S p) = Do st k"
  shows "A p st (se_tx (S p))"
  by (rule safe_now(1) [OF serializedD(5) [OF assms(1), of p, unfolded assms(2)] serializedD(1) [OF assms(1)]])

end

end
