(* ===== verification/ConcurrentCreate.thy ===== *)
theory ConcurrentCreate
  imports Interleaving ProcessOrder
begin

text \<open>
  Requests to create orders and messages to process as programs with their effects, and that the
  program of a create is safe: what it commits is an order placed as \<open>create\<close> places it alone.
\<close>

section \<open>Requests\<close>

datatype request =
    CreateOrder create_order_dto "string option"
  | ProcessMessage int json

datatype outcome =
    Created "order \<times> bool"
  | Handled process_tx_result

definition request_prog :: "request \<Rightarrow> outcome prog" where
  "request_prog req =
     (case req of
        CreateOrder dto ik \<Rightarrow> awaitP (create_prog dto ik) (\<lambda>x. returnP (Created x))
      | ProcessMessage at_ms message \<Rightarrow> awaitP (process_prog at_ms message) (\<lambda>x. returnP (Handled x)))"

text \<open>What a commit did: an order placed, or a message marked and its order processed or not.\<close>

datatype deed = Placed order | Marked string string bool

definition marks :: "json \<Rightarrow> int \<Rightarrow> tables \<Rightarrow> string \<Rightarrow> string \<Rightarrow> bool \<Rightarrow> tables \<Rightarrow> bool" where
  "marks message at_ms T m i changed T' \<longleftrightarrow>
     property message ''messageId'' = Some (JStr m) \<and> property message ''orderId'' = Some (JStr i) \<and>
     t_processed T m = None \<and>
     (\<exists>r ts u. t_orders T i = Some r \<and> (\<not> changed \<longrightarrow> o_status r = PROCESSED) \<and>
        T' = (if changed then (marked T m i ts)\<lparr>t_orders := (t_orders T)(i \<mapsto> processed_row at_ms u r)\<rparr>
              else marked T m i ts))"

definition request_items :: "request \<Rightarrow> create_item list" where
  "request_items req = (case req of CreateOrder dto ik \<Rightarrow> (case co_items dto of None \<Rightarrow> [] | Some items \<Rightarrow> items)
     | ProcessMessage at_ms message \<Rightarrow> [])"

definition request_effect :: "request \<Rightarrow> tables \<Rightarrow> deed \<Rightarrow> tables \<Rightarrow> bool" where
  "request_effect req T n T' \<longleftrightarrow>
     (case req of
        CreateOrder dto ik \<Rightarrow> \<exists>x. n = Placed x \<and>
          order_placed T (co_userId dto) (nullish ik (co_idempotencyKey dto)) (request_items req) x T'
      | ProcessMessage at_ms message \<Rightarrow> \<exists>m i changed. n = Marked m i changed \<and> marks message at_ms T m i changed T')"

text \<open>The order in which a request takes its locks: products in the order of the items, once it has inserted its order.\<close>

fun orderly :: "create_item list \<Rightarrow> stmt \<Rightarrow> tables txn \<Rightarrow> bool" where
  "orderly items (FindProduct pid) tx \<longleftrightarrow>
     (\<exists>taken item rest. items = taken @ item # rest \<and> ci_productId item = pid \<and>
        dom (t_products (own tx)) = ci_productId ` set taken \<and> t_processed (own tx) = Map.empty)"
| "orderly items (SaveProduct p) tx \<longleftrightarrow> p_id p \<in> dom (t_products (own tx))"
| "orderly items (InsertOrder n) tx \<longleftrightarrow> own tx = empty_tables"
| "orderly items (InsertProcessed m i h) tx \<longleftrightarrow> own tx = empty_tables"
| "orderly items (TxSaveOrder r) tx \<longleftrightarrow>
     t_products (own tx) = Map.empty \<and> t_orders (own tx) = Map.empty \<and> t_items (own tx) = Map.empty"
| "orderly items _ tx \<longleftrightarrow> True"

section \<open>Rules\<close>

lemma thenP_assoc: "thenP (thenP m f) g = thenP m (\<lambda>v. thenP (f v) g)"
  by (induction m) auto

lemma awaitP_simps [simp]:
  "awaitP (Return (Inl e)) f = Return (Inl e)"
  "awaitP (Return (Inr x)) f = f x"
  "awaitP (returnP x) f = f x"
  "awaitP (throwP e) f = throwP e"
  by (simp_all add: awaitP_def returnP_def throwP_def)

lemma awaitP_assoc: "awaitP (awaitP m f) g = awaitP m (\<lambda>x. awaitP (f x) g)"
  by (auto simp: awaitP_def thenP_assoc intro!: arg_cong [where f = "thenP m"] split: sum.split)

lemma safe_ask:
  assumes "\<And>T'. rely tx T T' \<Longrightarrow> schema_ok T' \<Longrightarrow> A st tx"
    and "\<And>T' a T'' tx'. rely tx T T' \<Longrightarrow> schema_ok T' \<Longrightarrow> effect st T' tx a T'' tx' \<Longrightarrow>
      \<exists>x c'. f a = Some x \<and> noted G T' T'' c c' \<and> safe A G (k x) Q T'' tx' c'"
    and "\<And>T' e tx'. rely tx T T' \<Longrightarrow> schema_ok T' \<Longrightarrow> fails st tx tx' \<Longrightarrow> safe A G (Return (Inl e)) Q T' tx' c"
  shows "safe A G (awaitP (ask st f) k) Q T tx c"
proof -
  have "awaitP (ask st f) k = Do st (\<lambda>v. case v of Inl e \<Rightarrow> Return (Inl e)
      | Inr r \<Rightarrow> (case f r of None \<Rightarrow> Return (Inl (JsError ''reply'')) | Some x \<Rightarrow> k x))"
    by (auto simp: awaitP_def ask_def fun_eq_iff split: sum.split option.split)
  then show ?thesis using assms by simp fastforce
qed

lemma noted_same [simp]: "noted G T T c c"
  by (simp add: noted_def)

text \<open>Outside a transaction, and the end of one.\<close>

lemma lost_cases: "lost tx tx' \<Longrightarrow> tx' = tx \<or> (\<exists>D. tx = Active D \<and> tx' = Aborted D)"
  by (auto simp: lost_def)

section \<open>Inside the transaction of a create\<close>

text \<open>
  The transaction \<open>D\<close> over the committed tables \<open>T\<close>, when the stock of the items \<open>taken\<close> is taken, the rows
  of the items \<open>ins\<close> are inserted, and the products \<open>L\<close> are locked besides.
\<close>

definition in_order ::
  "tables \<Rightarrow> tables \<Rightarrow> new_order \<Rightarrow> order_row \<Rightarrow> create_item list \<Rightarrow> create_item list \<Rightarrow> string set \<Rightarrow> bool" where
  "in_order T D n r taken ins L \<longleftrightarrow>
     orders_added n T r (T\<lparr>t_orders := (t_orders T)(o_id r \<mapsto> r)\<rparr>) \<and>
     t_orders D = [o_id r \<mapsto> r] \<and> t_processed D = Map.empty \<and>
     dom (t_products D) = ci_productId ` set taken \<union> L \<and>
     stock_taken T taken (overlay T D) \<and> (\<forall>i \<in> set taken. 0 < ci_quantity i) \<and>
     (\<exists>rs. t_items D = row_table rs \<and> distinct (map oi_id rs) \<and>
        (\<forall>q \<in> set rs. t_items T (oi_id q) = None \<and> oi_orderId q = o_id r) \<and>
        map item_line rs = map input_line ins)"

lemma in_order_stable:
  assumes D: "in_order T D n r taken ins L" and T': "rely (Active D) T T'"
  shows "in_order T' D n r taken ins L"
proof -
  note d = D [unfolded in_order_def] and s = T' [unfolded rely_def own_simps stays_def]
  have free: "key_free T (o_idempotencyKey r) (o_id r) \<Longrightarrow> key_free T' (o_idempotencyKey r) (o_id r)"
    using d s by simp
  have "t_orders T' (o_id r) = t_orders T (o_id r)" using d s by simp
  with d s free have "orders_added n T' r (T'\<lparr>t_orders := (t_orders T')(o_id r \<mapsto> r)\<rparr>)"
    by (simp add: orders_added_def evolves_def)
  moreover have "stock_taken T' taken (overlay T' D)"
    unfolding stock_taken_def
  proof
    fix pid
    show "case t_products T' pid of
        None \<Rightarrow> t_products (overlay T' D) pid = None \<and> \<not> ordered taken pid
      | Some p \<Rightarrow>
          (\<exists>u. t_products (overlay T' D) pid =
             Some (p\<lparr>p_stock := p_stock p - requested taken pid, p_updatedAt := u\<rparr>)) \<and>
          (ordered taken pid \<longrightarrow> requested taken pid \<le> p_stock p)"
    proof (cases "pid \<in> dom (t_products D)")
      case True
      then have "t_products T' pid = t_products T pid"
        "t_products (overlay T' D) pid = t_products (overlay T D) pid"
        using s by (auto simp: map_add_def)
      note eqs = this
      have "stock_taken T taken (overlay T D)" using d by simp
      from this [unfolded stock_taken_def, rule_format, of pid] show ?thesis unfolding eqs .
    next
      case False
      then have none: "\<not> ordered taken pid" using d by (auto simp: ordered_def)
      have "\<exists>u. p = p\<lparr>p_updatedAt := u\<rparr>" for p :: product_row
        by (rule exI [of _ "p_updatedAt p"]) simp
      with False none show ?thesis
        by (auto simp: map_add_def domIff not_ordered_requested split: option.split)
    qed
  qed
  moreover obtain rs where rs: "t_items D = row_table rs" "distinct (map oi_id rs)"
    "\<forall>q \<in> set rs. t_items T (oi_id q) = None \<and> oi_orderId q = o_id r" "map item_line rs = map input_line ins"
    using d by blast
  moreover have "t_items T' (oi_id q) = None" if "q \<in> set rs" for q
  proof -
    have "oi_id q \<in> dom (t_items D)" using that row_table_None [of rs "oi_id q"] rs(1) by auto
    with s rs(3) that show ?thesis by simp
  qed
  ultimately show ?thesis using d unfolding in_order_def by blast
qed

lemma in_order_products_own:
  assumes "in_order T D n r taken ins L" and "schema_ok T"
  shows "products_own (overlay T D)"
proof (rule products_own_taken)
  show "products_own T" using assms(2) by (simp add: schema_ok_def own_ids_def products_own_def)
  show "stock_taken T taken (overlay T D)" using assms(1) by (simp add: in_order_def)
qed

lemma in_order_lock:
  assumes D: "in_order T D n r taken taken {}" and p: "t_products (overlay T D) pid = Some p"
  shows "in_order T (D\<lparr>t_products := (t_products D)(pid \<mapsto> p)\<rparr>) n r taken taken {pid}"
proof -
  have same: "t_products (overlay T (D\<lparr>t_products := (t_products D)(pid \<mapsto> p)\<rparr>)) = t_products (overlay T D)"
    using p by (auto simp: fun_eq_iff map_add_def)
  have "stock_taken T taken (overlay T (D\<lparr>t_products := (t_products D)(pid \<mapsto> p)\<rparr>))"
    by (rule stock_taken_products [OF _ refl same]) (use D in \<open>simp add: in_order_def\<close>)
  with D show ?thesis by (auto simp: in_order_def)
qed

lemma in_order_take:
  assumes D: "in_order T D n r taken taken {ci_productId item}"
    and p: "t_products D (ci_productId item) = Some p" "0 < ci_quantity item" "ci_quantity item \<le> p_stock p"
    and p': "p' = p\<lparr>p_stock := p_stock p - ci_quantity item, p_updatedAt := u\<rparr>"
  shows "in_order T (D\<lparr>t_products := (t_products D)(ci_productId item \<mapsto> p')\<rparr>) n r (taken @ [item]) taken {}"
proof -
  let ?pid = "ci_productId item"
  let ?D = "D\<lparr>t_products := (t_products D)(?pid \<mapsto> p')\<rparr>"
  have "stock_taken (overlay T D) [item] (overlay T ?D)"
    unfolding stock_taken_def
  proof
    fix pid
    have "\<exists>u. q = q\<lparr>p_updatedAt := u\<rparr>" for q :: product_row
      by (rule exI [of _ "p_updatedAt q"]) simp
    then show "case t_products (overlay T D) pid of
        None \<Rightarrow> t_products (overlay T ?D) pid = None \<and> \<not> ordered [item] pid
      | Some p \<Rightarrow>
          (\<exists>u. t_products (overlay T ?D) pid =
             Some (p\<lparr>p_stock := p_stock p - requested [item] pid, p_updatedAt := u\<rparr>)) \<and>
          (ordered [item] pid \<longrightarrow> requested [item] pid \<le> p_stock p)"
      using p p' by (cases "pid = ?pid") (auto simp: map_add_def split: option.split)
  qed
  with D have "stock_taken T (taken @ [item]) (overlay T ?D)"
    by (auto simp: in_order_def intro: stock_taken_append)
  with D p(2) show ?thesis by (auto simp: in_order_def)
qed

lemma in_order_insert:
  assumes D: "in_order T D n r taken ins {}"
    and it: "item_added \<lparr>ni_orderId = o_id r, ni_productId = ci_productId item, ni_quantity = ci_quantity item,
      ni_priceSnapshot = price\<rparr> (overlay T D) it V"
  shows "in_order T (D\<lparr>t_items := (t_items D)(oi_id it := t_items V (oi_id it))\<rparr>) n r taken (ins @ [item]) {}"
proof -
  from it obtain q where V: "t_items V (oi_id it) = Some (it\<lparr>oi_priceSnapshot := q\<rparr>)"
    "oi_orderId it = o_id r" "oi_productId it = ci_productId item" "oi_quantity it = ci_quantity item"
    "t_items T (oi_id it) = None" "t_items D (oi_id it) = None"
    by (auto simp: item_added_def)
  let ?row = "it\<lparr>oi_priceSnapshot := q\<rparr>"
  from D obtain rs where rs: "t_items D = row_table rs" "distinct (map oi_id rs)"
    "\<forall>q \<in> set rs. t_items T (oi_id q) = None \<and> oi_orderId q = o_id r" "map item_line rs = map input_line ins"
    by (auto simp: in_order_def)
  have new: "oi_id it \<notin> oi_id ` set rs" using V(6) unfolding rs(1) row_table_None .
  then have "row_table (rs @ [?row]) = (row_table rs)(oi_id it \<mapsto> ?row)"
    using row_table_None [of rs "oi_id it"]
    by (auto simp: row_table_def map_add_def fun_eq_iff split: option.split)
  with rs V new have "\<exists>rs'. (t_items D)(oi_id it \<mapsto> ?row) = row_table rs' \<and> distinct (map oi_id rs') \<and>
      (\<forall>q \<in> set rs'. t_items T (oi_id q) = None \<and> oi_orderId q = o_id r) \<and>
      map item_line rs' = map input_line (ins @ [item])"
    by (intro exI [of _ "rs @ [?row]"]) (auto simp: item_line_def input_line_def)
  moreover have "stock_taken T taken (overlay T (D\<lparr>t_items := (t_items D)(oi_id it := Some ?row)\<rparr>))"
    by (rule stock_taken_products [where T = T and T' = "overlay T D"]) (use D in \<open>simp_all add: in_order_def\<close>)
  ultimately show ?thesis using D by (simp add: in_order_def V(1))
qed

lemma in_order_items:
  assumes D: "in_order T D n r taken ins L" and ok: "schema_ok T"
  shows "items_of (overlay T D) (o_id r) = ran (t_items D)"
proof -
  from D obtain rs where rs: "t_items D = row_table rs" "distinct (map oi_id rs)"
    "\<forall>q \<in> set rs. t_items T (oi_id q) = None \<and> oi_orderId q = o_id r" by (auto simp: in_order_def)
  have "t_orders T (o_id r) = None" using D by (simp add: in_order_def orders_added_def)
  moreover have "t_orders T (oi_orderId it) \<noteq> None" if "t_items T i = Some it" for i it
    using ok that by (simp add: schema_ok_def foreign_keys_def)
  ultimately have old: "oi_orderId it \<noteq> o_id r" if "t_items T i = Some it" for i it using that by metis
  have new: "t_items T i = None \<and> oi_orderId it = o_id r" if "t_items D i = Some it" for i it
    using that rs row_table_mem [of rs i it] by auto
  show ?thesis
  proof (intro set_eqI iffI)
    fix it
    assume "it \<in> items_of (overlay T D) (o_id r)"
    then have "\<exists>i. (t_items T ++ t_items D) i = Some it" "oi_orderId it = o_id r"
      unfolding items_of_def ran_def overlay_simps by blast+
    with old show "it \<in> ran (t_items D)" by (auto simp: map_add_Some_iff ran_def)
  next
    fix it
    assume "it \<in> ran (t_items D)"
    then obtain i where "t_items D i = Some it" by (auto simp: ran_def)
    with new show "it \<in> items_of (overlay T D) (o_id r)" by (auto simp: items_of_def ran_def intro!: exI [of _ i])
  qed
qed

lemma in_order_loaded:
  assumes D: "in_order T D n r taken ins L" and ok: "schema_ok T"
  shows "by_id (o_id r) (overlay T D) (Some x) \<longleftrightarrow>
    o_id x = o_id r \<and> order_row.truncate x = r \<and> set (o_items x) = ran (t_items D) \<and> distinct (o_items x)"
  using in_order_items [OF assms] D by (auto simp: by_id_def loaded_def in_order_def)

lemma in_order_placed:
  assumes D: "in_order T D n r items items {}" and ok: "schema_ok T"
    and n: "n = \<lparr>no_userId = userId, no_status = PENDING, no_idempotencyKey = key\<rparr>"
    and x: "by_id (o_id r) (overlay T D) (Some x)"
  shows "order_placed T userId key items x (overlay T D)"
proof -
  let ?T = "T\<lparr>t_orders := (t_orders T)(o_id r \<mapsto> r)\<rparr>"
  from D obtain rs where rs: "t_items D = row_table rs" "distinct (map oi_id rs)"
    "\<forall>q \<in> set rs. t_items T (oi_id q) = None \<and> oi_orderId q = o_id r" "map item_line rs = map input_line items"
    by (auto simp: in_order_def)
  have "stock_taken ?T items (overlay T D)"
    by (rule stock_taken_products [where T = T and T' = "overlay T D"]) (use D in \<open>simp_all add: in_order_def\<close>)
  with rs D have placed: "placed_items ?T (o_id r) items rs (overlay T D)"
    by (auto simp: placed_items_def in_order_def overlay_def)
  have "orders_added n T r ?T" using D unfolding in_order_def by (rule conjunct1)
  from placed_order [OF ok this placed x n] show ?thesis .
qed

section \<open>A create is safe\<close>

lemma safe_throw:
  assumes "\<And>T tx. Q (Inl e) T tx c"
  shows "safe A G (Return (Inl e)) Q T tx c"
  by (simp add: assms)

lemma safe_insert_item:
  assumes D: "in_order T D n r (taken @ [item]) taken {}"
    and fail: "\<And>e T tx. Q (Inl e) T tx None"
    and cont: "\<And>T D it. in_order T D n r (taken @ [item]) (taken @ [item]) {} \<Longrightarrow>
      safe (orderly items) G (k it) Q T (Active D) None"
  shows "safe (orderly items) G (awaitP (ask (InsertItem
    \<lparr>ni_orderId = o_id r, ni_productId = ci_productId item, ni_quantity = ci_quantity item,
     ni_priceSnapshot = ci_priceSnapshot item\<rparr>) as_item) k) Q T (Active D) None"
proof (rule safe_ask)
  fix T' a T'' tx'
  assume T': "rely (Active D) T T'" and eff: "effect (InsertItem
    \<lparr>ni_orderId = o_id r, ni_productId = ci_productId item, ni_quantity = ci_quantity item,
     ni_priceSnapshot = ci_priceSnapshot item\<rparr>) T' (Active D) a T'' tx'"
  from eff obtain it V where it: "a = AnItem it" "T'' = T'"
    "item_added \<lparr>ni_orderId = o_id r, ni_productId = ci_productId item, ni_quantity = ci_quantity item,
      ni_priceSnapshot = ci_priceSnapshot item\<rparr> (overlay T' D) it V"
    "tx' = Active (D\<lparr>t_items := (t_items D)(oi_id it := t_items V (oi_id it))\<rparr>)" by auto
  from cont [OF in_order_insert [OF in_order_stable [OF D T'] it(3)]] it
  show "\<exists>x c'. as_item a = Some x \<and> noted G T' T'' None c' \<and> safe (orderly items) G (k x) Q T'' tx' c'"
    by (intro exI conjI) auto
qed (simp, simp add: fail safe_throw)

lemma safe_take_stock:
  assumes D: "in_order T D n r taken taken {ci_productId item}" and p: "t_products D (ci_productId item) = Some p"
    and own: "p_id p = ci_productId item"
    and fail: "\<And>e T tx. Q (Inl e) T tx None"
    and cont: "\<And>T D it. in_order T D n r (taken @ [item]) (taken @ [item]) {} \<Longrightarrow>
      safe (orderly items) G (k it) Q T (Active D) None"
    and q: "0 < ci_quantity item" "ci_quantity item \<le> p_stock p"
  shows "safe (orderly items) G (awaitP (ask (SaveProduct (p\<lparr>p_stock := p_stock p - ci_quantity item\<rparr>)) as_saved)
    (\<lambda>_. awaitP (ask (InsertItem
      \<lparr>ni_orderId = o_id r, ni_productId = ci_productId item, ni_quantity = ci_quantity item,
       ni_priceSnapshot = ci_priceSnapshot item\<rparr>) as_item) k)) Q T (Active D) None"
proof (rule safe_ask)
  fix T' a T'' tx'
  assume T': "rely (Active D) T T'"
    and eff: "effect (SaveProduct (p\<lparr>p_stock := p_stock p - ci_quantity item\<rparr>)) T' (Active D) a T'' tx'"
  from eff obtain u where u: "T'' = T'"
    "a = ASaved (p\<lparr>p_stock := p_stock p - ci_quantity item, p_updatedAt := u\<rparr>)"
    "tx' = Active (D\<lparr>t_products := (t_products D)(ci_productId item \<mapsto>
      p\<lparr>p_stock := p_stock p - ci_quantity item, p_updatedAt := u\<rparr>)\<rparr>)"
    by (auto simp: product_saved_def own)
  from safe_insert_item [OF in_order_take [OF in_order_stable [OF D T'] p q refl, of u] fail cont]
  have "safe (orderly items) G (awaitP (ask (InsertItem
      \<lparr>ni_orderId = o_id r, ni_productId = ci_productId item, ni_quantity = ci_quantity item,
       ni_priceSnapshot = ci_priceSnapshot item\<rparr>) as_item) k) Q T'' tx' None"
    unfolding u(1,3) .
  with u show "\<exists>x c'. as_saved a = Some x \<and> noted G T' T'' None c' \<and> safe (orderly items) G
      (awaitP (ask (InsertItem
        \<lparr>ni_orderId = o_id r, ni_productId = ci_productId item, ni_quantity = ci_quantity item,
         ni_priceSnapshot = ci_priceSnapshot item\<rparr>) as_item) k) Q T'' tx' c'"
    by (intro exI conjI) auto
qed (use p own in auto, simp add: fail safe_throw)

lemma safe_save_item:
  assumes D: "in_order T D n r taken taken {}" and items: "items = taken @ item # rest"
    and fail: "\<And>e T tx. Q (Inl e) T tx None"
    and cont: "\<And>T D it. in_order T D n r (taken @ [item]) (taken @ [item]) {} \<Longrightarrow>
      safe (orderly items) G (k it) Q T (Active D) None"
  shows "safe (orderly items) G (awaitP (save_item_prog (o_id r) item) k) Q T (Active D) None"
  unfolding save_item_prog_def awaitP_assoc
proof (rule safe_ask)
  show "orderly items (FindProduct (ci_productId item)) (Active D)"
    using D items by (auto simp: in_order_def)
next
  fix T' a T'' tx'
  assume T': "rely (Active D) T T'" "schema_ok T'"
    and eff: "effect (FindProduct (ci_productId item)) T' (Active D) a T'' tx'"
  note D' = in_order_stable [OF D T'(1)]
  let ?v = "t_products (overlay T' D) (ci_productId item)"
  let ?k = "\<lambda>product. awaitP (case product of
         None \<Rightarrow> throwP (NotFoundException ''Product not found'')
       | Some p \<Rightarrow>
           if ci_quantity item \<le> 0 then
             throwP (BadRequestException ''Quantity must be greater than zero'')
           else if p_stock p < ci_quantity item then
             throwP (ConflictException ''Insufficient stock'')
           else
             awaitP (ask (SaveProduct (p\<lparr>p_stock := p_stock p - ci_quantity item\<rparr>)) as_saved) (\<lambda>_.
             ask (InsertItem
               \<lparr>ni_orderId = o_id r, ni_productId = ci_productId item,
                ni_quantity = ci_quantity item, ni_priceSnapshot = ci_priceSnapshot item\<rparr>) as_item)) k"
  have "safe (orderly items) G (?k ?v) Q T'' tx' None"
  proof (cases ?v)
    case None
    show ?thesis unfolding None by (simp add: throwP_def safe_throw fail)
  next
    case (Some p)
    with eff have T'': "T'' = T'" and tx': "tx' = Active (D\<lparr>t_products := (t_products D)(ci_productId item \<mapsto> p)\<rparr>)"
      by auto
    have own: "p_id p = ci_productId item"
      using in_order_products_own [OF D' T'(2)] Some by (simp add: products_own_def)
    show ?thesis
    proof (cases "0 < ci_quantity item \<and> ci_quantity item \<le> p_stock p")
      case True
      have "safe (orderly items) G (awaitP (ask (SaveProduct (p\<lparr>p_stock := p_stock p - ci_quantity item\<rparr>)) as_saved)
        (\<lambda>_. awaitP (ask (InsertItem
          \<lparr>ni_orderId = o_id r, ni_productId = ci_productId item, ni_quantity = ci_quantity item,
           ni_priceSnapshot = ci_priceSnapshot item\<rparr>) as_item) k)) Q T'' tx' None"
        unfolding T'' tx'
        by (rule safe_take_stock [OF in_order_lock [OF D' Some] _ own fail cont]) (use True in simp_all)
      with True show ?thesis unfolding Some by (simp add: awaitP_assoc)
    next
      case False
      then show ?thesis unfolding Some by (auto simp: throwP_def safe_throw fail)
    qed
  qed
  with eff show "\<exists>x c'. as_product a = Some x \<and> noted G T' T'' None c' \<and> safe (orderly items) G (?k x) Q T'' tx' c'"
    by (intro exI conjI) auto
qed (simp add: fail safe_throw)

lemma safe_save_items:
  assumes "in_order T D n r taken taken {}" and "items = taken @ rest"
    and "\<And>e T tx. Q (Inl e) T tx None"
    and "\<And>T D its. in_order T D n r items items {} \<Longrightarrow> safe (orderly items) G (k its) Q T (Active D) None"
  shows "safe (orderly items) G (awaitP (save_items_prog (o_id r) rest) k) Q T (Active D) None"
  using assms
proof (induction rest arbitrary: taken T D k)
  case Nil
  then show ?case by simp
next
  case (Cons item rest)
  show ?case
    unfolding save_items_prog.simps awaitP_assoc
  proof (rule safe_save_item [OF Cons.prems(1,2), where Q = Q, OF Cons.prems(3)])
    fix T D it
    assume "in_order T D n r (taken @ [item]) (taken @ [item]) {}"
    from Cons.IH [where k = "\<lambda>its. k (it # its)", OF this _ Cons.prems(3)] Cons.prems(2,4)
    show "safe (orderly items) G (awaitP (save_items_prog (o_id r) rest)
        (\<lambda>savedItems. awaitP (returnP (it # savedItems)) k)) Q T (Active D) None" by simp
  qed
qed

text \<open>The end of the body: reloading the order, and the commit.\<close>

definition commit_order :: "order \<Rightarrow> order prog" where
  "commit_order created = awaitP (ask CommitTransaction as_unit) (\<lambda>_. returnP created)"

definition reload_order :: "string \<Rightarrow> order prog" where
  "reload_order oid = awaitP (ask (FindOrder oid) as_order) (\<lambda>createdOrder. case createdOrder of
     None \<Rightarrow> throwP (NotFoundException ''Order not found after creation'')
   | Some created \<Rightarrow> commit_order created)"

lemma safe_commit_order:
  assumes D: "in_order T D \<lparr>no_userId = co_userId dto, no_status = PENDING,
      no_idempotencyKey = nullish ik (co_idempotencyKey dto)\<rparr> r items items {}" and ok: "schema_ok T"
    and x: "by_id (o_id r) (overlay T D) (Some x)" and items: "request_items (CreateOrder dto ik) = items"
    and fail: "\<And>e T tx. Q (Inl e) T tx None" and good: "\<And>T. Q (Inr x) T Idle (Some (Placed x))"
  shows "safe (orderly items) (request_effect (CreateOrder dto ik)) (commit_order x) Q T (Active D) None"
  unfolding commit_order_def
proof (rule safe_ask)
  let ?G = "request_effect (CreateOrder dto ik)"
  fix U b U' tx'
  assume U: "rely (Active D) T U" "schema_ok U" and c: "effect CommitTransaction U (Active D) b U' tx'"
  note D' = in_order_stable [OF D U(1)]
  from x have "by_id (o_id r) (overlay U D) (Some x)"
    unfolding in_order_loaded [OF D ok] in_order_loaded [OF D' U(2)] .
  from in_order_placed [OF D' U(2) refl this] c have "?G U (Placed x) U'"
    by (simp add: request_effect_def items)
  with c show "\<exists>y c'. as_unit b = Some y \<and> noted ?G U U' None c' \<and> safe (orderly items) ?G (returnP x) Q U' tx' c'"
    by (intro exI [of _ "()"] exI [of _ "Some (Placed x)"]) (auto simp: noted_def returnP_def good)
qed (simp_all add: fail)

lemma safe_reload_order:
  assumes D: "in_order T D \<lparr>no_userId = co_userId dto, no_status = PENDING,
      no_idempotencyKey = nullish ik (co_idempotencyKey dto)\<rparr> r items items {}"
    and items: "request_items (CreateOrder dto ik) = items"
    and fail: "\<And>e T tx. Q (Inl e) T tx None" and good: "\<And>x T. Q (Inr x) T Idle (Some (Placed x))"
  shows "safe (orderly items) (request_effect (CreateOrder dto ik)) (reload_order (o_id r)) Q T (Active D) None"
  unfolding reload_order_def
proof (rule safe_ask)
  let ?G = "request_effect (CreateOrder dto ik)"
  let ?k = "\<lambda>v. case v of None \<Rightarrow> throwP (NotFoundException ''Order not found after creation'')
      | Some created \<Rightarrow> commit_order created"
  fix U b U' tx'
  assume U: "rely (Active D) T U" "schema_ok U" and f: "effect (FindOrder (o_id r)) U (Active D) b U' tx'"
  from f obtain v where v: "b = AnOrder v" "by_id (o_id r) (overlay U D) v" "U' = U" "tx' = Active D" by auto
  have "safe (orderly items) ?G (?k v) Q U (Active D) None"
  proof (cases v)
    case (Some x)
    from safe_commit_order [OF in_order_stable [OF D U(1)] U(2) v(2) [unfolded Some] items, where Q = Q, OF fail good]
    show ?thesis unfolding Some by simp
  qed (simp add: throwP_def fail)
  with v show "\<exists>y c'. as_order b = Some y \<and> noted ?G U U' None c' \<and> safe (orderly items) ?G (?k y) Q U' tx' c'"
    by (intro exI [of _ v] exI [of _ None]) simp
qed (simp_all add: fail)

text \<open>The body: it fails, or commits the order it answers.\<close>

lemma create_body_prog: "create_body dto items key =
  awaitP (ask (InsertOrder \<lparr>no_userId = co_userId dto, no_status = PENDING, no_idempotencyKey = key\<rparr>) as_row)
    (\<lambda>savedOrder. awaitP (save_items_prog (o_id savedOrder) items) (\<lambda>_. reload_order (o_id savedOrder)))"
  by (simp add: create_body_def reload_order_def commit_order_def cong: option.case_cong)

lemma safe_create_body:
  assumes items: "request_items (CreateOrder dto ik) = items" and key: "key = nullish ik (co_idempotencyKey dto)"
    and fail: "\<And>e T tx. Q (Inl e) T tx None" and good: "\<And>x T. Q (Inr x) T Idle (Some (Placed x))"
  shows "safe (orderly items) (request_effect (CreateOrder dto ik)) (create_body dto items key) Q T (Active empty_tables) None"
  unfolding create_body_prog
proof (rule safe_ask)
  let ?n = "\<lparr>no_userId = co_userId dto, no_status = PENDING, no_idempotencyKey = key\<rparr>"
  let ?G = "request_effect (CreateOrder dto ik)"
  fix T' a T'' tx'
  assume eff: "effect (InsertOrder ?n) T' (Active empty_tables) a T'' tx'"
  then obtain r where r: "a = ARow r" "T'' = T'" "tx' = Active (empty_tables\<lparr>t_orders := [o_id r \<mapsto> r]\<rparr>)"
    "orders_added ?n T' r (T'\<lparr>t_orders := (t_orders T')(o_id r \<mapsto> r)\<rparr>)"
    by (auto simp: orders_added_def)
  have "stock_taken T' [] (overlay T' (empty_tables\<lparr>t_orders := [o_id r \<mapsto> r]\<rparr>))"
    by (rule stock_taken_products [OF stock_taken_refl [of T']]) simp_all
  with r have start: "in_order T' (empty_tables\<lparr>t_orders := [o_id r \<mapsto> r]\<rparr>) ?n r [] [] {}"
    by (auto simp: in_order_def intro!: exI [of _ "[]"])
  have "safe (orderly items) ?G (awaitP (save_items_prog (o_id r) items) (\<lambda>_. reload_order (o_id r))) Q T'' tx' None"
    unfolding r(2,3)
  proof (rule safe_save_items [OF start])
    show "safe (orderly items) ?G (reload_order (o_id r)) Q T (Active D) None"
      if "in_order T D ?n r items items {}" for T D
      by (rule safe_reload_order [OF that [unfolded key] items, where Q = Q, OF fail good])
  qed (simp_all add: fail)
  with r(1,2) show "\<exists>x c'. as_row a = Some x \<and> noted ?G T' T'' None c' \<and> safe (orderly items) ?G
      (awaitP (save_items_prog (o_id x) items) (\<lambda>_. reload_order (o_id x))) Q T'' tx' c'"
    by (intro exI [of _ r] exI [of _ None]) simp
qed (simp_all add: fail)

text \<open>The outcome of a create, and what was committed for it.\<close>

definition create_settled ::
  "string option \<Rightarrow> exn + order \<times> bool \<Rightarrow> tables \<Rightarrow> tables txn \<Rightarrow> deed option \<Rightarrow> bool" where
  "create_settled key v T tx c \<longleftrightarrow> tx = Idle \<and>
     (case v of
        Inl e \<Rightarrow> c = None
      | Inr (x, wasDuplicate) \<Rightarrow>
          if wasDuplicate
          then c = None \<and> truthy key \<and> (\<exists>r. t_orders T (o_id x) = Some r \<and> o_idempotencyKey r = key)
          else c = Some (Placed x))"

lemma create_settled_simps [simp]:
  "create_settled key (Inl e) T tx c \<longleftrightarrow> tx = Idle \<and> c = None"
  "create_settled key (Inr (x, False)) T tx c \<longleftrightarrow> tx = Idle \<and> c = Some (Placed x)"
  "create_settled key (Inr (x, True)) T tx c \<longleftrightarrow> tx = Idle \<and> c = None \<and> truthy key \<and>
     (\<exists>r. t_orders T (o_id x) = Some r \<and> o_idempotencyKey r = key)"
  by (simp_all add: create_settled_def)

lemma evolves_key:
  assumes "evolves T T'" and "t_orders T i = Some r"
  shows "\<exists>r'. t_orders T' i = Some r' \<and> o_idempotencyKey r' = o_idempotencyKey r"
  using assms unfolding evolves_def by blast

text \<open>A key found answers the order that has it.\<close>

lemma safe_found:
  assumes "truthy key" and "by_key (the key) T (Some x)"
  shows "safe A G (returnP (x, True)) (create_settled key) T Idle None"
proof -
  from assms have "t_orders T (o_id x) = Some (order_row.truncate x)" "o_idempotencyKey x = key"
    by (auto simp: by_key_def loaded_def elim!: truthyE)
  with evolves_key assms(1) show ?thesis
    by (fastforce simp: returnP_def rely_def)
qed

lemma safe_create_recovery:
  "safe (orderly items) G (create_recovery key e) (create_settled key) T tx None"
  unfolding create_recovery_def
proof (rule safe_ask)
  fix T' a T'' tx'
  assume eff: "effect RollbackTransaction T' tx a T'' tx'"
  let ?find = "awaitP (ask (FindOrderByKey (the key)) as_order) (\<lambda>existingOrder.
    case existingOrder of Some x \<Rightarrow> returnP (x, True) | None \<Rightarrow> throwP e)"
  have "safe (orderly items) G ?find (create_settled key) T' Idle None" if key: "truthy key"
  proof (rule safe_ask)
    fix U b U' tx'
    assume "effect (FindOrderByKey (the key)) U Idle b U' tx'"
    then obtain v where v: "b = AnOrder v" "by_key (the key) U v" "U' = U" "tx' = Idle" by auto
    with safe_found [OF key] show "\<exists>y c'. as_order b = Some y \<and> noted G U U' None c' \<and>
        safe (orderly items) G (case y of Some x \<Rightarrow> returnP (x, True) | None \<Rightarrow> throwP e) (create_settled key) U' tx' c'"
      by (intro exI [of _ v] exI [of _ None]) (cases v; simp add: throwP_def)
  qed simp_all
  moreover have "safe (orderly items) G (throwP e) (create_settled key) T' Idle None" by (simp add: throwP_def)
  ultimately show "\<exists>y c'. as_unit a = Some y \<and> noted G T' T'' None c' \<and> safe (orderly items) G
      (if isUniqueViolation e \<and> truthy key then ?find else throwP e) (create_settled key) T'' tx' c'"
    using eff by (intro exI [of _ "()"] exI [of _ None]) simp
qed simp_all

lemma safe_release:
  assumes "\<And>U. rely tx T U \<Longrightarrow> Q v U tx c"
  shows "safe (orderly items) G (awaitP (ask Release as_unit) (\<lambda>_. Return v)) Q T tx c"
  by (rule safe_ask) (auto intro!: exI [of _ c] assms dest: rely_trans)

lemma create_settled_stable:
  assumes "create_settled key v T tx c" and "rely tx T U"
  shows "create_settled key v U tx c"
proof (cases v)
  case (Inr p)
  moreover obtain x dup where "p = (x, dup)" by fastforce
  ultimately show ?thesis
    using assms evolves_key [of T U "o_id x"] by (cases dup) (auto simp: rely_def)
qed (use assms in simp)

lemma safe_create_attempt:
  assumes items: "request_items (CreateOrder dto ik) = items" and key: "key = nullish ik (co_idempotencyKey dto)"
  shows "safe (orderly items) (request_effect (CreateOrder dto ik)) (create_attempt dto items key)
    (create_settled key) T Idle None"
  unfolding create_attempt_def
proof (rule safe_ask)
  let ?G = "request_effect (CreateOrder dto ik)"
  let ?run = "finallyP (catchP (awaitP (create_body dto items key) (\<lambda>created. returnP (created, False)))
      (create_recovery key)) (ask Release as_unit)"
  have body: "safe (orderly items) ?G ?run (create_settled key) T (Active empty_tables) None" for T
    unfolding finallyP_def catchP_def awaitP_def [of "create_body dto items key"]
  proof (intro safe_thenP, rule safe_create_body [OF items key])
    let ?last = "\<lambda>v. safe (orderly items) ?G (awaitP (ask Release as_unit) (\<lambda>_. Return v)) (create_settled key)"
    have ending: "?last v T tx c" if "create_settled key v T tx c" for v T tx c
      using that by (intro safe_release) (rule create_settled_stable)
    have after: "safe (orderly items) ?G (create_recovery key e) ?last T tx None" for e T tx
      by (rule safe_weaken [OF safe_create_recovery]) (rule ending)
    have kept: "safe (orderly items) ?G (Return (Inr (x, False))) ?last T Idle (Some (Placed x))" for x T
      by (simp add: ending)
    show "safe (orderly items) ?G (case Inl e of Inl e \<Rightarrow> Return (Inl e) | Inr created \<Rightarrow> returnP (created, False))
        (\<lambda>v. safe (orderly items) ?G (case v of Inl e \<Rightarrow> create_recovery key e | Inr x \<Rightarrow> Return (Inr x)) ?last) T tx None"
      for e T tx by (simp add: after)
    show "safe (orderly items) ?G (case Inr x of Inl e \<Rightarrow> Return (Inl e) | Inr created \<Rightarrow> returnP (created, False))
        (\<lambda>v. safe (orderly items) ?G (case v of Inl e \<Rightarrow> create_recovery key e | Inr x \<Rightarrow> Return (Inr x)) ?last)
        T Idle (Some (Placed x))" for x T
      using kept by (simp add: returnP_def)
  qed
  fix T' a T'' tx'
  assume "effect Connect T' Idle a T'' tx'"
  moreover have "safe (orderly items) ?G (awaitP (ask StartTransaction as_unit) (\<lambda>_. ?run)) (create_settled key) T' Idle None" for T'
    by (rule safe_ask) (auto intro!: exI [of _ None] body)
  ultimately show "\<exists>y c'. as_unit a = Some y \<and> noted ?G T' T'' None c' \<and> safe (orderly items) ?G
      (awaitP (ask StartTransaction as_unit) (\<lambda>_. ?run)) (create_settled key) T'' tx' c'"
    by (intro exI [of _ "()"] exI [of _ None]) simp
qed simp_all

text \<open>The checks before the transaction.\<close>

definition checked_create :: "create_order_dto \<Rightarrow> string option \<Rightarrow> (order \<times> bool) prog" where
  "checked_create dto key =
     (case co_items dto of
        None \<Rightarrow> throwP (BadRequestException ''Order items cannot be empty'')
      | Some items \<Rightarrow>
          if items = [] then throwP (BadRequestException ''Order items cannot be empty'')
          else awaitP (ask (FindUser (co_userId dto)) as_user) (\<lambda>user. case user of
              None \<Rightarrow> throwP (NotFoundException ''User not found'')
            | Some u \<Rightarrow> create_attempt dto items key))"

lemma safe_throw_create: "safe A G (throwP e) (create_settled key) T Idle None"
  by (simp add: throwP_def)

lemma safe_checked_create:
  assumes key: "key = nullish ik (co_idempotencyKey dto)"
  shows "safe (orderly (request_items (CreateOrder dto ik))) (request_effect (CreateOrder dto ik))
    (checked_create dto key) (create_settled key) T Idle None"
proof -
  let ?items = "request_items (CreateOrder dto ik)" and ?G = "request_effect (CreateOrder dto ik)"
  have user: "safe (orderly ?items) ?G (awaitP (ask (FindUser (co_userId dto)) as_user) (\<lambda>user. case user of
            None \<Rightarrow> throwP (NotFoundException ''User not found'')
          | Some u \<Rightarrow> create_attempt dto ?items key)) (create_settled key) T Idle None"
  proof (rule safe_ask)
    fix T' a T'' tx'
    assume "effect (FindUser (co_userId dto)) T' Idle a T'' tx'"
    then show "\<exists>y c'. as_user a = Some y \<and> noted ?G T' T'' None c' \<and> safe (orderly ?items) ?G (case y of
            None \<Rightarrow> throwP (NotFoundException ''User not found'')
          | Some u \<Rightarrow> create_attempt dto ?items key) (create_settled key) T'' tx' c'"
      by (intro exI [of _ "t_users T' (co_userId dto)"] exI [of _ None])
        (auto split: option.split intro: safe_throw_create safe_create_attempt [OF refl key])
  qed simp_all
  show ?thesis
  proof (cases "co_items dto")
    case None
    show ?thesis unfolding checked_create_def None option.case by (rule safe_throw_create)
  next
    case (Some items)
    then have items: "?items = items" by (simp add: request_items_def)
    from user show ?thesis
      unfolding checked_create_def Some option.case items
      by (cases "items = []") (simp_all only: if_True if_False refl safe_throw_create)
  qed
qed

lemma create_prog_checks: "create_prog dto ik =
  (let key = nullish ik (co_idempotencyKey dto) in
   awaitP (if truthy key then ask (FindOrderByKey (the key)) as_order else returnP None)
     (\<lambda>existingOrder. case existingOrder of Some x \<Rightarrow> returnP (x, True) | None \<Rightarrow> checked_create dto key))"
  by (simp add: create_prog_def checked_create_def Let_def cong: option.case_cong if_cong)

lemma safe_create:
  "safe (orderly (request_items (CreateOrder dto ik))) (request_effect (CreateOrder dto ik)) (create_prog dto ik)
     (create_settled (nullish ik (co_idempotencyKey dto))) T Idle None"
proof -
  let ?key = "nullish ik (co_idempotencyKey dto)" and ?items = "request_items (CreateOrder dto ik)"
    and ?G = "request_effect (CreateOrder dto ik)"
  note checked = safe_checked_create [OF refl]
  have "safe (orderly ?items) ?G (awaitP (ask (FindOrderByKey (the ?key)) as_order) (\<lambda>existingOrder.
      case existingOrder of Some x \<Rightarrow> returnP (x, True) | None \<Rightarrow> checked_create dto ?key)) (create_settled ?key) T Idle None"
    if key: "truthy ?key"
  proof (rule safe_ask)
    fix T' a T'' tx'
    assume "effect (FindOrderByKey (the ?key)) T' Idle a T'' tx'"
    then obtain v where v: "a = AnOrder v" "by_key (the ?key) T' v" "T'' = T'" "tx' = Idle" by auto
    have "safe (orderly ?items) ?G (case v of Some x \<Rightarrow> returnP (x, True) | None \<Rightarrow> checked_create dto ?key)
        (create_settled ?key) T' Idle None"
      using safe_found [OF key] v(2) checked by (cases v) simp_all
    with v show "\<exists>y c'. as_order a = Some y \<and> noted ?G T' T'' None c' \<and> safe (orderly ?items) ?G
        (case y of Some x \<Rightarrow> returnP (x, True) | None \<Rightarrow> checked_create dto ?key) (create_settled ?key) T'' tx' c'"
      by (intro exI [of _ v] exI [of _ None]) simp
  qed simp_all
  with checked show ?thesis unfolding create_prog_checks Let_def by (cases "truthy ?key") simp_all
qed

end
