(* ===== verification/ConcurrentMessages.thy ===== *)
theory ConcurrentMessages
  imports ConcurrentCreate
begin

text \<open>
  The program of a message is safe: what it commits is the marker, with the order processed or
  found processed.
\<close>

section \<open>Processing a message is safe\<close>

text \<open>A transaction around a safe callback.\<close>

lemma safe_transaction:
  assumes body: "\<And>T. safe A G m (\<lambda>v T tx c. c = None \<and> (\<forall>x. v = Inr x \<longrightarrow> R x T tx)) T (Active empty_tables) None"
    and statements: "\<And>tx. A StartTransaction tx \<and> A CommitTransaction tx \<and> A RollbackTransaction tx \<and> A Release tx"
    and stable: "\<And>x T tx U. R x T tx \<Longrightarrow> rely tx T U \<Longrightarrow> R x U tx"
    and commit: "\<And>x T tx. R x T tx \<Longrightarrow> schema_ok T \<Longrightarrow>
      \<exists>c'. noted G T (overlay T (own tx)) None c' \<and> (\<forall>U. Q (Inr x) U Idle c')"
    and fail: "\<And>e U. Q (Inl e) U Idle None"
  shows "safe A G (transaction_prog m) Q T Idle None"
  unfolding transaction_prog_def
proof (rule safe_ask)
  fix T' a T'' tx'
  let ?run = "finallyP (catchP (awaitP m (\<lambda>x. awaitP (ask CommitTransaction as_unit) (\<lambda>_. returnP x)))
      (\<lambda>e. thenP (ask RollbackTransaction as_unit) (\<lambda>_. throwP e))) (ask Release as_unit)"
  let ?last = "\<lambda>v. safe A G (awaitP (ask Release as_unit) (\<lambda>_. Return v)) Q"
  have ending: "?last v T Idle c" if "\<And>U. Q v U Idle c" for v T c
    by (rule safe_ask) (auto simp: that statements intro!: exI [of _ c])
  have rollback: "safe A G (thenP (ask RollbackTransaction as_unit) (\<lambda>_. throwP e)) ?last T tx None" for e T tx
  proof -
    have "?last (Inl e) U Idle None" for U by (rule ending) (rule fail)
    then show ?thesis by (auto simp: ask_def throwP_def statements noted_def)
  qed
  have settle: "safe A G (awaitP (ask CommitTransaction as_unit) (\<lambda>_. returnP x))
      (\<lambda>v. safe A G (case v of Inl e \<Rightarrow> thenP (ask RollbackTransaction as_unit) (\<lambda>_. throwP e) | Inr x \<Rightarrow> Return (Inr x)) ?last)
      T tx None" if R: "R x T tx" for x T tx
  proof (rule safe_ask)
    fix U b U' tx'
    assume U: "rely tx T U" "schema_ok U" and c: "effect CommitTransaction U tx b U' tx'"
    from commit [OF stable [OF R U(1)] U(2)] obtain c' where
      c': "noted G U (overlay U (own tx)) None c'" "\<And>V. Q (Inr x) V Idle c'" by blast
    have "?last (Inr x) V Idle c'" for V by (rule ending) (rule c'(2))
    with c c'(1) show "\<exists>y c'. as_unit b = Some y \<and> noted G U U' None c' \<and> safe A G (returnP x)
        (\<lambda>v. safe A G (case v of Inl e \<Rightarrow> thenP (ask RollbackTransaction as_unit) (\<lambda>_. throwP e) | Inr x \<Rightarrow> Return (Inr x)) ?last)
        U' tx' c'"
      by (intro exI [of _ "()"] exI [of _ c']) (simp add: returnP_def)
  qed (simp_all add: statements rollback)
  have "safe A G ?run Q T (Active empty_tables) None" for T
    unfolding finallyP_def catchP_def awaitP_def [of m]
    by (intro safe_thenP, rule safe_weaken [OF body])
      (auto split: sum.split simp: rollback settle)
  moreover assume "effect StartTransaction T' Idle a T'' tx'"
  ultimately show "\<exists>y c'. as_unit a = Some y \<and> noted G T' T'' None c' \<and> safe A G ?run Q T'' tx' c'"
    by (intro exI [of _ "()"] exI [of _ None]) simp
qed (simp_all add: statements fail)

text \<open>The transaction once the marker is inserted, and when the callback has resolved.\<close>

definition in_message :: "tables \<Rightarrow> tables \<Rightarrow> string \<Rightarrow> string \<Rightarrow> int \<Rightarrow> bool" where
  "in_message T D m i ts \<longleftrightarrow>
     t_processed T m = None \<and> t_orders T i \<noteq> None \<and>
     t_processed D = [m \<mapsto> \<lparr>pm_messageId = m, pm_orderId = i, pm_handler = Some ''orders.process'', pm_processedAt = ts\<rparr>] \<and>
     t_products D = Map.empty \<and> t_items D = Map.empty"

definition message_done :: "json \<Rightarrow> int \<Rightarrow> process_tx_result \<Rightarrow> tables \<Rightarrow> tables txn \<Rightarrow> bool" where
  "message_done message at_ms res T tx \<longleftrightarrow>
     (if ptr_deduplicated res then own tx = empty_tables
      else \<exists>D m i ts. tx = Active D \<and> property message ''messageId'' = Some (JStr m) \<and>
        property message ''orderId'' = Some (JStr i) \<and> in_message T D m i ts \<and>
        (if ptr_statusChanged res
         then \<exists>q u. t_orders T i = Some q \<and> t_orders D = [i \<mapsto> processed_row at_ms u q]
         else t_orders D = Map.empty \<and> (\<exists>q. t_orders T i = Some q \<and> o_status q = PROCESSED)))"

lemma evolves_orders:
  assumes "evolves T T'" and "t_orders T i = Some r"
  shows "\<exists>r'. t_orders T' i = Some r' \<and> (o_status r = PROCESSED \<longrightarrow> o_status r' = PROCESSED)"
  using assms unfolding evolves_def by blast

text \<open>What the processing of an order sets is set on the row as it is by then.\<close>

lemma evolves_processed_row:
  assumes "evolves T T'" and "t_orders T i = Some r"
  shows "\<exists>r'. t_orders T' i = Some r' \<and> processed_row at_ms u r' = processed_row at_ms u r"
proof -
  from assms obtain r' where "t_orders T' i = Some r'" "o_id r' = o_id r" "o_userId r' = o_userId r"
    "o_idempotencyKey r' = o_idempotencyKey r" "o_createdAt r' = o_createdAt r" unfolding evolves_def by blast
  then show ?thesis by (intro exI [of _ r']) (auto simp: processed_row_def intro: order_row.equality)
qed

lemma in_message_stable:
  assumes "in_message T D m i ts" and "rely (Active D) T U"
  shows "in_message U D m i ts"
  using assms evolves_orders [of T U i] by (auto simp: in_message_def rely_def stays_def)

lemma message_done_stable:
  assumes "message_done message at_ms res T tx" and U: "rely tx T U"
  shows "message_done message at_ms res U tx"
proof (cases "ptr_deduplicated res")
  case True
  with assms(1) show ?thesis by (simp add: message_done_def)
next
  case False
  with assms(1) obtain D m i ts where D: "tx = Active D" "property message ''messageId'' = Some (JStr m)"
    "property message ''orderId'' = Some (JStr i)" "in_message T D m i ts"
    and orders: "if ptr_statusChanged res
         then \<exists>q u. t_orders T i = Some q \<and> t_orders D = [i \<mapsto> processed_row at_ms u q]
         else t_orders D = Map.empty \<and> (\<exists>q. t_orders T i = Some q \<and> o_status q = PROCESSED)"
    by (auto simp: message_done_def)
  have "t_orders U i = t_orders T i" if "i \<in> dom (t_orders D)"
    using U that by (simp add: D(1) rely_def stays_def)
  with orders evolves_orders [of T U i] U have "if ptr_statusChanged res
         then \<exists>q u. t_orders U i = Some q \<and> t_orders D = [i \<mapsto> processed_row at_ms u q]
         else t_orders D = Map.empty \<and> (\<exists>q. t_orders U i = Some q \<and> o_status q = PROCESSED)"
    by (cases "ptr_statusChanged res") (auto simp: rely_def)
  with False D in_message_stable [OF D(4) U [unfolded D(1)]] show ?thesis by (auto simp: message_done_def)
qed

lemma message_done_marks:
  assumes "message_done message at_ms res T tx" and "\<not> ptr_deduplicated res"
  shows "\<exists>m i. property message ''messageId'' = Some (JStr m) \<and>
    marks message at_ms T m i (ptr_statusChanged res) (overlay T (own tx))"
proof -
  from assms obtain D m i ts where D: "tx = Active D" "property message ''messageId'' = Some (JStr m)"
    "property message ''orderId'' = Some (JStr i)" "in_message T D m i ts"
    and orders: "if ptr_statusChanged res
         then \<exists>q u. t_orders T i = Some q \<and> t_orders D = [i \<mapsto> processed_row at_ms u q]
         else t_orders D = Map.empty \<and> (\<exists>q. t_orders T i = Some q \<and> o_status q = PROCESSED)"
    by (auto simp: message_done_def)
  show ?thesis
  proof (cases "ptr_statusChanged res")
    case True
    with orders obtain q u where "t_orders T i = Some q" "t_orders D = [i \<mapsto> processed_row at_ms u q]" by auto
    with True D show ?thesis
      by (intro exI [of _ m] exI [of _ i])
        (auto simp: marks_def in_message_def marked_def overlay_def intro!: exI [of _ q] exI [of _ ts] exI [of _ u])
  next
    case False
    with orders D show ?thesis
      by (intro exI [of _ m] exI [of _ i])
        (auto simp: marks_def in_message_def marked_def overlay_def intro!: exI [of _ ts])
  qed
qed

text \<open>From the marker on.\<close>

lemma safe_save_order:
  assumes D: "in_message T D m i ts" "t_orders D = Map.empty"
    and props: "property message ''messageId'' = Some (JStr m)" "property message ''orderId'' = Some (JStr i)"
    and r: "t_orders T i = Some r" "o_id r = i"
  shows "safe (orderly items) G (awaitP (ask (TxSaveOrder (r\<lparr>o_status := PROCESSED, o_processedAt := Some at_ms\<rparr>)) as_row)
    (\<lambda>savedOrder. returnP \<lparr>ptr_deduplicated = False, ptr_order = Some savedOrder, ptr_statusChanged = True\<rparr>))
    (\<lambda>v T tx c. c = None \<and> (\<forall>x. v = Inr x \<longrightarrow> message_done message at_ms x T tx)) T (Active D) None"
proof (rule safe_ask)
  let ?r = "r\<lparr>o_status := PROCESSED, o_processedAt := Some at_ms\<rparr>"
  fix U a U' tx'
  assume U: "rely (Active D) T U" "schema_ok U" and eff: "effect (TxSaveOrder ?r) U (Active D) a U' tx'"
  from eff D(2) r(2) obtain u where u: "U' = U" "a = ARow (processed_row at_ms u r)"
    "tx' = Active (D\<lparr>t_orders := [i \<mapsto> processed_row at_ms u r]\<rparr>)"
    by (auto simp: order_saved_def processed_row_def)
  from U(1) obtain q where q: "t_orders U i = Some q" "processed_row at_ms u q = processed_row at_ms u r"
    using evolves_processed_row [OF _ r(1)] unfolding rely_def by blast
  from in_message_stable [OF D(1) U(1)] q props have "message_done message at_ms
      \<lparr>ptr_deduplicated = False, ptr_order = Some (processed_row at_ms u r), ptr_statusChanged = True\<rparr> U tx'"
    by (auto simp: message_done_def u(3) in_message_def intro!: exI [of _ u])
  with u(1,2) message_done_stable show "\<exists>x c'. as_row a = Some x \<and> noted G U U' None c' \<and> safe (orderly items) G
      (returnP \<lparr>ptr_deduplicated = False, ptr_order = Some x, ptr_statusChanged = True\<rparr>)
      (\<lambda>v T tx c. c = None \<and> (\<forall>x. v = Inr x \<longrightarrow> message_done message at_ms x T tx)) U' tx' c'"
    by (intro exI conjI) (auto simp: returnP_def)
qed (use D in \<open>auto simp: in_message_def\<close>)

definition process_marked :: "int \<Rightarrow> json \<Rightarrow> process_tx_result prog" where
  "process_marked processedAt message =
     awaitP (ask (TxFindOrder (property message ''orderId'')) as_maybe_row) (\<lambda>order.
       case order of
         None \<Rightarrow> throwP (NotFoundException ''Order not found'')
       | Some r \<Rightarrow>
           if o_status r = PROCESSED then
             returnP \<lparr>ptr_deduplicated = False, ptr_order = Some r, ptr_statusChanged = False\<rparr>
           else
             awaitP (ask (TxSaveOrder (r\<lparr>o_status := PROCESSED, o_processedAt := Some processedAt\<rparr>)) as_row)
               (\<lambda>savedOrder. returnP \<lparr>ptr_deduplicated = False, ptr_order = Some savedOrder, ptr_statusChanged = True\<rparr>))"

lemma safe_process_marked:
  assumes D: "in_message T D m i ts" "t_orders D = Map.empty"
    and props: "property message ''messageId'' = Some (JStr m)" "property message ''orderId'' = Some (JStr i)"
  shows "safe (orderly items) G (process_marked at_ms message)
    (\<lambda>v T tx c. c = None \<and> (\<forall>x. v = Inr x \<longrightarrow> message_done message at_ms x T tx)) T (Active D) None"
  unfolding process_marked_def
proof (rule safe_ask)
  let ?Q = "\<lambda>v T tx c. c = None \<and> (\<forall>x. v = Inr x \<longrightarrow> message_done message at_ms x T tx)"
  let ?k = "\<lambda>order. case order of
         None \<Rightarrow> throwP (NotFoundException ''Order not found'')
       | Some r \<Rightarrow>
           if o_status r = PROCESSED then
             returnP \<lparr>ptr_deduplicated = False, ptr_order = Some r, ptr_statusChanged = False\<rparr>
           else
             awaitP (ask (TxSaveOrder (r\<lparr>o_status := PROCESSED, o_processedAt := Some at_ms\<rparr>)) as_row)
               (\<lambda>savedOrder. returnP \<lparr>ptr_deduplicated = False, ptr_order = Some savedOrder, ptr_statusChanged = True\<rparr>)"
  fix U a U' tx'
  assume U: "rely (Active D) T U" "schema_ok U"
    and eff: "effect (TxFindOrder (property message ''orderId'')) U (Active D) a U' tx'"
  note D' = in_message_stable [OF D(1) U(1)]
  from D' obtain r where r: "t_orders U i = Some r" by (auto simp: in_message_def)
  have "safe (orderly items) G (?k (Some r)) ?Q U (Active D) None"
  proof (cases "o_status r = PROCESSED")
    case True
    have "message_done message at_ms
        \<lparr>ptr_deduplicated = False, ptr_order = Some r, ptr_statusChanged = False\<rparr> U (Active D)"
      using D' D(2) props r True by (auto simp: message_done_def)
    with True message_done_stable show ?thesis by (auto simp: returnP_def)
  next
    case False
    with safe_save_order [OF D' D(2) props r own_ids_order [OF U(2) r], where items = items and G = G and at_ms = at_ms]
    show ?thesis by simp
  qed
  with eff D(2) props(2) r show "\<exists>x c'. as_maybe_row a = Some x \<and> noted G U U' None c' \<and> safe (orderly items) G (?k x) ?Q U' tx' c'"
    by (intro exI [of _ "Some r"] exI [of _ None]) auto
qed simp_all

lemma safe_process_body:
  "safe (orderly items) G (process_body at_ms message)
    (\<lambda>v T tx c. c = None \<and> (\<forall>x. v = Inr x \<longrightarrow> message_done message at_ms x T tx)) T (Active empty_tables) None"
proof -
  let ?Q = "\<lambda>v T tx c. c = None \<and> (\<forall>x. v = Inr x \<longrightarrow> message_done message at_ms x T tx)"
  let ?mid = "property message ''messageId''" and ?oid = "property message ''orderId''"
  let ?dup = "\<lparr>ptr_deduplicated = True, ptr_order = None, ptr_statusChanged = False\<rparr>"
  have prog: "process_body at_ms message = Do (InsertProcessed ?mid ?oid ''orders.process'') (\<lambda>v. case v of
      Inl e \<Rightarrow> if isUniqueViolation e then returnP ?dup else throwP e
    | Inr a \<Rightarrow> if as_unit a = None then (if isUniqueViolation (JsError ''reply'') then returnP ?dup else throwP (JsError ''reply''))
        else process_marked at_ms message)"
    by (auto simp: process_body_def process_marked_def awaitP_def catchP_def ask_def returnP_def throwP_def
        fun_eq_iff split: sum.split option.split)
  show ?thesis
    unfolding prog safe.simps
  proof (intro allI impI conjI)
    fix U
    assume U: "rely (Active empty_tables) T U" "schema_ok U"
    show "orderly items (InsertProcessed ?mid ?oid ''orders.process'') (Active empty_tables)" by simp
    show "\<exists>c'. noted G U U' None c' \<and> safe (orderly items) G (case Inr a of
          Inl e \<Rightarrow> if isUniqueViolation e then returnP ?dup else throwP e
        | Inr a \<Rightarrow> if as_unit a = None then (if isUniqueViolation (JsError ''reply'') then returnP ?dup else throwP (JsError ''reply''))
            else process_marked at_ms message) ?Q U' tx' c'"
      if "effect (InsertProcessed ?mid ?oid ''orders.process'') U (Active empty_tables) a U' tx'" for a U' tx'
    proof -
      from that obtain m i ts where ins: "U' = U" "a = AUnit" "?mid = Some (JStr m)" "?oid = Some (JStr i)"
        "t_processed U m = None" "t_orders U i \<noteq> None"
        "tx' = Active (empty_tables\<lparr>t_processed := [m \<mapsto>
          \<lparr>pm_messageId = m, pm_orderId = i, pm_handler = Some ''orders.process'', pm_processedAt = ts\<rparr>]\<rparr>)"
        by (auto simp: processed_added_def)
      have "in_message U (empty_tables\<lparr>t_processed := [m \<mapsto>
          \<lparr>pm_messageId = m, pm_orderId = i, pm_handler = Some ''orders.process'', pm_processedAt = ts\<rparr>]\<rparr>) m i ts"
        using ins by (simp add: in_message_def)
      from safe_process_marked [OF this _ ins(3,4), where items = items and G = G and at_ms = at_ms] ins show ?thesis
        by (intro exI [of _ None]) simp
    qed
    show "safe (orderly items) G (case Inl e of
          Inl e \<Rightarrow> if isUniqueViolation e then returnP ?dup else throwP e
        | Inr a \<Rightarrow> if as_unit a = None then (if isUniqueViolation (JsError ''reply'') then returnP ?dup else throwP (JsError ''reply''))
            else process_marked at_ms message) ?Q U tx' None"
      if "fails (InsertProcessed ?mid ?oid ''orders.process'') (Active empty_tables) tx'" for e tx'
    proof -
      have "own tx' = empty_tables" using own_fails [OF that] by auto
      then have "message_done message at_ms ?dup V tx'" for V by (simp add: message_done_def)
      then show ?thesis by (auto simp: returnP_def throwP_def)
    qed
  qed
qed

text \<open>The outcome of a message, and what was committed for it.\<close>

definition process_settled :: "json \<Rightarrow> exn + process_tx_result \<Rightarrow> tables txn \<Rightarrow> deed option \<Rightarrow> bool" where
  "process_settled message v tx c \<longleftrightarrow> tx = Idle \<and>
     (case v of
        Inl e \<Rightarrow> c = None
      | Inr res \<Rightarrow>
          if ptr_deduplicated res then c = None
          else \<exists>m i. property message ''messageId'' = Some (JStr m) \<and> c = Some (Marked m i (ptr_statusChanged res)))"

lemma safe_process:
  "safe (orderly items) (request_effect (ProcessMessage at_ms message)) (process_prog at_ms message)
     (\<lambda>v T tx c. process_settled message v tx c) T Idle None"
  unfolding process_prog_def
proof (rule safe_transaction [where R = "message_done message at_ms", OF safe_process_body])
  fix x T tx
  assume x: "message_done message at_ms x T tx"
  show "\<exists>c'. noted (request_effect (ProcessMessage at_ms message)) T (overlay T (own tx)) None c' \<and>
      (\<forall>U. process_settled message (Inr x) Idle c')"
  proof (cases "ptr_deduplicated x")
    case True
    with x show ?thesis
      by (intro exI [of _ None]) (simp add: message_done_def process_settled_def)
  next
    case False
    from message_done_marks [OF x False] obtain m i where "property message ''messageId'' = Some (JStr m)"
      "marks message at_ms T m i (ptr_statusChanged x) (overlay T (own tx))" by blast
    with False show ?thesis
      by (intro exI [of _ "Some (Marked m i (ptr_statusChanged x))"])
        (auto simp: noted_def request_effect_def process_settled_def)
  qed
qed (simp_all add: process_settled_def message_done_stable)

end
