(* ===== verification/ConcurrentOrders.thy ===== *)
theory ConcurrentOrders
  imports ConcurrentMessages
begin

text \<open>
  All requests at once: each is safe, so that the system of them is serial in its commits, and what
  follows of two entries of its log.
\<close>

section \<open>Every request is safe\<close>

fun request_settled :: "request \<Rightarrow> exn + outcome \<Rightarrow> tables \<Rightarrow> tables txn \<Rightarrow> deed option \<Rightarrow> bool" where
  "request_settled (CreateOrder dto ik) v T tx c \<longleftrightarrow>
     (case v of
        Inl e \<Rightarrow> create_settled (nullish ik (co_idempotencyKey dto)) (Inl e) T tx c
      | Inr (Created x) \<Rightarrow> create_settled (nullish ik (co_idempotencyKey dto)) (Inr x) T tx c
      | Inr (Handled res) \<Rightarrow> False)"
| "request_settled (ProcessMessage at_ms message) v T tx c \<longleftrightarrow>
     (case v of
        Inl e \<Rightarrow> process_settled message (Inl e) tx c
      | Inr (Created x) \<Rightarrow> False
      | Inr (Handled res) \<Rightarrow> process_settled message (Inr res) tx c)"

lemma safe_map:
  assumes "safe A G m Q T tx c"
    and "\<And>v T tx c U. Q v T tx c \<Longrightarrow> rely tx T U \<Longrightarrow> Q v U tx c"
    and "\<And>e T tx c. Q (Inl e) T tx c \<Longrightarrow> Q' (Inl e) T tx c"
    and "\<And>x T tx c. Q (Inr x) T tx c \<Longrightarrow> Q' (Inr (f x)) T tx c"
  shows "safe A G (awaitP m (\<lambda>x. returnP (f x))) Q' T tx c"
  unfolding awaitP_def
  by (rule safe_thenP, rule safe_weaken [OF assms(1)])
    (auto simp: returnP_def split: sum.split intro: assms(2-4))

lemma safe_request:
  "safe (orderly (request_items req)) (request_effect req) (request_prog req) (request_settled req) T Idle None"
proof (cases req)
  case (CreateOrder dto ik)
  show ?thesis
    unfolding CreateOrder request_prog_def request.case
    by (rule safe_map [OF safe_create create_settled_stable]) simp_all
next
  case (ProcessMessage at_ms message)
  show ?thesis
    unfolding ProcessMessage request_prog_def request.case
    by (rule safe_map [OF safe_process]) simp_all
qed

section \<open>The effects\<close>

lemma placed_evolves:
  assumes "order_placed T userId key items x T'" and "schema_ok T"
  shows "evolves T T'"
proof -
  have "t_orders T' = (t_orders T)(o_id x \<mapsto> order_row.truncate x)" "t_orders T (o_id x) = None"
    "t_users T' = t_users T" "t_processed T' = t_processed T"
    using assms(1) by (simp_all add: order_placed_def)
  with placed_schema_ok [OF assms] show ?thesis by (auto simp: evolves_def)
qed

lemma marks_evolves:
  assumes "marks message at_ms T m i changed T'" and ok: "schema_ok T"
  shows "evolves T T'"
proof -
  from assms(1) obtain r ts u where r: "t_orders T i = Some r" and T': "T' =
      (if changed then (marked T m i ts)\<lparr>t_orders := (t_orders T)(i \<mapsto> processed_row at_ms u r)\<rparr> else marked T m i ts)"
    by (auto simp: marks_def)
  have "schema_ok T'"
    using marked_schema_ok [OF ok, of i m ts] marked_processed_schema_ok [OF ok r] r T' by simp
  with r T' show ?thesis by (auto simp: evolves_def processed_row_def marked_def)
qed

lemma request_evolves:
  assumes "schema_ok T" and "request_effect req T d T'"
  shows "evolves T T'"
  using assms by (cases req) (auto simp: request_effect_def placed_evolves marks_evolves)

interpretation requests: serial_effects "\<lambda>p. request_effect (reqs p)" for reqs :: "'p \<Rightarrow> request"
  by unfold_locales (rule request_evolves)

text \<open>The system of all the requests, and where it can get.\<close>

definition requests_reach :: "('p \<Rightarrow> request) \<Rightarrow> tables \<Rightarrow> tables \<Rightarrow> ('p \<Rightarrow> outcome session) \<Rightarrow> bool" where
  "requests_reach reqs T0 T S \<longleftrightarrow> reaches (T0, launch (\<lambda>p. request_prog (reqs p))) (T, S)"

definition commits :: "('p \<Rightarrow> request) \<Rightarrow> tables \<Rightarrow> ('p \<times> deed) list \<Rightarrow> tables \<Rightarrow> bool" where
  "commits reqs = serial (\<lambda>p. request_effect (reqs p))"

lemma requests_serialized:
  assumes "requests_reach reqs T0 T S" and "schema_ok T0"
  obtains l where "serialized (\<lambda>p. orderly (request_items (reqs p))) (\<lambda>p. request_effect (reqs p))
      (\<lambda>p. request_settled (reqs p)) T0 (T, S) l"
  using requests.reaches_serialized [OF assms(1) [unfolded requests_reach_def] assms(2),
      where A = "\<lambda>p. orderly (request_items (reqs p))" and Q = "\<lambda>p. request_settled (reqs p)", OF safe_request] by blast

lemma commits_Cons: "commits reqs T ((p, d) # l) T' \<longleftrightarrow> (\<exists>S. request_effect (reqs p) T d S \<and> commits reqs S l T')"
  by (simp add: commits_def)

lemma commits_evolves: "commits reqs T l T' \<Longrightarrow> schema_ok T \<Longrightarrow> evolves T T' \<and> schema_ok T'"
proof (induction l arbitrary: T)
  case (Cons a l)
  obtain p d where a: "a = (p, d)" by fastforce
  with Cons.prems obtain S where S: "request_effect (reqs p) T d S" "commits reqs S l T'" by (auto simp: commits_Cons)
  from request_evolves [OF Cons.prems(2) S(1)] have e: "evolves T S" .
  with Cons.prems(2) have "schema_ok S" by (simp add: evolves_def)
  with Cons.IH [OF S(2)] evolves_trans [OF e] show ?case by blast
qed (simp add: commits_def)

text \<open>An entry of the log, and two of them.\<close>

lemma commits_entry:
  assumes "commits reqs T l T'" and "schema_ok T" and "(p, d) \<in> set l"
  shows "\<exists>U V. schema_ok U \<and> request_effect (reqs p) U d V \<and> evolves T U \<and> evolves V T'"
  using assms
proof (induction l arbitrary: T)
  case (Cons a l)
  obtain q e where a: "a = (q, e)" by fastforce
  with Cons.prems(1) obtain S where S: "request_effect (reqs q) T e S" "commits reqs S l T'" by (auto simp: commits_Cons)
  from request_evolves [OF Cons.prems(2) S(1)] have ev: "evolves T S" .
  with Cons.prems(2) have ok: "schema_ok S" by (simp add: evolves_def)
  show ?case
  proof (cases "(p, d) = (q, e)")
    case True
    with S(1) Cons.prems(2) commits_evolves [OF S(2) ok] show ?thesis
      by (intro exI [of _ T] exI [of _ S]) auto
  next
    case False
    with Cons.prems(3) a have "(p, d) \<in> set l" by auto
    from Cons.IH [OF S(2) ok this] evolves_trans [OF ev] show ?thesis by blast
  qed
qed simp

lemma commits_pair:
  assumes "commits reqs T l T'" and "schema_ok T" and "(p, d) \<in> set l" and "(q, e) \<in> set l" and "p \<noteq> q"
  shows "\<exists>U V U' V'. evolves V U' \<and>
    (request_effect (reqs p) U d V \<and> request_effect (reqs q) U' e V' \<or>
     request_effect (reqs q) U e V \<and> request_effect (reqs p) U' d V')"
  using assms
proof (induction l arbitrary: T)
  case (Cons a l)
  obtain s f where a: "a = (s, f)" by fastforce
  with Cons.prems(1) obtain S where S: "request_effect (reqs s) T f S" "commits reqs S l T'" by (auto simp: commits_Cons)
  from request_evolves [OF Cons.prems(2) S(1)] Cons.prems(2) have ok: "schema_ok S" by (simp add: evolves_def)
  consider "(p, d) = (s, f)" "(q, e) \<in> set l" | "(q, e) = (s, f)" "(p, d) \<in> set l" | "(p, d) \<in> set l" "(q, e) \<in> set l"
    using Cons.prems(3-5) a by auto
  then show ?case
  proof cases
    case 1
    with S(1) commits_entry [OF S(2) ok 1(2)] show ?thesis by blast
  next
    case 2
    with S(1) commits_entry [OF S(2) ok 2(2)] show ?thesis by blast
  next
    case 3
    from Cons.IH [OF S(2) ok 3 Cons.prems(5)] show ?thesis .
  qed
qed simp

end
