(* ===== verification/ConcurrentLocks.thy ===== *)
theory ConcurrentLocks
  imports ConcurrentOrders
begin

text \<open>
  Who waits for whom: what a statement needs of another transaction, and that creates whose items
  name the products in one common order, with any messages, never wait in a circle.
\<close>

section \<open>Waiting\<close>

text \<open>A row or key of the transaction \<open>E\<close> that holds up a statement.\<close>

definition holds_key :: "tables \<Rightarrow> string option \<Rightarrow> bool" where
  "holds_key E key \<longleftrightarrow> (\<exists>k i r. key = Some k \<and> t_orders E i = Some r \<and> o_idempotencyKey r = Some k)"

fun needs :: "stmt \<Rightarrow> tables \<Rightarrow> bool" where
  "needs (InsertOrder n) E \<longleftrightarrow> holds_key E (no_idempotencyKey n)"
| "needs (FindProduct pid) E \<longleftrightarrow> pid \<in> dom (t_products E)"
| "needs (SaveProduct p) E \<longleftrightarrow> p_id p \<in> dom (t_products E)"
| "needs (InsertProcessed mid roid h) E \<longleftrightarrow> (\<exists>m. mid = Some (JStr m) \<and> m \<in> dom (t_processed E))"
| "needs (TxSaveOrder r) E \<longleftrightarrow> o_id r \<in> dom (t_orders E) \<or> holds_key E (o_idempotencyKey r)"
| "needs _ E \<longleftrightarrow> False"

definition waits_for :: "('p \<Rightarrow> 'a session) \<Rightarrow> ('p \<times> 'p) set" where
  "waits_for S = {(p, q). p \<noteq> q \<and> (\<exists>st k. se_prog (S p) = Do st k \<and> needs st (own (se_tx (S q))))}"

text \<open>
  Nothing else holds a statement up: one that needs nothing of \<open>E\<close> stays apart from it, when the
  identifiers of the rows it inserts are new.
\<close>

lemma apart_put:
  "apart D E \<Longrightarrow> i \<notin> dom (t_products E) \<Longrightarrow> apart (D\<lparr>t_products := (t_products D)(i \<mapsto> p)\<rparr>) E"
  "apart D E \<Longrightarrow> j \<notin> dom (t_items E) \<Longrightarrow> apart (D\<lparr>t_items := (t_items D)(j \<mapsto> it)\<rparr>) E"
  "apart D E \<Longrightarrow> m \<notin> dom (t_processed E) \<Longrightarrow> apart (D\<lparr>t_processed := (t_processed D)(m \<mapsto> pm)\<rparr>) E"
  by (simp_all add: apart_def)

lemma apart_put_order:
  assumes "apart D E" and "i \<notin> dom (t_orders E)" and "\<not> holds_key E (o_idempotencyKey r)"
  shows "apart (D\<lparr>t_orders := (t_orders D)(i \<mapsto> r)\<rparr>) E"
  using assms by (simp add: apart_def holds_key_def)

lemma needs_apart:
  assumes eff: "effect st T tx a T' tx'" and free: "\<not> needs st E" and sep: "apart (own tx) E"
    and new: "\<And>n r. st = InsertOrder n \<Longrightarrow> a = ARow r \<Longrightarrow> o_id r \<notin> dom (t_orders E)"
      "\<And>it. a = AnItem it \<Longrightarrow> oi_id it \<notin> dom (t_items E)"
  shows "apart (own tx') E"
proof (cases st)
  case (InsertOrder n)
  with eff obtain D r where r: "tx = Active D" "tx' = Active (D\<lparr>t_orders := (t_orders D)(o_id r \<mapsto> r)\<rparr>)"
    "a = ARow r" "o_idempotencyKey r = no_idempotencyKey n" by (auto simp: orders_added_def)
  with new(1) [OF InsertOrder r(3)] sep free InsertOrder show ?thesis by (simp add: apart_put_order)
next
  case (FindProduct pid)
  with eff obtain D where D: "tx = Active D" "tx' = Active (D\<lparr>t_products :=
      (case t_products (overlay T D) pid of None \<Rightarrow> t_products D | Some p \<Rightarrow> (t_products D)(pid \<mapsto> p))\<rparr>)" by auto
  with sep free FindProduct show ?thesis
    by (cases "t_products (overlay T D) pid") (simp_all add: apart_put del: overlay_simps)
next
  case (SaveProduct p)
  with eff obtain D p' where "tx = Active D" "tx' = Active (D\<lparr>t_products := (t_products D)(p_id p \<mapsto> p')\<rparr>)" by auto
  with sep free SaveProduct show ?thesis by (simp add: apart_put)
next
  case (InsertItem n)
  with eff obtain D it row where "tx = Active D" "a = AnItem it"
    "tx' = Active (D\<lparr>t_items := (t_items D)(oi_id it \<mapsto> row)\<rparr>)" by (fastforce simp: item_added_def)
  with sep new(2) show ?thesis by (simp add: apart_put)
next
  case (InsertProcessed mid roid h)
  with eff obtain D m row where "tx = Active D" "mid = Some (JStr m)"
    "tx' = Active (D\<lparr>t_processed := (t_processed D)(m \<mapsto> row)\<rparr>)" by (fastforce simp: processed_added_def)
  with sep free InsertProcessed show ?thesis by (simp add: apart_put)
next
  case (TxSaveOrder r)
  with eff obtain D r' where "tx = Active D" "tx' = Active (D\<lparr>t_orders := (t_orders D)(o_id r \<mapsto> r')\<rparr>)"
    "o_idempotencyKey r' = o_idempotencyKey r" by (auto simp: order_saved_def)
  with sep free TxSaveOrder show ?thesis by (simp add: apart_put_order)
qed (use eff sep in auto)

section \<open>No circle\<close>

lemma needs_empty [simp]: "\<not> needs st empty_tables"
  by (cases st) (auto simp: holds_key_def)

text \<open>A system where the statements are asked in order.\<close>

definition in_turn :: "('p \<Rightarrow> request) \<Rightarrow> ('p \<Rightarrow> outcome session) \<Rightarrow> bool" where
  "in_turn reqs S \<longleftrightarrow>
     (\<forall>p st k. se_prog (S p) = Do st k \<longrightarrow> orderly (request_items (reqs p)) st (se_tx (S p))) \<and>
     (\<forall>p q. p \<noteq> q \<longrightarrow> apart (own (se_tx (S p))) (own (se_tx (S q))))"

lemma reached_in_turn:
  assumes "requests_reach reqs T0 T S" and "schema_ok T0"
  shows "in_turn reqs S"
proof -
  obtain l where l: "serialized (\<lambda>p. orderly (request_items (reqs p))) (\<lambda>p. request_effect (reqs p))
      (\<lambda>p. request_settled (reqs p)) T0 (T, S) l"
    using requests_serialized [OF assms] .
  from requests.statement_serialized [OF l] serializedD(4) [OF l] show ?thesis by (simp add: in_turn_def)
qed

text \<open>Who waits, is waited for, and by one that is waited for, is about to lock a product.\<close>

lemma circle_locks:
  assumes turn: "in_turn reqs S"
    and e: "(v, w) \<in> waits_for S" "(w, z) \<in> waits_for S" "(z, u) \<in> waits_for S"
  shows "\<exists>pid k. se_prog (S z) = Do (FindProduct pid) k"
proof -
  from e obtain sv sw sz kv kw kz where
    v: "needs sv (own (se_tx (S w)))" and w: "se_prog (S w) = Do sw kw" "needs sw (own (se_tx (S z)))"
    and z: "z \<noteq> u" "se_prog (S z) = Do sz kz" "needs sz (own (se_tx (S u)))"
    by (auto simp: waits_for_def)
  from turn w(1) z(1,2) have ow: "orderly (request_items (reqs w)) sw (se_tx (S w))"
    and oz: "orderly (request_items (reqs z)) sz (se_tx (S z))"
    and sep: "apart (own (se_tx (S z))) (own (se_tx (S u)))" unfolding in_turn_def by blast+
  have held: "own (se_tx (S w)) \<noteq> empty_tables" "own (se_tx (S z)) \<noteq> empty_tables" using v w(2) by auto
  show ?thesis
  proof (cases sz)
    case (SaveProduct p)
    with oz z(3) sep show ?thesis by (auto simp: apart_def)
  next
    case (TxSaveOrder r)
    with oz w(2) have "\<exists>mid roid h. sw = InsertProcessed mid roid h"
      by (cases sw) (auto simp: holds_key_def)
    with ow held(1) show ?thesis by auto
  qed (use z oz held in auto)
qed

lemma circle_rises:
  assumes turn: "in_turn reqs S" and inj: "inj f"
    and up: "\<And>p. sorted (map (\<lambda>i. f (ci_productId i)) (request_items (reqs p)))"
    and y: "se_prog (S y) = Do (FindProduct a) k" and z: "se_prog (S z) = Do (FindProduct b) k'"
    and e: "(y, z) \<in> waits_for S" "(z, u) \<in> waits_for S"
  shows "f a < (f b :: nat)"
proof -
  from e y have held: "a \<in> dom (t_products (own (se_tx (S z))))" by (auto simp: waits_for_def)
  from e(2) z have "b \<in> dom (t_products (own (se_tx (S u))))" "z \<noteq> u" by (auto simp: waits_for_def)
  with turn have "b \<notin> dom (t_products (own (se_tx (S z))))" unfolding in_turn_def apart_def by blast
  with held have "a \<noteq> b" by auto
  from turn z have "orderly (request_items (reqs z)) (FindProduct b) (se_tx (S z))" unfolding in_turn_def by blast
  then obtain before item rest where items: "request_items (reqs z) = before @ item # rest" "ci_productId item = b"
    "dom (t_products (own (se_tx (S z)))) = ci_productId ` set before" by auto
  from held items(3) obtain i where i: "i \<in> set before" "ci_productId i = a" by auto
  from up [of z] i items(1,2) have "f a \<le> f b" by (auto simp: sorted_append)
  moreover have "f a \<noteq> f b" using inj \<open>a \<noteq> b\<close> by (simp add: inj_eq)
  ultimately show ?thesis by simp
qed

definition wanted :: "'a session \<Rightarrow> string" where
  "wanted s = (case se_prog s of Do st k \<Rightarrow> (case st of FindProduct pid \<Rightarrow> pid | _ \<Rightarrow> []) | _ \<Rightarrow> [])"

end
