(* ===== verification/ConcurrentRuns.thy ===== *)
theory ConcurrentRuns
  imports ConcurrentOrders
begin

text \<open>
  Runs of two requests, by transcripts of statements and answers: the runs the witnesses use, and
  two that show what the locks do not prevent.
\<close>

section \<open>Transcripts\<close>

fun follow :: "'a prog \<Rightarrow> (stmt \<times> reply) list \<Rightarrow> 'a prog option" where
  "follow m [] = Some m"
| "follow (Do st k) ((st', a) # l) = (if st' = st then follow (k (Inr a)) l else None)"
| "follow (Return v) (x # l) = None"

text \<open>The statements of one session while another holds the rows \<open>E\<close>.\<close>

fun chain :: "tables \<Rightarrow> tables \<Rightarrow> tables txn \<Rightarrow> (stmt \<times> reply) list \<Rightarrow> tables \<Rightarrow> tables txn \<Rightarrow> bool" where
  "chain E T tx [] T' tx' \<longleftrightarrow> T' = T \<and> tx' = tx"
| "chain E T tx ((st, a) # l) T' tx' \<longleftrightarrow>
     (\<exists>U ux. effect st T tx a U ux \<and> apart (own ux) E \<and> chain E U ux l T' tx')"

definition two :: "'a \<Rightarrow> 'a \<Rightarrow> bool \<Rightarrow> 'a" where
  "two x y p = (if p then x else y)"

lemma two_simps [simp]: "two x y True = x" "two x y False = y"
  by (simp_all add: two_def)

lemma two_upd [simp]: "(two x y)(True := z) = two z y" "(two x y)(False := z) = two x z"
  by (auto simp: two_def fun_eq_iff)

lemma chainI:
  "effect st T tx a U ux \<Longrightarrow> apart (own ux) E \<Longrightarrow> chain E U ux l T' tx' \<Longrightarrow> chain E T tx ((st, a) # l) T' tx'"
  by auto

lemma follow_append: "follow m (l @ l') = Option.bind (follow m l) (\<lambda>m'. follow m' l')"
  by (induction m l rule: follow.induct) auto

lemma follow_thenP: "follow m l = Some m' \<Longrightarrow> follow (thenP m f) l = Some (thenP m' f)"
  by (induction m l rule: follow.induct) (auto split: if_splits)

lemma follow_awaitP: "follow m l = Some (Return (Inr x)) \<Longrightarrow> follow (awaitP m f) (l @ l') = follow (f x) l'"
  by (simp add: awaitP_def follow_append follow_thenP)

lemma follow_catchP: "follow m l = Some (Return (Inr x)) \<Longrightarrow> follow (catchP m h) l = Some (Return (Inr x))"
  by (simp add: catchP_def follow_thenP)

lemma follow_finallyP: "follow m l = Some (Return v) \<Longrightarrow>
  follow (finallyP m f) (l @ l') = follow (awaitP f (\<lambda>_. Return v)) l'"
  by (simp add: finallyP_def follow_append follow_thenP)

lemma follow_ask: "f a = Some x \<Longrightarrow> follow (awaitP (ask st f) k) ((st, a) # l) = follow (k x) l"
  by (simp add: ask_def awaitP_def)

lemma run_session:
  assumes "follow m l = Some m'" and "chain E T tx l T' tx'" and "reaches c (T, S)"
    and "S p = \<lparr>se_prog = m, se_tx = tx\<rparr>" and "\<And>q. q \<noteq> p \<Longrightarrow> own (se_tx (S q)) = E"
  shows "reaches c (T', S(p := \<lparr>se_prog = m', se_tx = tx'\<rparr>))"
  using assms
proof (induction m l arbitrary: T tx S rule: follow.induct)
  case (1 m)
  then have "S(p := \<lparr>se_prog = m', se_tx = tx'\<rparr>) = S" by (simp add: fun_eq_iff)
  with 1 show ?case by simp
next
  case (2 st k st' a l)
  from 2(2,3) obtain U ux where u: "st' = st" "effect st T tx a U ux" "apart (own ux) E" "chain E U ux l T' tx'"
    by (auto split: if_splits)
  have "step p (T, S) (U, S(p := \<lparr>se_prog = k (Inr a), se_tx = ux\<rparr>))"
    by (rule answer) (use 2(5,6) u in simp_all)
  note later = 2(1) [OF u(1) _ u(4) further [OF 2(4) this]]
  have "reaches c (T', (S(p := \<lparr>se_prog = k (Inr a), se_tx = ux\<rparr>))(p := \<lparr>se_prog = m', se_tx = tx'\<rparr>))"
    by (rule later) (use 2(2,6) u(1) in simp_all)
  then show ?case unfolding fun_upd_upd .
qed simp

lemma run_first:
  assumes "follow m l = Some m'" and "chain (own (se_tx s)) T tx l T' tx'"
    and "reaches c (T, two \<lparr>se_prog = m, se_tx = tx\<rparr> s)"
  shows "reaches c (T', two \<lparr>se_prog = m', se_tx = tx'\<rparr> s)"
  using run_session [OF assms, of True] by simp

lemma run_second:
  assumes "follow m l = Some m'" and "chain (own (se_tx s)) T tx l T' tx'"
    and "reaches c (T, two s \<lparr>se_prog = m, se_tx = tx\<rparr>)"
  shows "reaches c (T', two s \<lparr>se_prog = m', se_tx = tx'\<rparr>)"
  using run_session [OF assms, of False] by simp

lemma launch_two: "launch (\<lambda>p. request_prog (two r r' p)) =
  two \<lparr>se_prog = request_prog r, se_tx = Idle\<rparr> \<lparr>se_prog = request_prog r', se_tx = Idle\<rparr>"
  by (auto simp: launch_def two_def fun_eq_iff)

lemma reaches_start: "reaches (T0, launch (\<lambda>p. request_prog (two r r' p)))
  (T0, two \<lparr>se_prog = request_prog r, se_tx = Idle\<rparr> \<lparr>se_prog = request_prog r', se_tx = Idle\<rparr>)"
  unfolding launch_two by (rule start)

lemmas prog_eval = request_prog_def awaitP_def catchP_def finallyP_def ask_def returnP_def throwP_def

section \<open>Two messages of one order\<close>

definition demo_marker :: "string \<Rightarrow> tables" where
  "demo_marker m = empty_tables\<lparr>t_processed := [m \<mapsto>
     \<lparr>pm_messageId = m, pm_orderId = ''o1'', pm_handler = Some ''orders.process'', pm_processedAt = 0\<rparr>]\<rparr>"

definition reads_order :: "string \<Rightarrow> (stmt \<times> reply) list" where
  "reads_order m =
     [(StartTransaction, AUnit),
      (InsertProcessed (Some (JStr m)) (Some (JStr ''o1'')) ''orders.process'', AUnit),
      (TxFindOrder (Some (JStr ''o1'')), AMaybeRow (Some (demo_order None)))]"

abbreviation demo_processed :: order_row where
  "demo_processed \<equiv> processed_row 2000 (Some 0) (demo_order None)"

definition saves_order :: "(stmt \<times> reply) list" where
  "saves_order =
     [(TxSaveOrder ((demo_order None)\<lparr>o_status := PROCESSED, o_processedAt := Some 2000\<rparr>), ARow demo_processed),
      (CommitTransaction, AUnit), (Release, AUnit)]"

lemma follow_message:
  "follow (request_prog (ProcessMessage 2000 (demo_message m ''o1''))) (reads_order m @ saves_order) =
    Some (Return (Inr (Handled
      \<lparr>ptr_deduplicated = False, ptr_order = Some demo_processed, ptr_statusChanged = True\<rparr>)))"
  by (simp add: prog_eval process_prog_def transaction_prog_def process_body_def reads_order_def saves_order_def)

lemma chain_reads:
  assumes "apart (demo_marker m) E"
  shows "chain E (ref_tabs (demo_db [demo_order None])) Idle (reads_order m)
    (ref_tabs (demo_db [demo_order None])) (Active (demo_marker m))"
  unfolding reads_order_def
proof (intro chainI)
  let ?T = "ref_tabs (demo_db [demo_order None])"
  show "effect StartTransaction ?T Idle AUnit ?T (Active empty_tables)" by simp
  show "effect (InsertProcessed (Some (JStr m)) (Some (JStr ''o1'')) ''orders.process'') ?T (Active empty_tables)
      AUnit ?T (Active (demo_marker m))"
    by (auto simp: processed_added_def demo_marker_def intro!: exI [of _ "0::int"])
  show "effect (TxFindOrder (Some (JStr ''o1''))) ?T (Active (demo_marker m)) (AMaybeRow (Some (demo_order None)))
      ?T (Active (demo_marker m))" by (simp add: demo_marker_def)
qed (simp_all add: assms)

lemma chain_saves:
  assumes "t_orders T ''o1'' = Some r" and "o_idempotencyKey r = None" and "apart (demo_marker m) E" and "t_orders E = Map.empty"
  shows "\<exists>T'. chain E T (Active (demo_marker m)) saves_order T' Idle \<and> t_orders T' ''o1'' = Some demo_processed"
proof -
  let ?D = "(demo_marker m)\<lparr>t_orders := [''o1'' \<mapsto> demo_processed]\<rparr>"
  have "effect (TxSaveOrder ((demo_order None)\<lparr>o_status := PROCESSED, o_processedAt := Some 2000\<rparr>))
      T (Active (demo_marker m)) (ARow demo_processed) T (Active ?D)"
    using assms(1) by (auto simp: order_saved_def demo_marker_def processed_row_def key_free_def intro!: exI [of _ "Some 0"])
  moreover have "apart ?D E" using assms(3,4) by (auto simp: apart_def)
  ultimately have "chain E T (Active (demo_marker m)) saves_order (overlay T ?D) Idle"
    unfolding saves_order_def by (intro chainI) auto
  then show ?thesis by (intro exI [of _ "overlay T ?D"]) simp
qed

text \<open>One message delivered twice: the second worker finds the marker, in the transaction that this aborts.\<close>

lemma fail_second:
  assumes "reaches c (T, two s \<lparr>se_prog = Do st k, se_tx = tx\<rparr>)" and "fails st tx tx'"
  shows "reaches c (T, two s \<lparr>se_prog = k (Inl e), se_tx = tx'\<rparr>)"
proof -
  have "step False (T, two s \<lparr>se_prog = Do st k, se_tx = tx\<rparr>) (T, (two s \<lparr>se_prog = Do st k, se_tx = tx\<rparr>)
      (False := \<lparr>se_prog = k (Inl e), se_tx = tx'\<rparr>))"
    by (rule failure) (use assms(2) in simp_all)
  with further [OF assms(1)] show ?thesis by simp
qed

lemma follow_duplicate:
  "\<exists>k. follow (request_prog (ProcessMessage 2000 (demo_message m ''o1''))) [(StartTransaction, AUnit)] =
      Some (Do (InsertProcessed (Some (JStr m)) (Some (JStr ''o1'')) ''orders.process'') k) \<and>
    follow (k (Inl (DbError (Some ''23505'') msg))) [(CommitTransaction, AUnit), (Release, AUnit)] =
      Some (Return (Inr (Handled \<lparr>ptr_deduplicated = True, ptr_order = None, ptr_statusChanged = False\<rparr>)))"
  by (simp add: prog_eval process_prog_def transaction_prog_def process_body_def)

lemma redelivery_run:
  "\<exists>T. reaches (ref_tabs (demo_db [demo_order None]), launch (\<lambda>p. request_prog
        (two (ProcessMessage 2000 (demo_message ''m1'' ''o1'')) (ProcessMessage 2000 (demo_message ''m1'' ''o1'')) p)))
      (T, two \<lparr>se_prog = Return (Inr (Handled
          \<lparr>ptr_deduplicated = False, ptr_order = Some demo_processed, ptr_statusChanged = True\<rparr>)), se_tx = Idle\<rparr>
        \<lparr>se_prog = Return (Inr (Handled
          \<lparr>ptr_deduplicated = True, ptr_order = None, ptr_statusChanged = False\<rparr>)), se_tx = Idle\<rparr>)"
proof -
  let ?T = "ref_tabs (demo_db [demo_order None])"
  let ?r = "ProcessMessage 2000 (demo_message ''m1'' ''o1'')"
  let ?done = "Return (Inr (Handled
      \<lparr>ptr_deduplicated = False, ptr_order = Some demo_processed, ptr_statusChanged = True\<rparr>))"
  obtain k where k: "follow (request_prog ?r) [(StartTransaction, AUnit)] =
      Some (Do (InsertProcessed (Some (JStr ''m1'')) (Some (JStr ''o1'')) ''orders.process'') k)"
    "follow (k (Inl (DbError (Some ''23505'') []))) [(CommitTransaction, AUnit), (Release, AUnit)] =
      Some (Return (Inr (Handled \<lparr>ptr_deduplicated = True, ptr_order = None, ptr_statusChanged = False\<rparr>)))"
    using follow_duplicate by blast
  obtain m where m: "follow (request_prog ?r) (reads_order ''m1'') = Some m" "follow m saves_order = Some ?done"
    using follow_message [of "''m1''"] by (auto simp: follow_append bind_eq_Some_conv)
  obtain T1 where T1: "chain empty_tables ?T (Active (demo_marker ''m1'')) saves_order T1 Idle"
    using chain_saves [of ?T "demo_order None" "''m1''" empty_tables] by auto
  let ?s = "\<lparr>se_prog = ?done, se_tx = Idle\<rparr>"
  have 1: "reaches (?T, launch (\<lambda>p. request_prog (two ?r ?r p))) (T1, two ?s \<lparr>se_prog = request_prog ?r, se_tx = Idle\<rparr>)"
    by (rule run_first [OF m(2) _ run_first [OF m(1) _ reaches_start]])
      (use T1 chain_reads [of "''m1''" empty_tables] in simp_all)
  have 2: "reaches (?T, launch (\<lambda>p. request_prog (two ?r ?r p))) (T1, two ?s
      \<lparr>se_prog = Do (InsertProcessed (Some (JStr ''m1'')) (Some (JStr ''o1'')) ''orders.process'') k,
       se_tx = Active empty_tables\<rparr>)"
    by (rule run_second [OF k(1) _ 1]) simp
  have 3: "reaches (?T, launch (\<lambda>p. request_prog (two ?r ?r p))) (T1, two ?s
      \<lparr>se_prog = k (Inl (DbError (Some ''23505'') [])), se_tx = Aborted empty_tables\<rparr>)"
    by (rule fail_second [OF 2]) (simp add: lost_def)
  show ?thesis by (rule exI, rule run_second [OF k(2) _ 3]) simp
qed

text \<open>
  C11. Two messages of one order, with different identifiers, at once: both workers find the order not
  processed, and both process it and go on to publish an event.
\<close>

theorem two_messages_process_twice:
  "\<exists>T S res res'. requests_reach (\<lambda>p. ProcessMessage 2000 (demo_message (if p then ''m1'' else ''m2'') ''o1''))
       (ref_tabs (demo_db [demo_order None])) T S \<and>
     se_prog (S True) = Return (Inr (Handled res)) \<and> ptr_statusChanged res \<and>
     se_prog (S False) = Return (Inr (Handled res')) \<and> ptr_statusChanged res'"
proof -
  let ?r = "\<lambda>m. ProcessMessage 2000 (demo_message m ''o1'')"
  let ?T = "ref_tabs (demo_db [demo_order None])"
  let ?done = "Return (Inr (Handled
      \<lparr>ptr_deduplicated = False, ptr_order = Some demo_processed, ptr_statusChanged = True\<rparr>))"
  obtain m1 m2 where m1: "follow (request_prog (?r ''m1'')) (reads_order ''m1'') = Some m1" "follow m1 saves_order = Some ?done"
    and m2: "follow (request_prog (?r ''m2'')) (reads_order ''m2'') = Some m2" "follow m2 saves_order = Some ?done"
    using follow_message [of "''m1''"] follow_message [of "''m2''"] by (auto simp: follow_append bind_eq_Some_conv)
  have sep: "apart (demo_marker ''m1'') (demo_marker ''m2'')" "apart (demo_marker ''m2'') (demo_marker ''m1'')"
    by (simp_all add: apart_def demo_marker_def)
  have none: "t_orders (demo_marker m) = Map.empty" for m by (simp add: demo_marker_def)
  note a = run_first [OF m1(1) chain_reads reaches_start]
  note b = run_second [OF m2(1) chain_reads a]
  obtain T1 where T1: "chain (demo_marker ''m2'') ?T (Active (demo_marker ''m1'')) saves_order T1 Idle"
    "t_orders T1 ''o1'' = Some demo_processed" using chain_saves [of ?T "demo_order None" "''m1''"] sep none by auto
  obtain T2 where T2: "chain empty_tables T1 (Active (demo_marker ''m2'')) saves_order T2 Idle"
    using chain_saves [OF T1(2), of "''m2''" empty_tables] by auto
  have "reaches (?T, launch (\<lambda>p. request_prog (two (?r ''m1'') (?r ''m2'') p)))
      (T2, two \<lparr>se_prog = ?done, se_tx = Idle\<rparr> \<lparr>se_prog = ?done, se_tx = Idle\<rparr>)"
    by (rule run_second [OF m2(2) _ run_first [OF m1(2) _ b]]) (use sep T1(1) T2 in simp_all)
  moreover have "two (?r ''m1'') (?r ''m2'') = (\<lambda>p. ProcessMessage 2000 (demo_message (if p then ''m1'' else ''m2'') ''o1''))"
    by (auto simp: two_def fun_eq_iff)
  ultimately show ?thesis
    by (intro exI [of _ T2] exI [of _ "two \<lparr>se_prog = ?done, se_tx = Idle\<rparr> \<lparr>se_prog = ?done, se_tx = Idle\<rparr>"]
        exI [of _ "\<lparr>ptr_deduplicated = False, ptr_order = Some demo_processed, ptr_statusChanged = True\<rparr>"])
      (simp add: requests_reach_def)
qed

section \<open>Two creates in opposite orders\<close>

text \<open>A request whose statement can be answered in no way while the others hold what they hold.\<close>

definition blocked :: "tables \<Rightarrow> ('p \<Rightarrow> 'a session) \<Rightarrow> 'p \<Rightarrow> bool" where
  "blocked T S p \<longleftrightarrow> (\<exists>st k. se_prog (S p) = Do st k \<and>
     (\<forall>a T' tx'. effect st T (se_tx (S p)) a T' tx' \<longrightarrow>
        (\<exists>q. q \<noteq> p \<and> \<not> apart (own tx') (own (se_tx (S q))))))"

definition product_named :: "string \<Rightarrow> product_row" where
  "product_named pid = demo_product\<lparr>p_id := pid, p_sku := pid\<rparr>"

definition two_products :: tables where
  "two_products = (ref_tabs (demo_db []))
     \<lparr>t_products := [''p1'' \<mapsto> product_named ''p1'', ''p2'' \<mapsto> product_named ''p2'']\<rparr>"

definition pair_dto :: "string option \<Rightarrow> string \<Rightarrow> string \<Rightarrow> create_order_dto" where
  "pair_dto key a b = \<lparr>co_userId = ''u1'', co_idempotencyKey = key,
     co_items = Some [\<lparr>ci_productId = a, ci_quantity = 1, ci_priceSnapshot = Fin 10\<rparr>,
       \<lparr>ci_productId = b, ci_quantity = 1, ci_priceSnapshot = Fin 10\<rparr>]\<rparr>"

definition new_row :: "string option \<Rightarrow> string \<Rightarrow> order_row" where
  "new_row key oid = (demo_order key)\<lparr>o_id := oid\<rparr>"

definition new_line :: "string \<Rightarrow> string \<Rightarrow> string \<Rightarrow> order_item" where
  "new_line iid oid pid = \<lparr>oi_id = iid, oi_orderId = oid, oi_productId = pid, oi_quantity = 1,
     oi_priceSnapshot = Fin 10, oi_createdAt = 0, oi_updatedAt = 0\<rparr>"

abbreviation sold_one :: "string \<Rightarrow> product_row" where
  "sold_one pid \<equiv> (product_named pid)\<lparr>p_stock := p_stock (product_named pid) - 1\<rparr>"

text \<open>The statements up to the first item, and those of an item.\<close>

definition begins :: "string option \<Rightarrow> string \<Rightarrow> (stmt \<times> reply) list" where
  "begins key oid =
     [(FindUser ''u1'', AUser (Some demo_user)), (Connect, AUnit), (StartTransaction, AUnit),
      (InsertOrder \<lparr>no_userId = ''u1'', no_status = PENDING, no_idempotencyKey = key\<rparr>, ARow (new_row key oid))]"

definition takes :: "string \<Rightarrow> string \<Rightarrow> string \<Rightarrow> (stmt \<times> reply) list" where
  "takes oid iid pid =
     [(FindProduct pid, AProduct (Some (product_named pid))), (SaveProduct (sold_one pid), ASaved (sold_one pid)),
      (InsertItem \<lparr>ni_orderId = oid, ni_productId = pid, ni_quantity = 1, ni_priceSnapshot = Fin 10\<rparr>,
         AnItem (new_line iid oid pid))]"

definition holds_item :: "string option \<Rightarrow> string \<Rightarrow> string \<Rightarrow> string \<Rightarrow> tables" where
  "holds_item key oid iid pid = empty_tables\<lparr>t_products := [pid \<mapsto> sold_one pid],
     t_orders := [oid \<mapsto> new_row key oid], t_items := [iid \<mapsto> new_line iid oid pid]\<rparr>"

lemma new_row_simps [simp]:
  "o_id (new_row key oid) = oid" "o_userId (new_row key oid) = ''u1''" "o_status (new_row key oid) = PENDING"
  "o_idempotencyKey (new_row key oid) = key" "o_processedAt (new_row key oid) = None"
  by (simp_all add: new_row_def demo_order_def)

lemma product_named_simps [simp]: "p_id (product_named pid) = pid" "p_stock (product_named pid) = 5"
  by (simp_all add: product_named_def demo_product_def)

lemma two_products_simps [simp]:
  "t_users two_products = [''u1'' \<mapsto> demo_user]" "t_orders two_products = Map.empty"
  "t_products two_products = [''p1'' \<mapsto> product_named ''p1'', ''p2'' \<mapsto> product_named ''p2'']"
  "t_items two_products = Map.empty" "t_processed two_products = Map.empty"
  by (simp_all add: two_products_def)

lemma pair_dto_simps [simp]:
  "co_userId (pair_dto key a b) = ''u1''" "co_idempotencyKey (pair_dto key a b) = key"
  "co_items (pair_dto key a b) = Some [\<lparr>ci_productId = a, ci_quantity = 1, ci_priceSnapshot = Fin 10\<rparr>,
       \<lparr>ci_productId = b, ci_quantity = 1, ci_priceSnapshot = Fin 10\<rparr>]"
  by (simp_all add: pair_dto_def)

lemmas create_eval = prog_eval create_prog_def create_attempt_def create_body_def save_item_prog_def

lemma follow_first_item:
  "\<exists>k. follow (request_prog (CreateOrder (pair_dto None a b) None)) (begins None oid @ takes oid iid a) =
    Some (Do (FindProduct b) k)"
  by (simp add: create_eval begins_def takes_def nullish_def Let_def)

lemma chain_begins:
  assumes "t_users T ''u1'' = Some demo_user" and "t_orders T oid = None" and "key_unused T key"
    and "apart (empty_tables\<lparr>t_orders := [oid \<mapsto> new_row key oid]\<rparr>) E"
    and "chain E T (Active (empty_tables\<lparr>t_orders := [oid \<mapsto> new_row key oid]\<rparr>)) l T' tx'"
  shows "chain E T Idle (begins key oid @ l) T' tx'"
  unfolding begins_def append.simps
proof (intro chainI)
  let ?D = "empty_tables\<lparr>t_orders := [oid \<mapsto> new_row key oid]\<rparr>"
  show "effect (FindUser ''u1'') T Idle (AUser (Some demo_user)) T Idle" using assms(1) by simp
  show "effect Connect T Idle AUnit T Idle" by simp
  show "effect StartTransaction T Idle AUnit T (Active empty_tables)" by simp
  show "effect (InsertOrder \<lparr>no_userId = ''u1'', no_status = PENDING, no_idempotencyKey = key\<rparr>) T
      (Active empty_tables) (ARow (new_row key oid)) T (Active ?D)"
    using assms(1-3) by (auto simp: orders_added_def key_free_def key_unused_def)
qed (use assms(4,5) in simp_all)

lemma chain_takes:
  assumes "t_products T pid = Some (product_named pid)" and "t_items T iid = None" and "t_orders D oid \<noteq> None"
    and "t_products D pid = None" and "t_items D iid = None"
    and "apart D E" and "pid \<notin> dom (t_products E)" and "iid \<notin> dom (t_items E)"
    and "chain E T (Active (D\<lparr>t_products := (t_products D)(pid \<mapsto> sold_one pid),
      t_items := (t_items D)(iid \<mapsto> new_line iid oid pid)\<rparr>)) l T' tx'"
  shows "chain E T (Active D) (takes oid iid pid @ l) T' tx'"
  unfolding takes_def append.simps
proof (intro chainI)
  let ?D1 = "D\<lparr>t_products := (t_products D)(pid \<mapsto> product_named pid)\<rparr>"
  let ?D2 = "D\<lparr>t_products := (t_products D)(pid \<mapsto> sold_one pid)\<rparr>"
  let ?D3 = "D\<lparr>t_products := (t_products D)(pid \<mapsto> sold_one pid), t_items := (t_items D)(iid \<mapsto> new_line iid oid pid)\<rparr>"
  show "effect (FindProduct pid) T (Active D) (AProduct (Some (product_named pid))) T (Active ?D1)"
    using assms(1,4) by (simp add: map_add_def)
  show "effect (SaveProduct (sold_one pid)) T (Active ?D1) (ASaved (sold_one pid)) T (Active ?D2)"
    by (auto simp: product_saved_def intro!: exI [of _ "p_updatedAt (product_named pid)"])
  show "effect (InsertItem \<lparr>ni_orderId = oid, ni_productId = pid, ni_quantity = 1, ni_priceSnapshot = Fin 10\<rparr>) T
      (Active ?D2) (AnItem (new_line iid oid pid)) T (Active ?D3)"
    using assms(2,3,5) by (auto simp: item_added_def new_line_def map_add_def intro!: exI [of _ "Fin 10"])
qed (use assms(6-9) in \<open>simp_all add: apart_def\<close>)

lemma chain_first_item:
  assumes "pid \<in> {''p1'', ''p2''}" and "apart (holds_item None oid iid pid) E"
  shows "chain E two_products Idle (begins None oid @ takes oid iid pid) two_products (Active (holds_item None oid iid pid))"
proof -
  have E: "oid \<notin> dom (t_orders E)" "pid \<notin> dom (t_products E)" "iid \<notin> dom (t_items E)"
    using assms(2) by (auto simp: apart_def holds_item_def)
  have "chain E two_products (Active (empty_tables\<lparr>t_orders := [oid \<mapsto> new_row None oid]\<rparr>)) (takes oid iid pid @ [])
      two_products (Active (holds_item None oid iid pid))"
    using assms(1) E by (intro chain_takes) (auto simp: holds_item_def apart_def)
  then show ?thesis
    using E by (intro chain_begins) (simp_all add: key_unused_def apart_def)
qed

lemma blocked_lock:
  assumes "S p = \<lparr>se_prog = Do (FindProduct pid) k, se_tx = Active D\<rparr>" and "t_products (overlay T D) pid \<noteq> None"
    and "q \<noteq> p" and "pid \<in> dom (t_products (own (se_tx (S q))))"
  shows "blocked T S p"
  unfolding blocked_def
proof (rule exI [of _ "FindProduct pid"], rule exI [of _ k], intro conjI allI impI)
  show "se_prog (S p) = Do (FindProduct pid) k" using assms(1) by simp
  fix a T' tx'
  assume "effect (FindProduct pid) T (se_tx (S p)) a T' tx'"
  with assms(1,2) have "pid \<in> dom (t_products (own tx'))" by (auto split: option.splits)
  with assms(4) have "\<not> apart (own tx') (own (se_tx (S q)))" by (auto simp: apart_def)
  with assms(3) show "\<exists>q. q \<noteq> p \<and> \<not> apart (own tx') (own (se_tx (S q)))" by blast
qed

text \<open>
  C10. Two creates that name two products in opposite orders, at once: each can come to wait for the
  product the other has locked, so that neither goes on unless one of them fails.
\<close>

theorem opposite_orders_deadlock:
  "\<exists>T S. requests_reach (\<lambda>p. CreateOrder (if p then pair_dto None ''p1'' ''p2'' else pair_dto None ''p2'' ''p1'') None)
     two_products T S \<and> (\<forall>p. blocked T S p)"
proof -
  let ?r = "\<lambda>a b. CreateOrder (pair_dto None a b) None"
  let ?A = "holds_item None ''oA'' ''iA'' ''p1''" and ?B = "holds_item None ''oB'' ''iB'' ''p2''"
  obtain ka kb where follow: "follow (request_prog (?r ''p1'' ''p2'')) (begins None ''oA'' @ takes ''oA'' ''iA'' ''p1'') =
      Some (Do (FindProduct ''p2'') ka)"
    "follow (request_prog (?r ''p2'' ''p1'')) (begins None ''oB'' @ takes ''oB'' ''iB'' ''p2'') = Some (Do (FindProduct ''p1'') kb)"
    using follow_first_item by blast
  have sep: "apart ?B ?A" by (auto simp: apart_def holds_item_def)
  let ?S = "two \<lparr>se_prog = Do (FindProduct ''p2'') ka, se_tx = Active ?A\<rparr>
    \<lparr>se_prog = Do (FindProduct ''p1'') kb, se_tx = Active ?B\<rparr>"
  have "reaches (two_products, launch (\<lambda>p. request_prog (two (?r ''p1'' ''p2'') (?r ''p2'' ''p1'') p))) (two_products, ?S)"
    by (rule run_second [OF follow(2) _ run_first [OF follow(1) _ reaches_start]])
      (use chain_first_item [of "''p1''" "''oA''" "''iA''" empty_tables] chain_first_item [OF _ sep] in simp_all)
  moreover have "two (?r ''p1'' ''p2'') (?r ''p2'' ''p1'') =
      (\<lambda>p. CreateOrder (if p then pair_dto None ''p1'' ''p2'' else pair_dto None ''p2'' ''p1'') None)"
    by (auto simp: two_def fun_eq_iff)
  ultimately have reach: "requests_reach (\<lambda>p. CreateOrder (if p then pair_dto None ''p1'' ''p2'' else pair_dto None ''p2'' ''p1'') None)
      two_products two_products ?S" by (simp add: requests_reach_def)
  have "blocked two_products ?S True"
    by (rule blocked_lock [where q = False]) (simp_all add: holds_item_def)
  moreover have "blocked two_products ?S False"
    by (rule blocked_lock [where q = True]) (simp_all add: holds_item_def)
  ultimately have "\<forall>p. blocked two_products ?S p" by (simp add: all_bool_eq)
  with reach show ?thesis by blast
qed

section \<open>Two creates with one key\<close>

definition pair_order :: "string option \<Rightarrow> order" where
  "pair_order key = order_row.extend (new_row key ''oA'')
     (order.fields [new_line ''i1'' ''oA'' ''p1'', new_line ''i2'' ''oA'' ''p2''])"

definition places :: "string option \<Rightarrow> (stmt \<times> reply) list" where
  "places key = begins key ''oA'' @ takes ''oA'' ''i1'' ''p1'' @ takes ''oA'' ''i2'' ''p2'' @
     [(FindOrder ''oA'', AnOrder (Some (pair_order key))), (CommitTransaction, AUnit), (Release, AUnit)]"

definition pair_tables :: "string option \<Rightarrow> tables" where
  "pair_tables key = empty_tables\<lparr>t_products := [''p1'' \<mapsto> sold_one ''p1'', ''p2'' \<mapsto> sold_one ''p2''],
     t_orders := [''oA'' \<mapsto> new_row key ''oA''],
     t_items := [''i1'' \<mapsto> new_line ''i1'' ''oA'' ''p1'', ''i2'' \<mapsto> new_line ''i2'' ''oA'' ''p2'']\<rparr>"

lemma pair_order_simps [simp]:
  "o_id (pair_order key) = ''oA''" "o_idempotencyKey (pair_order key) = key"
  "order_row.truncate (pair_order key) = new_row key ''oA''"
  "o_items (pair_order key) = [new_line ''i1'' ''oA'' ''p1'', new_line ''i2'' ''oA'' ''p2'']"
  by (simp_all add: pair_order_def order_row.defs order.defs new_row_def demo_order_def)

lemma new_line_simps [simp]: "oi_id (new_line iid oid pid) = iid" "oi_orderId (new_line iid oid pid) = oid"
  by (simp_all add: new_line_def)

lemma new_line_inject [simp]: "new_line i oid a = new_line j oid b \<longleftrightarrow> i = j \<and> a = b"
  by (auto simp: new_line_def)

lemma pair_items: "items_of (overlay two_products (pair_tables key)) ''oA'' =
  {new_line ''i1'' ''oA'' ''p1'', new_line ''i2'' ''oA'' ''p2''}"
  by (auto simp: items_of_def pair_tables_def ran_map_upd)

lemma pair_loaded: "loaded (overlay two_products (pair_tables key)) (pair_order key)"
  using pair_items by (simp add: loaded_def pair_tables_def)

lemma follow_ask_last: "f a = Some x \<Longrightarrow> follow (ask st f) [(st, a)] = Some (Return (Inr x))"
  by (simp add: ask_def)

lemma follow_takes:
  "follow (save_item_prog oid \<lparr>ci_productId = pid, ci_quantity = 1, ci_priceSnapshot = Fin 10\<rparr>) (takes oid iid pid) =
    Some (Return (Inr (new_line iid oid pid)))"
  by (simp add: save_item_prog_def takes_def follow_ask follow_ask_last)

lemma follow_body:
  assumes "items = [\<lparr>ci_productId = a, ci_quantity = 1, ci_priceSnapshot = Fin 10\<rparr>,
    \<lparr>ci_productId = b, ci_quantity = 1, ci_priceSnapshot = Fin 10\<rparr>]"
  shows "follow (create_body (pair_dto key a b) items key)
    ((InsertOrder \<lparr>no_userId = ''u1'', no_status = PENDING, no_idempotencyKey = key\<rparr>, ARow (new_row key oid)) #
     takes oid i a @ takes oid j b @ [(FindOrder oid, AnOrder (Some x)), (CommitTransaction, AUnit)]) =
    Some (Return (Inr x))"
  unfolding create_body_def assms save_items_prog.simps
  by (simp add: follow_ask awaitP_assoc follow_awaitP [OF follow_takes] returnP_def)

lemma follow_places:
  "follow (request_prog (CreateOrder (pair_dto (Some ''k'') ''p1'' ''p2'') None))
    ((FindOrderByKey ''k'', AnOrder None) # places (Some ''k'')) = Some (Return (Inr (Created (pair_order (Some ''k''), False))))"
proof -
  let ?key = "Some ''k''" and ?dto = "pair_dto (Some ''k'') ''p1'' ''p2''"
  let ?l = "(InsertOrder \<lparr>no_userId = ''u1'', no_status = PENDING, no_idempotencyKey = ?key\<rparr>, ARow (new_row ?key ''oA'')) #
     takes ''oA'' ''i1'' ''p1'' @ takes ''oA'' ''i2'' ''p2'' @
     [(FindOrder ''oA'', AnOrder (Some (pair_order ?key))), (CommitTransaction, AUnit)]"
  note body = follow_body [OF refl, of ?key "''p1''" "''p2''" "''oA''" "''i1''" "''i2''" "pair_order ?key"]
  have "follow (awaitP (create_body ?dto (the (co_items ?dto)) ?key) (\<lambda>created. returnP (created, False))) ?l =
      Some (Return (Inr (pair_order ?key, False)))"
    using follow_awaitP [OF body, where f = "\<lambda>created. returnP (created, False)" and l' = "[]"] by (simp add: returnP_def)
  from follow_finallyP [OF follow_catchP [OF this, where h = "create_recovery ?key"], of "ask Release as_unit" "[(Release, AUnit)]"]
  have "follow (create_attempt ?dto (the (co_items ?dto)) ?key)
      ([(Connect, AUnit), (StartTransaction, AUnit)] @ ?l @ [(Release, AUnit)]) =
      Some (Return (Inr (pair_order ?key, False)))"
    by (simp add: create_attempt_def follow_ask)
  then have "follow (create_prog ?dto None)
      ((FindOrderByKey ''k'', AnOrder None) # places ?key) = Some (Return (Inr (pair_order ?key, False)))"
    by (simp add: create_prog_def Let_def nullish_def follow_ask places_def begins_def)
  from follow_awaitP [OF this, where f = "\<lambda>x. returnP (Created x)" and l' = "[]"] show ?thesis
    by (simp add: request_prog_def returnP_def)
qed

lemma follow_found:
  "follow (request_prog (CreateOrder (pair_dto (Some ''k'') ''p1'' ''p2'') None))
    [(FindOrderByKey ''k'', AnOrder (Some x))] = Some (Return (Inr (Created (x, True))))"
  by (simp add: create_eval nullish_def Let_def)

lemma chain_places: "chain empty_tables two_products Idle (places key) (overlay two_products (pair_tables key)) Idle"
  unfolding places_def
proof (intro chain_begins chain_takes)
  let ?D = "pair_tables key"
  let ?l = "[(FindOrder ''oA'', AnOrder (Some (pair_order key))), (CommitTransaction, AUnit), (Release, AUnit)]"
  have "effect (FindOrder ''oA'') two_products (Active ?D) (AnOrder (Some (pair_order key))) two_products (Active ?D)"
    using pair_loaded by (simp add: by_id_def)
  then have "chain empty_tables two_products (Active ?D) ?l (overlay two_products ?D) Idle"
    by (intro chainI) auto
  moreover have "?D = (empty_tables\<lparr>t_orders := [''oA'' \<mapsto> new_row key ''oA'']\<rparr>)
     \<lparr>t_products := [''p1'' \<mapsto> sold_one ''p1''], t_items := [''i1'' \<mapsto> new_line ''i1'' ''oA'' ''p1'']\<rparr>
     \<lparr>t_products := [''p1'' \<mapsto> sold_one ''p1'', ''p2'' \<mapsto> sold_one ''p2''],
      t_items := [''i1'' \<mapsto> new_line ''i1'' ''oA'' ''p1'', ''i2'' \<mapsto> new_line ''i2'' ''oA'' ''p2'']\<rparr>"
    by (simp add: pair_tables_def)
  ultimately show "chain empty_tables two_products
     (Active (empty_tables
        \<lparr>t_orders := [''oA'' \<mapsto> new_row key ''oA''],
         t_products := (t_products (empty_tables\<lparr>t_orders := [''oA'' \<mapsto> new_row key ''oA'']\<rparr>))(''p1'' \<mapsto> sold_one ''p1''),
         t_items := (t_items (empty_tables\<lparr>t_orders := [''oA'' \<mapsto> new_row key ''oA'']\<rparr>))(''i1'' \<mapsto> new_line ''i1'' ''oA'' ''p1''),
         t_products := (t_products (empty_tables
          \<lparr>t_orders := [''oA'' \<mapsto> new_row key ''oA''],
           t_products := (t_products (empty_tables\<lparr>t_orders := [''oA'' \<mapsto> new_row key ''oA'']\<rparr>))(''p1'' \<mapsto> sold_one ''p1''),
           t_items := (t_items (empty_tables\<lparr>t_orders := [''oA'' \<mapsto> new_row key ''oA'']\<rparr>))(''i1'' \<mapsto> new_line ''i1'' ''oA'' ''p1'')\<rparr>))(''p2'' \<mapsto> sold_one ''p2''),
         t_items := (t_items (empty_tables
          \<lparr>t_orders := [''oA'' \<mapsto> new_row key ''oA''],
           t_products := (t_products (empty_tables\<lparr>t_orders := [''oA'' \<mapsto> new_row key ''oA'']\<rparr>))(''p1'' \<mapsto> sold_one ''p1''),
           t_items := (t_items (empty_tables\<lparr>t_orders := [''oA'' \<mapsto> new_row key ''oA'']\<rparr>))(''i1'' \<mapsto> new_line ''i1'' ''oA'' ''p1'')\<rparr>))(''i2'' \<mapsto> new_line ''i2'' ''oA'' ''p2'')\<rparr>))
     ?l (overlay two_products ?D) Idle" by simp
qed (simp_all add: key_unused_def)

lemma same_key_run:
  "reaches (two_products, launch (\<lambda>p. request_prog
        (two (CreateOrder (pair_dto (Some ''k'') ''p1'' ''p2'') None) (CreateOrder (pair_dto (Some ''k'') ''p1'' ''p2'') None) p)))
      (overlay two_products (pair_tables (Some ''k'')),
       two \<lparr>se_prog = Return (Inr (Created (pair_order (Some ''k''), False))), se_tx = Idle\<rparr>
         \<lparr>se_prog = Return (Inr (Created (pair_order (Some ''k''), True))), se_tx = Idle\<rparr>)"
proof -
  let ?key = "Some ''k''" and ?r = "CreateOrder (pair_dto (Some ''k'') ''p1'' ''p2'') None"
  let ?T = "overlay two_products (pair_tables ?key)"
  let ?made = "\<lparr>se_prog = Return (Inr (Created (pair_order ?key, False))), se_tx = Idle\<rparr> :: outcome session"
  have 1: "chain empty_tables two_products Idle ((FindOrderByKey ''k'', AnOrder None) # places ?key) ?T Idle"
  proof (rule chainI [OF _ _ chain_places])
    show "effect (FindOrderByKey ''k'') two_products Idle (AnOrder None) two_products Idle" by (simp add: by_key_def)
  qed simp
  have "chain (own (se_tx \<lparr>se_prog = request_prog ?r, se_tx = Idle\<rparr>)) two_products Idle
      ((FindOrderByKey ''k'', AnOrder None) # places ?key) ?T Idle"
    using 1 by (simp only: session.simps own_simps)
  note a = run_first [OF follow_places this reaches_start]
  have "effect (FindOrderByKey ''k'') ?T Idle (AnOrder (Some (pair_order ?key))) ?T Idle"
    unfolding effect.simps by_key_def using pair_loaded by (auto simp del: overlay_simps)
  then have "chain (own (se_tx ?made)) ?T Idle [(FindOrderByKey ''k'', AnOrder (Some (pair_order ?key)))] ?T Idle"
    by (intro chainI) auto
  from run_second [OF follow_found this a] show ?thesis .
qed

section \<open>Two creates in one order\<close>

lemma follow_begins:
  "\<exists>k. follow (request_prog (CreateOrder (pair_dto None a b) None)) (begins None oid) = Some (Do (FindProduct a) k)"
  by (simp add: create_eval begins_def nullish_def Let_def)

lemma waiting_run:
  "\<exists>S. reaches (two_products, launch (\<lambda>p. request_prog
        (two (CreateOrder (pair_dto None ''p1'' ''p2'') None) (CreateOrder (pair_dto None ''p1'' ''p2'') None) p)))
      (two_products, S) \<and> (\<exists>k. se_prog (S False) = Do (FindProduct ''p1'') k) \<and>
    ''p1'' \<in> dom (t_products (own (se_tx (S True))))"
proof -
  let ?r = "CreateOrder (pair_dto None ''p1'' ''p2'') None" and ?A = "holds_item None ''oA'' ''iA'' ''p1''"
  obtain ka kb where follow: "follow (request_prog ?r) (begins None ''oA'' @ takes ''oA'' ''iA'' ''p1'') = Some (Do (FindProduct ''p2'') ka)"
    "follow (request_prog ?r) (begins None ''oB'') = Some (Do (FindProduct ''p1'') kb)"
    using follow_first_item follow_begins by blast
  have sep: "apart (empty_tables\<lparr>t_orders := [''oB'' \<mapsto> new_row None ''oB'']\<rparr>) ?A"
    by (auto simp: apart_def holds_item_def)
  let ?S = "two \<lparr>se_prog = Do (FindProduct ''p2'') ka, se_tx = Active ?A\<rparr>
    \<lparr>se_prog = Do (FindProduct ''p1'') kb, se_tx = Active (empty_tables\<lparr>t_orders := [''oB'' \<mapsto> new_row None ''oB'']\<rparr>)\<rparr>"
  have "chain ?A two_products Idle (begins None ''oB'' @ []) two_products
      (Active (empty_tables\<lparr>t_orders := [''oB'' \<mapsto> new_row None ''oB'']\<rparr>))"
    by (rule chain_begins) (use sep in \<open>simp_all add: key_unused_def\<close>)
  moreover have "chain empty_tables two_products Idle (begins None ''oA'' @ takes ''oA'' ''iA'' ''p1'') two_products (Active ?A)"
    by (rule chain_first_item) simp_all
  ultimately have "reaches (two_products, launch (\<lambda>p. request_prog (two ?r ?r p))) (two_products, ?S)"
    by (intro run_second [OF follow(2) _ run_first [OF follow(1) _ reaches_start]]) simp_all
  moreover have "''p1'' \<in> dom (t_products (own (se_tx (?S True))))" by (simp add: holds_item_def)
  moreover have "se_prog (?S False) = Do (FindProduct ''p1'') kb" by simp
  ultimately show ?thesis by blast
qed

end
