(* ===== verification/ConcurrentProperties.thy ===== *)
theory ConcurrentProperties
  imports ConcurrentLocks ConcurrentRuns "HOL-Library.Countable"
begin

text \<open>
  What holds of requests and messages handled at once, in whatever order their statements run and
  whatever statements fail.
\<close>

section \<open>The log\<close>

lemma placed_finite:
  assumes "order_placed T userId key items x T'" and "finite (dom (t_items T))"
  shows "finite (dom (t_items T'))"
proof -
  have x: "set (o_items x) = items_of T' (o_id x)" "\<forall>i it. t_items T' i = Some it \<longrightarrow> oi_id it = i"
    "\<forall>oid. oid \<noteq> o_id x \<longrightarrow> items_of T' oid = items_of T oid"
    using assms(1) by (auto simp: order_placed_def loaded_def)
  have "ran (t_items T') \<subseteq> set (o_items x) \<union> ran (t_items T)"
  proof
    fix it
    assume it: "it \<in> ran (t_items T')"
    then have "it \<in> items_of T' (oi_orderId it)" by (simp add: items_of_def)
    with x(1,3) show "it \<in> set (o_items x) \<union> ran (t_items T)"
      by (cases "oi_orderId it = o_id x") (auto simp: items_of_def)
  qed
  then have "finite (ran (t_items T'))" using finite_ran [OF assms(2)] finite_subset by blast
  moreover have "dom (t_items T') \<subseteq> oi_id ` ran (t_items T')" using x(2) by (force simp: ran_def)
  ultimately show ?thesis using finite_surj by blast
qed

lemma request_effect_conserves:
  assumes "request_effect req T d T'" and "schema_ok T" and "finite (dom (t_items T))"
  shows "stock T' pid + sold T' pid = stock T pid + sold T pid \<and> (stock_ok T \<longrightarrow> stock_ok T') \<and>
    finite (dom (t_items T'))"
proof (cases req)
  case (CreateOrder dto ik)
  with assms show ?thesis
    by (auto simp: request_effect_def placed_finite placed_stock_ok placed_sold placed_stock(1))
next
  case (ProcessMessage at_ms message)
  with assms(1) have "t_products T' = t_products T" "t_items T' = t_items T"
    by (auto simp: request_effect_def marks_def)
  with assms(3) show ?thesis by (simp add: stock_def sold_def stock_ok_def)
qed

lemma commits_conserves:
  assumes "commits reqs T l T'" and "schema_ok T" and "finite (dom (t_items T))"
  shows "stock T' pid + sold T' pid = stock T pid + sold T pid \<and> (stock_ok T \<longrightarrow> stock_ok T')"
  using assms
proof (induction l arbitrary: T)
  case (Cons a l)
  obtain p d where a: "a = (p, d)" by fastforce
  with Cons.prems(1) obtain S where S: "request_effect (reqs p) T d S" "commits reqs S l T'" by (auto simp: commits_Cons)
  from request_evolves [OF Cons.prems(2) S(1)] Cons.prems(2) have "schema_ok S" by (simp add: evolves_def)
  with Cons.IH [OF S(2)] request_effect_conserves [OF S(1) Cons.prems(2,3), of pid] show ?case by simp
qed (simp add: commits_def)

lemma reached_log:
  assumes "requests_reach reqs T0 T S" and "schema_ok T0"
  shows "\<exists>l. schema_ok T \<and> commits reqs T0 l T \<and> distinct (map fst l) \<and>
    (\<forall>p v. se_prog (S p) = Return v \<longrightarrow> request_settled (reqs p) v T (se_tx (S p)) (map_of l p))"
proof -
  obtain l where l: "serialized (\<lambda>p. orderly (request_items (reqs p))) (\<lambda>p. request_effect (reqs p))
      (\<lambda>p. request_settled (reqs p)) T0 (T, S) l"
    using requests_serialized [OF assms] .
  from serializedD(1-3) [OF l] requests.outcome_serialized [OF l] show ?thesis
    by (intro exI [of _ l]) (simp add: commits_def)
qed

text \<open>The row of an order that a create has answered.\<close>

lemma created_row:
  assumes l: "commits reqs T0 l T" "schema_ok T0" and p: "reqs p = CreateOrder dto ik"
    and v: "request_settled (reqs p) (Inr (Created (x, dup))) T tx (map_of l p)"
  shows "\<exists>r. t_orders T (o_id x) = Some r \<and> o_idempotencyKey r = nullish ik (co_idempotencyKey dto)"
proof (cases dup)
  case True
  with v p show ?thesis by simp
next
  case False
  with v p have "map_of l p = Some (Placed x)" by simp
  then have "(p, Placed x) \<in> set l" by (rule map_of_SomeD)
  from commits_entry [OF l this] p obtain U V where
    "order_placed U (co_userId dto) (nullish ik (co_idempotencyKey dto)) (request_items (reqs p)) x V" "evolves V T"
    by (auto simp: request_effect_def)
  moreover then have "t_orders V (o_id x) = Some (order_row.truncate x)"
    "o_idempotencyKey (order_row.truncate x) = nullish ik (co_idempotencyKey dto)" by (simp_all add: order_placed_def)
  ultimately show ?thesis using evolves_key by metis
qed

text \<open>Two entries place two orders, and mark two messages.\<close>

lemma placed_then_placed:
  assumes "request_effect req U (Placed x) V" and "evolves V U'" and "request_effect req' U' (Placed y) V'"
  shows "o_id x \<noteq> o_id y"
proof -
  from assms(1) have "t_orders V (o_id x) = Some (order_row.truncate x)"
    by (cases req) (auto simp: request_effect_def order_placed_def)
  with evolves_orders [OF assms(2)] have "t_orders U' (o_id x) \<noteq> None" by fastforce
  moreover from assms(3) have "t_orders U' (o_id y) = None"
    by (cases req') (auto simp: request_effect_def order_placed_def)
  ultimately show ?thesis by metis
qed

lemma marked_then_marked:
  assumes "request_effect req U (Marked m i c) V" and "evolves V U'" and "request_effect req' U' (Marked m' i' c') V'"
  shows "m \<noteq> m'"
proof -
  from assms(1) have "t_processed V m \<noteq> None"
    by (cases req) (auto simp: request_effect_def marks_def marked_def split: if_splits)
  with assms(2) have "t_processed U' m \<noteq> None" unfolding evolves_def by blast
  moreover from assms(3) have "t_processed U' m' = None"
    by (cases req') (auto simp: request_effect_def marks_def)
  ultimately show ?thesis by metis
qed

text \<open>Two creates with one key: the first places its order, the second answers it.\<close>

abbreviation key_requests :: "bool \<Rightarrow> request" where
  "key_requests \<equiv> two (CreateOrder (pair_dto (Some ''k'') ''p1'' ''p2'') None)
    (CreateOrder (pair_dto (Some ''k'') ''p1'' ''p2'') None)"

abbreviation key_sessions :: "bool \<Rightarrow> outcome session" where
  "key_sessions \<equiv> two \<lparr>se_prog = Return (Inr (Created (pair_order (Some ''k''), False))), se_tx = Idle\<rparr>
    \<lparr>se_prog = Return (Inr (Created (pair_order (Some ''k''), True))), se_tx = Idle\<rparr>"

abbreviation key_tables :: tables where
  "key_tables \<equiv> overlay two_products (pair_tables (Some ''k''))"

lemma two_products_ok: "schema_ok two_products" "stock_ok two_products" "finite (dom (t_items two_products))"
  by (auto simp: schema_ok_def own_ids_def unique_keys_def foreign_keys_def stock_ok_def split: if_splits)

lemma same_key_reach: "requests_reach key_requests two_products key_tables key_sessions"
  using same_key_run by (simp only: requests_reach_def)

lemma key_requests_simps: "key_requests p = CreateOrder (pair_dto (Some ''k'') ''p1'' ''p2'') None"
  by (simp add: two_def)

section \<open>Properties\<close>



text \<open>
  C3. No oversell: with any number of creates at once, stock and sold quantities balance in every
  state the committed tables pass through, no stock becomes negative and the constraints hold.
\<close>

theorem concurrent_no_oversell:
  assumes "requests_reach reqs T0 T S" and "schema_ok T0" and "stock_ok T0" and "finite (dom (t_items T0))"
  shows "stock T pid + sold T pid = stock T0 pid + sold T0 pid \<and> stock_ok T \<and> schema_ok T"
  using reached_log [OF assms(1,2)] commits_conserves [OF _ assms(2,4)] assms(3) by blast

theorem concurrent_no_oversell_witness:
  "stock key_tables ''p1'' = 4 \<and> sold key_tables ''p1'' = 1 \<and> stock_ok key_tables"
proof -
  have "stock key_tables ''p1'' = 4" by (simp add: stock_def pair_tables_def)
  moreover have "stock two_products ''p1'' = 5" by (simp add: stock_def)
  moreover have "sold two_products ''p1'' = 0" by (simp add: sold_def)
  moreover note concurrent_no_oversell [OF same_key_reach two_products_ok, of "''p1''"]
  ultimately show ?thesis by simp
qed

text \<open>
  C6. Creates with the same idempotency key, at once: whichever succeed answer one order, and at most
  one of them created it.
\<close>

theorem one_order_per_key:
  assumes "requests_reach reqs T0 T S" and "schema_ok T0"
    and "reqs p = CreateOrder dto ik" and "nullish ik (co_idempotencyKey dto) = Some k"
    and "reqs q = CreateOrder dto' ik'" and "nullish ik' (co_idempotencyKey dto') = Some k"
    and "se_prog (S p) = Return (Inr (Created (x, dup)))" and "se_prog (S q) = Return (Inr (Created (y, dup')))"
  shows "o_id x = o_id y \<and> (p \<noteq> q \<longrightarrow> dup \<or> dup')"
proof -
  from reached_log [OF assms(1,2)] obtain l where l: "schema_ok T" "commits reqs T0 l T" and
    settled: "\<And>p v. se_prog (S p) = Return v \<Longrightarrow> request_settled (reqs p) v T (se_tx (S p)) (map_of l p)" by blast
  note vp = settled [OF assms(7)] and vq = settled [OF assms(8)]
  from created_row [OF l(2) assms(2,3) vp] created_row [OF l(2) assms(2,5) vq] assms(4,6) l(1)
  have same: "o_id x = o_id y" by (auto simp: schema_ok_def unique_keys_def)
  have "dup \<or> dup'" if "p \<noteq> q"
  proof (rule ccontr)
    assume "\<not> (dup \<or> dup')"
    with vp vq assms(3,5) have "map_of l p = Some (Placed x)" "map_of l q = Some (Placed y)" by simp_all
    then have "(p, Placed x) \<in> set l" "(q, Placed y) \<in> set l" by (auto dest: map_of_SomeD)
    from commits_pair [OF l(2) assms(2) this that] placed_then_placed same show False by metis
  qed
  with same show ?thesis by blast
qed

theorem one_order_per_key_witness:
  "\<exists>x y dup dup'. se_prog (key_sessions True) = Return (Inr (Created (x, dup))) \<and>
    se_prog (key_sessions False) = Return (Inr (Created (y, dup'))) \<and> o_id x = o_id y \<and> (dup \<or> dup')"
proof -
  have "nullish None (co_idempotencyKey (pair_dto (Some ''k'') ''p1'' ''p2'')) = Some ''k''" by (simp add: nullish_def)
  note key = key_requests_simps this
  have sessions: "se_prog (key_sessions True) = Return (Inr (Created (pair_order (Some ''k''), False)))"
    "se_prog (key_sessions False) = Return (Inr (Created (pair_order (Some ''k''), True)))" by simp_all
  from one_order_per_key [OF same_key_reach two_products_ok(1), of True _ _ _ False, OF key key sessions] sessions
  show ?thesis by blast
qed

text \<open>
  C7. Deliveries of one message at once, to any number of workers: at most one of them is not answered
  as a duplicate.
\<close>

theorem message_once_concurrently:
  assumes "requests_reach reqs T0 T S" and "schema_ok T0" and "p \<noteq> q"
    and "reqs p = ProcessMessage at_ms message" and "reqs q = ProcessMessage at_ms' message'"
    and "property message ''messageId'' = property message' ''messageId''"
    and "se_prog (S p) = Return (Inr (Handled res))" and "se_prog (S q) = Return (Inr (Handled res'))"
  shows "ptr_deduplicated res \<or> ptr_deduplicated res'"
proof (rule ccontr)
  assume none: "\<not> (ptr_deduplicated res \<or> ptr_deduplicated res')"
  from reached_log [OF assms(1,2)] obtain l where l: "commits reqs T0 l T" and
    settled: "\<And>p v. se_prog (S p) = Return v \<Longrightarrow> request_settled (reqs p) v T (se_tx (S p)) (map_of l p)" by blast
  from settled [OF assms(7)] settled [OF assms(8)] none assms(4-6) obtain m i c i' c' where
    "map_of l p = Some (Marked m i c)" "map_of l q = Some (Marked m i' c')"
    by (auto simp: process_settled_def)
  then have "(p, Marked m i c) \<in> set l" "(q, Marked m i' c') \<in> set l" by (auto dest: map_of_SomeD)
  from commits_pair [OF l assms(2) this assms(3)] marked_then_marked show False by metis
qed

theorem message_once_concurrently_witness:
  "\<exists>T S res res'. requests_reach (\<lambda>p. ProcessMessage 2000 (demo_message ''m1'' ''o1''))
       (ref_tabs (demo_db [demo_order None])) T S \<and>
     se_prog (S True) = Return (Inr (Handled res)) \<and> se_prog (S False) = Return (Inr (Handled res')) \<and>
     (ptr_deduplicated res \<or> ptr_deduplicated res')"
proof -
  let ?r = "ProcessMessage 2000 (demo_message ''m1'' ''o1'')"
  have two: "(\<lambda>p. request_prog (two ?r ?r p)) = (\<lambda>p. request_prog ?r)" by (simp add: two_def)
  from redelivery_run obtain T S res res' where
    S: "requests_reach (\<lambda>p :: bool. ?r) (ref_tabs (demo_db [demo_order None])) T S"
      "se_prog (S True) = Return (Inr (Handled res))" "se_prog (S False) = Return (Inr (Handled res'))"
    unfolding two requests_reach_def [symmetric] using two_simps by fastforce
  from message_once_concurrently [OF S(1) _ _ refl refl refl S(2,3)] S demo_db_ok show ?thesis by blast
qed

text \<open>
  C9. Locks in one order: when the items of every create name the products in ascending order of
  some numbering, no reachable state has a circle of requests that wait for each other.
\<close>

theorem ascending_no_deadlock:
  assumes "requests_reach reqs T0 T S" and "schema_ok T0" and "inj (f :: string \<Rightarrow> nat)"
    and "\<And>p. sorted (map (\<lambda>i. f (ci_productId i)) (request_items (reqs p)))"
  shows "acyclic (waits_for S)"
proof -
  let ?W = "waits_for S"
  note turn = reached_in_turn [OF assms(1,2)]
  have irrefl: "y \<noteq> z" if "(y, z) \<in> ?W" for y z
    using that by (simp add: waits_for_def)
  have before: "\<exists>w. (w, y) \<in> ?W \<and> (z, w) \<in> ?W\<^sup>*" if "(y, z) \<in> ?W" "(z, y) \<in> ?W\<^sup>*" for y z
    using that(2) irrefl [OF that(1)] by (auto elim: rtranclE)
  have edge: "f (wanted (S y)) < f (wanted (S z))" if yz: "(y, z) \<in> ?W" "(z, y) \<in> ?W\<^sup>*" for y z
  proof -
    from before [OF yz] obtain w where w: "(w, y) \<in> ?W" "(z, w) \<in> ?W\<^sup>*" by blast
    then have "(y, w) \<in> ?W\<^sup>*" using yz(1) by (meson converse_rtrancl_into_rtrancl)
    from before [OF w(1) this] obtain v where v: "(v, w) \<in> ?W" by blast
    obtain u where u: "(z, u) \<in> ?W" using yz(2) irrefl [OF yz(1)] by (auto elim: converse_rtranclE)
    from circle_locks [OF turn v w(1) yz(1)] circle_locks [OF turn w(1) yz(1) u] obtain a b k k' where
      "se_prog (S y) = Do (FindProduct a) k" "se_prog (S z) = Do (FindProduct b) k'" by blast
    with circle_rises [OF turn assms(3,4) _ _ yz(1) u] show ?thesis by (simp add: wanted_def)
  qed
  have "(y, x) \<in> ?W\<^sup>* \<longrightarrow> f (wanted (S x)) < f (wanted (S y))" if "(x, y) \<in> ?W\<^sup>+" for x y
    using that
  proof induction
    case (base y)
    then show ?case using edge by blast
  next
    case (step y z)
    show ?case
    proof
      assume "(z, x) \<in> ?W\<^sup>*"
      with step.hyps have "(y, x) \<in> ?W\<^sup>*" "(z, y) \<in> ?W\<^sup>*"
        by (meson converse_rtrancl_into_rtrancl, meson rtrancl_trans trancl_into_rtrancl)
      with step.IH edge [OF step.hyps(2)] show "f (wanted (S x)) < f (wanted (S z))" by linarith
    qed
  qed
  then show ?thesis unfolding acyclic_def by (meson less_irrefl rtrancl.rtrancl_refl)
qed

theorem ascending_no_deadlock_witness:
  "\<exists>S. requests_reach (\<lambda>p :: bool. CreateOrder (pair_dto None ''p1'' ''p2'') None) two_products two_products S \<and>
    (False, True) \<in> waits_for S \<and> acyclic (waits_for S)"
proof -
  let ?r = "CreateOrder (pair_dto None ''p1'' ''p2'') None"
  let ?f = "\<lambda>s. if s = ''p1'' then 0 else if s = ''p2'' then 1 else to_nat s + 2 :: nat"
  have two: "(\<lambda>p. request_prog (two ?r ?r p)) = (\<lambda>p. request_prog ?r)" by (simp add: two_def)
  from waiting_run obtain S k where S: "requests_reach (\<lambda>p :: bool. ?r) two_products two_products S"
    "se_prog (S False) = Do (FindProduct ''p1'') k" "''p1'' \<in> dom (t_products (own (se_tx (S True))))"
    unfolding two requests_reach_def [symmetric] by blast
  then have "(False, True) \<in> waits_for S" by (simp add: waits_for_def)
  moreover have "inj ?f" by (rule injI) (simp split: if_splits)
  then have "acyclic (waits_for S)"
    by (rule ascending_no_deadlock [OF S(1) two_products_ok(1)]) (simp add: request_items_def)
  ultimately show ?thesis using S(1) by blast
qed

end
