(* ===== verification/Wiring.thy ===== *)
theory Wiring
  imports Prelude
begin

text \<open>
  The modules of the two processes (the \<^verbatim>\<open>*.module.ts\<close> files) and what the constructors of
  their classes ask for. The container that creates the instances is the framework's: a class can
  be given what its module provides, what the modules it imports export and what global modules
  export. What a library module provides is an argument, with its documentation as the locale
  \<open>library_modules\<close>.
\<close>

section \<open>Classes\<close>

text \<open>What a constructor asks for: a provider by its token, or the repository of an entity.\<close>

datatype token = Provider string | Repository string

datatype hook = OnModuleInit | OnModuleDestroy | OnApplicationBootstrap

datatype class_info = Class (c_name: string) (c_needs: "token list") (c_hooks: "hook list")

definition c_AuthController :: class_info where
  "c_AuthController = Class ''AuthController'' [Provider ''AuthService''] []"

definition c_AuthService :: class_info where
  "c_AuthService = Class ''AuthService'' [Provider ''JwtService'', Repository ''User''] []"

definition c_JwtStrategy :: class_info where
  "c_JwtStrategy = Class ''JwtStrategy'' [Provider ''ConfigService''] []"

definition c_UsersController :: class_info where
  "c_UsersController = Class ''UsersController'' [Provider ''UsersService''] []"

definition c_UsersService :: class_info where
  "c_UsersService = Class ''UsersService'' [Repository ''User''] []"

definition c_ProductsController :: class_info where
  "c_ProductsController = Class ''ProductsController'' [Provider ''ProductsService''] []"

definition c_ProductsService :: class_info where
  "c_ProductsService = Class ''ProductsService'' [Repository ''Product''] []"

definition c_RabbitmqService :: class_info where
  "c_RabbitmqService = Class ''RabbitmqService''
     [Provider ''ConfigService'']
     [OnModuleInit, OnModuleDestroy]"

definition c_OrdersController :: class_info where
  "c_OrdersController = Class ''OrdersController''
     [Provider ''OrdersService'', Provider ''PaymentsGrpcClient'']
     []"

definition c_OrdersService :: class_info where
  "c_OrdersService = Class ''OrdersService''
     [Provider ''DataSource'', Repository ''Order'', Repository ''User'',
      Provider ''OrdersEventsService'', Provider ''RabbitmqService'']
     []"

definition c_OrdersEventsService :: class_info where
  "c_OrdersEventsService = Class ''OrdersEventsService'' [] [OnModuleDestroy]"

definition c_PaymentsGrpcClient :: class_info where
  "c_PaymentsGrpcClient = Class ''PaymentsGrpcClient''
     [Provider ''PAYMENTS_GRPC_CLIENT'', Provider ''ConfigService'']
     [OnModuleInit]"

definition c_FilesController :: class_info where
  "c_FilesController = Class ''FilesController'' [Provider ''FilesService''] []"

definition c_FilesService :: class_info where
  "c_FilesService = Class ''FilesService''
     [Repository ''FileRecord'', Repository ''Product'', Repository ''User'', Provider ''S3Service'']
     []"

definition c_S3Service :: class_info where
  "c_S3Service = Class ''S3Service'' [Provider ''ConfigService''] []"

definition c_OrdersGateway :: class_info where
  "c_OrdersGateway = Class ''OrdersGateway''
     [Provider ''JwtService'', Provider ''OrdersService'', Provider ''OrdersEventsService'']
     [OnModuleInit, OnModuleDestroy]"

definition c_OrdersWorkerService :: class_info where
  "c_OrdersWorkerService = Class ''OrdersWorkerService''
     [Provider ''RabbitmqService'', Provider ''OrdersService'', Provider ''ConfigService'']
     [OnApplicationBootstrap]"

definition c_OrdersResolver :: class_info where
  "c_OrdersResolver = Class ''OrdersResolver'' [Provider ''OrdersService''] []"

definition c_ProductsResolver :: class_info where
  "c_ProductsResolver = Class ''ProductsResolver'' [Provider ''ProductsService''] []"

definition c_OrderItemResolver :: class_info where
  "c_OrderItemResolver = Class ''OrderItemResolver'' [Provider ''ProductLoader''] []"

definition c_ProductLoader :: class_info where
  "c_ProductLoader = Class ''ProductLoader'' [Repository ''Product''] []"

definition c_PaymentsGrpcController :: class_info where
  "c_PaymentsGrpcController = Class ''PaymentsGrpcController'' [Provider ''PaymentsService''] []"

definition c_PaymentsService :: class_info where
  "c_PaymentsService = Class ''PaymentsService'' [] []"

section \<open>Modules\<close>

datatype library =
    ForFeature "string list"
  | ForRootDatabase
  | ConfigRoot
  | JwtModule
  | PassportModule
  | GrpcClients string
  | GraphQL

record exports =
  ex_classes :: "string list"
  ex_libraries :: "library list"

datatype nest_module = Module
  (m_global: bool)
  (m_libraries: "library list")
  (m_imports: "nest_module list")
  (m_controllers: "class_info list")
  (m_providers: "class_info list")
  (m_exports: exports)

abbreviation exporting :: "string list \<Rightarrow> library list \<Rightarrow> exports" where
  "exporting cs ls \<equiv> \<lparr>ex_classes = cs, ex_libraries = ls\<rparr>"

definition rabbitmq_module :: nest_module where
  "rabbitmq_module = Module True [] [] [] [c_RabbitmqService] (exporting [''RabbitmqService''] [])"

definition products_module :: nest_module where
  "products_module = Module False [ForFeature [''Product'']] [] [c_ProductsController]
     [c_ProductsService] (exporting [''ProductsService''] [ForFeature [''Product'']])"

definition user_module :: nest_module where
  "user_module = Module False [ForFeature [''User'']] [] [c_UsersController]
     [c_UsersService] (exporting [''UsersService''] [ForFeature [''User'']])"

definition orders_module :: nest_module where
  "orders_module = Module False
     [GrpcClients ''PAYMENTS_GRPC_CLIENT'', ForFeature [''Order'', ''OrderItem'', ''User'', ''ProcessedMessage'']] []
     [c_OrdersController]
     [c_OrdersService, c_OrdersEventsService, c_PaymentsGrpcClient]
     (exporting [''OrdersService'', ''OrdersEventsService'']
       [ForFeature [''Order'', ''OrderItem'', ''User'', ''ProcessedMessage'']])"

definition auth_module :: nest_module where
  "auth_module = Module False [ForFeature [''User''], PassportModule, JwtModule] []
     [c_AuthController] [c_AuthService, c_JwtStrategy] (exporting [] [JwtModule])"

definition files_module :: nest_module where
  "files_module = Module False [ForFeature [''FileRecord'', ''Product'', ''User'']] []
     [c_FilesController] [c_FilesService, c_S3Service]
     (exporting [''FilesService''] [ForFeature [''FileRecord'', ''Product'', ''User'']])"

definition realtime_module :: nest_module where
  "realtime_module = Module False [] [auth_module, orders_module] [] [c_OrdersGateway] (exporting [] [])"

definition worker_module :: nest_module where
  "worker_module = Module False [] [orders_module] [] [c_OrdersWorkerService] (exporting [] [])"

definition app_module :: nest_module where
  "app_module = Module False [ConfigRoot, GraphQL, ForRootDatabase]
     [rabbitmq_module, orders_module, products_module, user_module, auth_module, files_module,
      realtime_module, worker_module]
     []
     [c_OrdersResolver, c_ProductsResolver, c_OrderItemResolver, c_ProductLoader] (exporting [] [])"

definition payments_module :: nest_module where
  "payments_module = Module False [ConfigRoot] [] [c_PaymentsGrpcController] [c_PaymentsService]
     (exporting [] [])"

section \<open>The container\<close>

fun modules :: "nest_module \<Rightarrow> nest_module list" where
  "modules (Module g ls ms cs ps ex) = Module g ls ms cs ps ex # concat (map modules ms)"

definition classes_of :: "nest_module \<Rightarrow> class_info list" where
  "classes_of m = m_controllers m @ m_providers m"

definition app_classes :: "nest_module \<Rightarrow> class_info list" where
  "app_classes app = concat (map classes_of (modules app))"

definition hook_classes :: "hook \<Rightarrow> nest_module \<Rightarrow> string list" where
  "hook_classes h app = remdups (map c_name (filter (\<lambda>c. h \<in> set (c_hooks c)) (app_classes app)))"

definition exported :: "(library \<Rightarrow> token list) \<Rightarrow> nest_module \<Rightarrow> token list" where
  "exported gives m = map Provider (ex_classes (m_exports m)) @ concat (map gives (ex_libraries (m_exports m)))"

text \<open>The configuration and the connection are global, \<open>isGlobal\<close> and \<open>forRootAsync\<close>.\<close>

fun global_library :: "library \<Rightarrow> bool" where
  "global_library ConfigRoot = True"
| "global_library ForRootDatabase = True"
| "global_library _ = False"

definition global_tokens :: "(library \<Rightarrow> token list) \<Rightarrow> nest_module \<Rightarrow> token list" where
  "global_tokens gives app =
     concat (map (exported gives) (filter m_global (modules app))) @
     concat (map gives (filter global_library (concat (map m_libraries (modules app)))))"

definition available :: "(library \<Rightarrow> token list) \<Rightarrow> nest_module \<Rightarrow> nest_module \<Rightarrow> token list" where
  "available gives app m =
     map (Provider \<circ> c_name) (m_providers m) @ concat (map gives (m_libraries m)) @
     concat (map (exported gives) (m_imports m)) @ global_tokens gives app"

definition wired :: "(library \<Rightarrow> token list) \<Rightarrow> nest_module \<Rightarrow> bool" where
  "wired gives app \<longleftrightarrow>
     list_all (\<lambda>m. list_all (\<lambda>c. set (c_needs c) \<subseteq> set (available gives app m)) (classes_of m)) (modules app)"

text \<open>An order of creation: a class after those of the application it asks for.\<close>

fun creates :: "string list \<Rightarrow> class_info list \<Rightarrow> bool" where
  "creates pending [] \<longleftrightarrow> pending = []"
| "creates pending (c # cs) \<longleftrightarrow> c_name c \<in> set pending \<and>
     list_all (\<lambda>p. Provider p \<notin> set (c_needs c)) pending \<and> creates (removeAll (c_name c) pending) cs"

definition creatable :: "nest_module \<Rightarrow> bool" where
  "creatable app \<longleftrightarrow>
     (\<exists>order. set order = set (app_classes app) \<and> creates (remdups (map c_name (app_classes app))) order)"

section \<open>Library modules\<close>

locale library_modules =
  fixes gives :: "library \<Rightarrow> token list"
  assumes gives_repository: "e \<in> set es \<Longrightarrow> Repository e \<in> set (gives (ForFeature es))"
    and gives_config: "Provider ''ConfigService'' \<in> set (gives ConfigRoot)"
    and gives_database: "Provider ''DataSource'' \<in> set (gives ForRootDatabase)"
    and gives_jwt: "Provider ''JwtService'' \<in> set (gives JwtModule)"
    and gives_client: "Provider name \<in> set (gives (GrpcClients name))"
begin

lemmas given = gives_repository gives_config gives_database gives_jwt gives_client

end

fun ref_gives :: "library \<Rightarrow> token list" where
  "ref_gives (ForFeature es) = map Repository es"
| "ref_gives ConfigRoot = [Provider ''ConfigService'']"
| "ref_gives ForRootDatabase = [Provider ''DataSource'']"
| "ref_gives JwtModule = [Provider ''JwtService'']"
| "ref_gives (GrpcClients name) = [Provider name]"
| "ref_gives _ = []"

interpretation ref_libraries: library_modules ref_gives
  by unfold_locales simp_all

lemmas class_defs =
  c_AuthController_def c_AuthService_def c_JwtStrategy_def c_UsersController_def
  c_UsersService_def c_ProductsController_def c_ProductsService_def c_RabbitmqService_def
  c_OrdersController_def c_OrdersService_def c_OrdersEventsService_def c_PaymentsGrpcClient_def
  c_FilesController_def c_FilesService_def c_S3Service_def c_OrdersGateway_def
  c_OrdersWorkerService_def c_OrdersResolver_def c_ProductsResolver_def c_OrderItemResolver_def
  c_ProductLoader_def c_PaymentsGrpcController_def c_PaymentsService_def

lemmas module_defs = rabbitmq_module_def products_module_def user_module_def orders_module_def
  auth_module_def files_module_def realtime_module_def worker_module_def app_module_def payments_module_def

lemma app_hooks:
  "hook_classes OnModuleInit app_module = [''RabbitmqService'', ''OrdersGateway'', ''PaymentsGrpcClient'']"
  "hook_classes OnApplicationBootstrap app_module = [''OrdersWorkerService'']"
  by (simp_all add: hook_classes_def app_classes_def classes_of_def module_defs class_defs)

context library_modules
begin

lemma both_wired: "wired gives app_module" "wired gives payments_module"
  using given by (auto simp: wired_def available_def global_tokens_def exported_def classes_of_def module_defs class_defs)

end

lemma app_creatable: "creatable app_module"
  unfolding creatable_def
  by (rule exI [of _ "[c_RabbitmqService, c_OrdersEventsService, c_PaymentsGrpcClient, c_OrdersService,
      c_OrdersController, c_ProductsService, c_ProductsController, c_UsersService, c_UsersController,
      c_AuthService, c_JwtStrategy, c_AuthController, c_S3Service, c_FilesService, c_FilesController,
      c_OrdersGateway, c_OrdersWorkerService, c_OrdersResolver, c_ProductsResolver, c_ProductLoader,
      c_OrderItemResolver]"])
    (simp add: app_classes_def classes_of_def module_defs class_defs insert_commute)

lemma payments_creatable: "creatable payments_module"
  unfolding creatable_def
  by (rule exI [of _ "[c_PaymentsService, c_PaymentsGrpcController]"])
    (auto simp: app_classes_def classes_of_def module_defs class_defs)

text \<open>
  C37. Every class of both processes is given what its constructor asks for, whatever else the
  libraries provide, and no classes ask for each other in a circle, so that the container can
  create them all.
\<close>

theorem application_wired:
  assumes "library_modules gives" and "app \<in> {app_module, payments_module}"
  shows "wired gives app \<and> creatable app"
  using assms(2) library_modules.both_wired [OF assms(1)] app_creatable payments_creatable by blast

theorem application_wired_witness: "wired ref_gives app_module \<and> creatable app_module"
  using application_wired [OF ref_libraries.library_modules_axioms] by blast

end
