(* ===== verification/Startup.thy ===== *)
theory Startup
  imports Wiring Worker S3
begin

text \<open>
  Configuration and start of the two processes: \<^verbatim>\<open>main.ts\<close>, \<^verbatim>\<open>payments-service/main.ts\<close>, the
  factories of the modules, the data source of the command line tools. The order of the hooks is
  an argument: the framework awaits every \<open>onModuleInit\<close> before the first
  \<open>onApplicationBootstrap\<close>, and starts to listen after that.
\<close>

section \<open>Configuration\<close>

text \<open>\<open>NODE_ENV || 'dev'\<close>\<close>

definition env_files :: "string option \<Rightarrow> string list" where
  "env_files nodeEnv = [''.env.'' @ (if truthy nodeEnv then the nodeEnv else ''dev''), ''.env'']"

record database_options =
  db_host :: "string option"
  db_port :: jsnum
  db_username :: "string option"
  db_password :: "string option"
  db_name :: "string option"
  db_ssl :: "bool option"

text \<open>\<open>Number(v) || 1234\<close>; \<open>db_ssl\<close> holds \<open>rejectUnauthorized\<close>.\<close>

definition port_or :: "jsnum \<Rightarrow> rat \<Rightarrow> jsnum" where
  "port_or n fallback = (if n = Fin 0 \<or> n = NaN then Fin fallback else n)"

definition app_database :: "settings \<Rightarrow> database_options" where
  "app_database config =
     \<lparr>db_host = config ''DB_HOST'', db_port = port_or (js_Number_opt (config ''DB_PORT'')) 1234,
      db_username = config ''DB_USER'', db_password = config ''DB_PASS'', db_name = config ''DB_NAME'',
      db_ssl = (if config ''DB_SSL'' = Some ''true'' then Some False else None)\<rparr>"

definition cli_database :: "settings \<Rightarrow> database_options" where
  "cli_database env =
     \<lparr>db_host = env ''DB_HOST'', db_port = port_or (js_Number_opt (env ''DB_PORT'')) 1234,
      db_username = env ''DB_USER'', db_password = env ''DB_PASS'', db_name = env ''DB_NAME'',
      db_ssl = (if env ''DB_SSL'' = Some ''true'' then Some False else None)\<rparr>"

text \<open>The entities: listed for the command line tools, loaded from the modules by the application.\<close>

definition cli_entities :: "string list" where
  "cli_entities = [''User'', ''Product'', ''Order'', ''OrderItem'', ''ProcessedMessage'']"

fun feature_entities :: "library \<Rightarrow> string list" where
  "feature_entities (ForFeature es) = es"
| "feature_entities _ = []"

definition app_entities :: "nest_module \<Rightarrow> string list" where
  "app_entities app = concat (map feature_entities (concat (map m_libraries (modules app))))"

lemma cli_entities_missing: "set (app_entities app_module) - set cli_entities = {''FileRecord''}"
  by (auto simp: app_entities_def cli_entities_def module_defs)

record jwt_options =
  jwt_secret :: string
  jwt_expiresIn :: string

definition get_or_throw :: "settings \<Rightarrow> string \<Rightarrow> exn + string" where
  "get_or_throw config key =
     (case config key of
        None \<Rightarrow> Inl (TypeError (''Configuration key '' @ key @ '' does not exist''))
      | Some v \<Rightarrow> Inr v)"

definition jwt_module_options :: "settings \<Rightarrow> exn + jwt_options" where
  "jwt_module_options config =
     (case get_or_throw config ''JWT_SECRET'' of
        Inl e \<Rightarrow> Inl e
      | Inr secret \<Rightarrow> Inr \<lparr>jwt_secret = secret,
          jwt_expiresIn = the (nullish (config ''JWT_EXPIRES_IN'') (Some ''15m''))\<rparr>)"

record strategy_options =
  so_ignoreExpiration :: bool
  so_secretOrKey :: string

definition jwt_strategy_options :: "settings \<Rightarrow> exn + strategy_options" where
  "jwt_strategy_options config =
     (case get_or_throw config ''JWT_SECRET'' of
        Inl e \<Rightarrow> Inl e
      | Inr secret \<Rightarrow> Inr \<lparr>so_ignoreExpiration = False, so_secretOrKey = secret\<rparr>)"

text \<open>What both ends of the payments connection are configured with.\<close>

record grpc_options =
  gr_package :: string
  gr_protoPath :: string
  gr_url :: string
  gr_keepCase :: bool
  gr_longs :: string
  gr_enums :: string
  gr_defaults :: bool
  gr_oneofs :: bool

definition PAYMENTS_PACKAGE_NAME :: string where
  "PAYMENTS_PACKAGE_NAME = ''payments.v1''"

definition orders_grpc_options :: "string \<Rightarrow> settings \<Rightarrow> grpc_options" where
  "orders_grpc_options cwd config =
     \<lparr>gr_package = PAYMENTS_PACKAGE_NAME, gr_protoPath = cwd @ ''/proto/payments.proto'',
      gr_url = some_or (config ''PAYMENTS_GRPC_URL'') ''localhost:5022'',
      gr_keepCase = False, gr_longs = ''String'', gr_enums = ''String'', gr_defaults = True, gr_oneofs = True\<rparr>"

definition payments_grpc_options :: "string \<Rightarrow> settings \<Rightarrow> grpc_options" where
  "payments_grpc_options cwd config =
     \<lparr>gr_package = PAYMENTS_PACKAGE_NAME, gr_protoPath = cwd @ ''/proto/payments.proto'',
      gr_url = some_or (config ''PAYMENTS_GRPC_BIND_URL'') ''0.0.0.0:5022'',
      gr_keepCase = False, gr_longs = ''String'', gr_enums = ''String'', gr_defaults = True, gr_oneofs = True\<rparr>"

definition PAYMENTS_SERVICE_NAME :: string where
  "PAYMENTS_SERVICE_NAME = ''Payments''"

text \<open>The port after the last colon of an address.\<close>

definition port_of :: "string \<Rightarrow> string" where
  "port_of url = rev (takeWhile (\<lambda>c. c \<noteq> CHR '':'') (rev url))"

text \<open>
  With nothing configured the orders side calls the port the payments process binds, with the
  same interface; and the command line tools use the database of the application.
\<close>

lemma grpc_agrees:
  "gr_package (orders_grpc_options cwd config) = gr_package (payments_grpc_options cwd config')"
  "gr_protoPath (orders_grpc_options cwd config) = gr_protoPath (payments_grpc_options cwd config')"
  "config ''PAYMENTS_GRPC_URL'' = None \<Longrightarrow> config' ''PAYMENTS_GRPC_BIND_URL'' = None \<Longrightarrow>
    port_of (gr_url (orders_grpc_options cwd config)) = port_of (gr_url (payments_grpc_options cwd config'))"
  by (simp_all add: orders_grpc_options_def payments_grpc_options_def port_of_def)

lemma same_database: "cli_database env = app_database env"
  by (simp add: cli_database_def app_database_def)

section \<open>Start of the application\<close>

record ('ds, 'th) application =
  ap_rabbit :: rabbit_state
  ap_events :: "('ds, 'th) events_state"
  ap_payments :: bool
  ap_port :: "string option"

definition stopped :: "('ds, 'th) application" where
  "stopped = \<lparr>ap_rabbit = rabbit_init, ap_events = events_init, ap_payments = False, ap_port = None\<rparr>"

text \<open>What the process finds: settings, the broker, the database, the payments interface.\<close>

record surroundings =
  su_config :: settings
  su_nodeEnv :: "string option"
  su_amqp :: amqp
  su_missing :: "exn option"
  su_database :: "database_options \<Rightarrow> exn + unit"
  su_service :: "string \<Rightarrow> exn + unit"

definition in_broker :: "(rabbit_state, 'a) async \<Rightarrow> (('ds, 'th) application, 'a) async" where
  "in_broker = on_part ap_rabbit (\<lambda>r a. a\<lparr>ap_rabbit := r\<rparr>)"

text \<open>The constructors and factories that can throw.\<close>

definition create_instances :: "surroundings \<Rightarrow> (('ds, 'th) application, unit) async" where
  "create_instances su =
     await (of_result (su_database su (app_database (su_config su)))) (\<lambda>_.
     await (of_result (jwt_module_options (su_config su))) (\<lambda>_.
     await (of_result (jwt_strategy_options (su_config su))) (\<lambda>_.
     await (of_result (s3_config_of (su_config su))) (\<lambda>_. resolve ()))))"

definition gateway_onModuleInit :: "(('ds, 'th) application, unit) async" where
  "gateway_onModuleInit = modify (\<lambda>a. a\<lparr>ap_events := subscribe (ap_events a)\<rparr>)"

definition client_onModuleInit :: "surroundings \<Rightarrow> (('ds, 'th) application, unit) async" where
  "client_onModuleInit su =
     await (of_result (su_service su PAYMENTS_SERVICE_NAME)) (\<lambda>_. modify (\<lambda>a. a\<lparr>ap_payments := True\<rparr>))"

definition init_hook :: "surroundings \<Rightarrow> string \<Rightarrow> (('ds, 'th) application, unit) async" where
  "init_hook su c =
     (if c = ''RabbitmqService'' then
        in_broker (onModuleInit (su_amqp su) (su_missing su) (su_config su) (su_nodeEnv su))
      else if c = ''OrdersGateway'' then gateway_onModuleInit
      else if c = ''PaymentsGrpcClient'' then client_onModuleInit su
      else resolve ())"

definition bootstrap_hook :: "surroundings \<Rightarrow> string \<Rightarrow> (('ds, 'th) application, unit) async" where
  "bootstrap_hook su c =
     (if c = ''OrdersWorkerService'' then in_broker (onApplicationBootstrap (su_amqp su)) else resolve ())"

fun each_hook :: "(string \<Rightarrow> ('w, unit) async) \<Rightarrow> string list \<Rightarrow> ('w, unit) async" where
  "each_hook f [] = resolve ()"
| "each_hook f (c # cs) = await (f c) (\<lambda>_. each_hook f cs)"

definition start :: "surroundings \<Rightarrow> string list \<Rightarrow> (('ds, 'th) application, unit) async" where
  "start su hooks =
     await (create_instances su) (\<lambda>_.
     await (each_hook (init_hook su) hooks) (\<lambda>_.
     await (each_hook (bootstrap_hook su) (hook_classes OnApplicationBootstrap app_module)) (\<lambda>_.
     modify (\<lambda>a. a\<lparr>ap_port := nullish (su_config su ''PORT'') (Some ''3000'')\<rparr>))))"

section \<open>The calls of the start\<close>

definition connect_calls :: "string \<Rightarrow> settings \<Rightarrow> amqp_call list" where
  "connect_calls url config =
     [Connect url, CreateChannel, Prefetch (js_Number_opt (nullish (config ''RABBITMQ_PREFETCH'') (Some ''10''))),
      AssertQueue ''orders.process'' plain_queue, AssertQueue ''orders.retry.process'' retry_queue_options,
      AssertQueue ''orders.dlq'' plain_queue]"

definition start_calls :: "string \<Rightarrow> settings \<Rightarrow> amqp_call list" where
  "start_calls url config = connect_calls url config @ [Consume ''orders.process'']"

fun accepted :: "amqp \<Rightarrow> amqp_call list \<Rightarrow> amqp_call list \<Rightarrow> bool" where
  "accepted amqp made [] \<longleftrightarrow> True"
| "accepted amqp made (c # cs) \<longleftrightarrow> (\<exists>b. amqp (made @ [c]) = Inr b) \<and> accepted amqp (made @ [c]) cs"

definition startable :: "surroundings \<Rightarrow> string \<Rightarrow> bool" where
  "startable su url \<longleftrightarrow>
     su_database su (app_database (su_config su)) = Inr () \<and>
     su_config su ''JWT_SECRET'' \<noteq> None \<and> su_config su ''AWS_S3_BUCKET'' \<noteq> None \<and>
     su_service su PAYMENTS_SERVICE_NAME = Inr () \<and> su_missing su = None \<and>
     accepted (su_amqp su) [] (start_calls url (su_config su))"

section \<open>Lemmas\<close>

lemma of_result_run: "of_result v s = (v, s)"
  by (cases v) (simp_all add: of_result_def async_simps)

lemma get_or_throw_ok: "(\<exists>v. get_or_throw config key = Inr v) \<longleftrightarrow> config key \<noteq> None"
  by (auto simp: get_or_throw_def split: option.split)

lemma create_instances_run:
  "create_instances su a = (r, a') \<Longrightarrow> a' = a \<and>
    (r = Inr () \<longleftrightarrow> su_database su (app_database (su_config su)) = Inr () \<and>
      su_config su ''JWT_SECRET'' \<noteq> None \<and> su_config su ''AWS_S3_BUCKET'' \<noteq> None)"
  by (auto simp: create_instances_def await_def of_result_run jwt_module_options_def jwt_strategy_options_def
      get_or_throw_def s3_config_of_def Let_def async_simps split: sum.splits option.splits)

text \<open>The broker's part of the start.\<close>

lemma rabbit_started:
  assumes "onModuleInit amqp missing config nodeEnv rabbit_init = (r, s)"
  shows "r = Inr () \<and> getBrokerUrl config nodeEnv = Some url \<longleftrightarrow>
      getBrokerUrl config nodeEnv = Some url \<and> missing = None \<and> accepted amqp [] (connect_calls url config)"
    and "r = Inr () \<Longrightarrow> getBrokerUrl config nodeEnv = Some url \<Longrightarrow>
      ready s \<and> rb_calls s = connect_calls url config"
    and "getBrokerUrl config nodeEnv = None \<Longrightarrow> r = Inr () \<and> s = rabbit_init"
  using assms
  by (auto simp: onModuleInit_def await_def async_simps amqp_call_run rabbit_init_def ready_def called_def
      connect_calls_def processQueue_def retryQueue_def dlqQueue_def split: option.splits sum.splits)

lemma worker_bootstrap:
  "onApplicationBootstrap amqp s =
     (if ready s then (map_sum id (\<lambda>_. ()) (amqp (rb_calls s @ [Consume ''orders.process''])),
        called (Consume ''orders.process'') s)
      else (Inl (JsError ''RabbitMQ consume requested before channel initialization''), s))"
  by (simp add: onApplicationBootstrap_def consume_def processQueue_def await_def async_simps ready_def
      amqp_call_run split: sum.split)

lemma accepted_append: "accepted amqp made (cs @ ds) \<longleftrightarrow> accepted amqp made cs \<and> accepted amqp (made @ cs) ds"
  by (induction cs arbitrary: made) auto

lemma init_hook_run:
  "init_hook su ''RabbitmqService'' a =
     (case onModuleInit (su_amqp su) (su_missing su) (su_config su) (su_nodeEnv su) (ap_rabbit a) of
        (r, s) \<Rightarrow> (r, a\<lparr>ap_rabbit := s\<rparr>))"
  "init_hook su ''OrdersGateway'' a = (Inr (), a\<lparr>ap_events := subscribe (ap_events a)\<rparr>)"
  "init_hook su ''PaymentsGrpcClient'' a =
     (case su_service su PAYMENTS_SERVICE_NAME of Inl e \<Rightarrow> (Inl e, a) | Inr _ \<Rightarrow> (Inr (), a\<lparr>ap_payments := True\<rparr>))"
  "c \<notin> {''RabbitmqService'', ''OrdersGateway'', ''PaymentsGrpcClient''} \<Longrightarrow> init_hook su c a = (Inr (), a)"
  by (simp_all add: init_hook_def in_broker_def on_part_def gateway_onModuleInit_def client_onModuleInit_def
      await_def of_result_run async_simps split: sum.split)

text \<open>The hooks act on parts of their own, so their order does not matter.\<close>

lemma init_hooks_run:
  fixes su :: surroundings
  defines "broker \<equiv> onModuleInit (su_amqp su) (su_missing su) (su_config su) (su_nodeEnv su)"
  assumes "each_hook (init_hook su) cs a = (r, a')" and "distinct cs"
  shows "(r = Inr () \<longleftrightarrow> (''RabbitmqService'' \<in> set cs \<longrightarrow> fst (broker (ap_rabbit a)) = Inr ()) \<and>
      (''PaymentsGrpcClient'' \<in> set cs \<longrightarrow> su_service su PAYMENTS_SERVICE_NAME = Inr ())) \<and>
    (r = Inr () \<longrightarrow>
      ap_rabbit a' = (if ''RabbitmqService'' \<in> set cs then snd (broker (ap_rabbit a)) else ap_rabbit a) \<and>
      (''OrdersGateway'' \<in> set cs \<longrightarrow> ev_subscribed (ap_events a')) \<and> (ev_subscribed (ap_events a) \<longrightarrow> ev_subscribed (ap_events a')) \<and>
      (''PaymentsGrpcClient'' \<in> set cs \<longrightarrow> ap_payments a') \<and> (ap_payments a \<longrightarrow> ap_payments a'))"
  using assms(2,3)
proof (induction cs arbitrary: a)
  case Nil
  then show ?case by (auto simp: async_simps)
next
  case (Cons c cs)
  obtain v b where b: "init_hook su c a = (v, b)" by fastforce
  have rest: "v = Inr () \<Longrightarrow> each_hook (init_hook su) cs b = (r, a')" "v \<noteq> Inr () \<Longrightarrow> r = v"
    using b Cons.prems(1) by (auto simp: await_def split: sum.splits)
  note later = Cons.IH [OF rest(1) distinct_tl [OF Cons.prems(2), simplified]]
  consider (rabbit) "c = ''RabbitmqService''" | (gateway) "c = ''OrdersGateway''" | (client) "c = ''PaymentsGrpcClient''"
    | (other) "c \<notin> {''RabbitmqService'', ''OrdersGateway'', ''PaymentsGrpcClient''}" by blast
  then show ?case
  proof cases
    case rabbit
    with b have "v = fst (broker (ap_rabbit a))" "b = a\<lparr>ap_rabbit := snd (broker (ap_rabbit a))\<rparr>"
      by (simp_all add: init_hook_run broker_def split: prod.splits)
    with rabbit rest later Cons.prems(2) show ?thesis by (cases "v = Inr ()") simp_all
  next
    case gateway
    with b have "v = Inr ()" "b = a\<lparr>ap_events := subscribe (ap_events a)\<rparr>" by (simp_all add: init_hook_run)
    with gateway later show ?thesis by (simp add: subscribe_def)
  next
    case client
    with b have "v = su_service su PAYMENTS_SERVICE_NAME" "v = Inr () \<Longrightarrow> b = a\<lparr>ap_payments := True\<rparr>"
      by (auto simp: init_hook_run split: sum.splits)
    with client rest later show ?thesis by (cases "v = Inr ()") simp_all
  next
    case other
    with b have "v = Inr ()" "b = a" by (simp_all add: init_hook_run(4))
    moreover from other have "''RabbitmqService'' \<noteq> c" "''OrdersGateway'' \<noteq> c" "''PaymentsGrpcClient'' \<noteq> c" by auto
    ultimately show ?thesis using later by simp
  qed
qed

lemma start_run:
  fixes a1 b :: "('ds, 'th) application"
  assumes "create_instances su stopped = (r0, b)" and "each_hook (init_hook su) hooks stopped = (r1, a1)"
  shows "start su hooks stopped = (case r0 of Inl e \<Rightarrow> (Inl e, stopped) | Inr _ \<Rightarrow>
      (case r1 of Inl e \<Rightarrow> (Inl e, a1) | Inr _ \<Rightarrow>
        (case onApplicationBootstrap (su_amqp su) (ap_rabbit a1) of
           (Inl e, t) \<Rightarrow> (Inl e, a1\<lparr>ap_rabbit := t\<rparr>)
         | (Inr _, t) \<Rightarrow> (Inr (), a1\<lparr>ap_rabbit := t, ap_port := nullish (su_config su ''PORT'') (Some ''3000'')\<rparr>))))"
proof -
  from create_instances_run [OF assms(1)] have "b = stopped" by blast
  with assms show ?thesis
    by (auto simp: start_def await_def app_hooks bootstrap_hook_def in_broker_def on_part_def
        async_simps split: sum.split prod.split)
qed

section \<open>Property\<close>


text \<open>A broker that takes every call; and the test environment, which the settings give no broker.\<close>

definition demo_settings :: settings where
  "demo_settings = [''JWT_SECRET'' \<mapsto> ''s'', ''AWS_S3_BUCKET'' \<mapsto> ''b'']"

definition demo_surroundings :: "string option \<Rightarrow> surroundings" where
  "demo_surroundings nodeEnv = \<lparr>su_config = demo_settings, su_nodeEnv = nodeEnv, su_amqp = (\<lambda>_. Inr True),
     su_missing = None, su_database = (\<lambda>_. Inr ()), su_service = (\<lambda>_. Inr ())\<rparr>"

lemma demo_surroundings_simps [simp]:
  "su_config (demo_surroundings nodeEnv) = demo_settings" "su_nodeEnv (demo_surroundings nodeEnv) = nodeEnv"
  by (simp_all add: demo_surroundings_def)

lemma demo_startable [simp]: "startable (demo_surroundings nodeEnv) url"
  by (auto simp: startable_def demo_surroundings_def demo_settings_def start_calls_def connect_calls_def)


end
